theory Spec2Isabelle
  imports Complex_Main "HOL-Library.Sublist" "HOL-Library.AList" "HOL-Library.Char_ord"
    "HOL-Library.List_Lexorder"
begin

section \<open>Python values and string operations used by the fetch scripts\<close>

text \<open>
  The scripts under \<^verbatim>\<open>scripts/\<close> read spreadsheet cells and JSON values, turn them
  into text with \<^verbatim>\<open>str\<close>, parse numbers with \<^verbatim>\<open>float\<close> and \<^verbatim>\<open>int\<close>, and keep
  per-country dictionaries. Text is modelled as \<^typ>\<open>string\<close>, one character per code
  point below 256; case conversion and the digit test are modelled on ASCII, and the limit
  of recent Python versions on the length of an integer's decimal text is not modelled.

  A cell of a decoded sheet is \<^verbatim>\<open>None\<close>, an integer or text. A cell decoded as a
  \<^verbatim>\<open>float\<close> is represented by the text Python prints for it (a missing pandas cell by
  the text \<^verbatim>\<open>nan\<close>): the scripts read cells through \<^verbatim>\<open>str\<close> and \<^verbatim>\<open>float\<close>, which
  give the same results on both forms (only the truth value of a float zero differs).
\<close>

datatype cell = CNone | CInt int | CStr string

text \<open>
  A Python \<^verbatim>\<open>float\<close> is a finite number, an infinity or NaN. A finite float is
  identified with the real number it stands for: results are exact below the overflow
  limit of IEEE double precision, \<^verbatim>\<open>2**1024 - 2**970\<close> (the least magnitude that rounds
  to infinity), and infinite from there on; rounding to 53 significant bits and underflow
  are not modelled.
\<close>

datatype pyfloat = Fin real | PosInf | NegInf | NaN

definition dbl_limit :: real where
  "dbl_limit = 2 ^ 1024 - 2 ^ 970"

definition dbl :: "real \<Rightarrow> pyfloat" where
  "dbl x = (if dbl_limit \<le> x then PosInf else if x \<le> - dbl_limit then NegInf else Fin x)"

text \<open>The exceptions the conversions raise.\<close>

datatype py_error = ValueError | TypeError | OverflowError

text \<open>A value kept in a per-country dictionary and written to JSON.\<close>

datatype jval = JNull | JNum pyfloat | JStr string

subsection \<open>Text\<close>

definition lower_char :: "char \<Rightarrow> char" where
  "lower_char c =
     (case map_of (zip ''ABCDEFGHIJKLMNOPQRSTUVWXYZ'' ''abcdefghijklmnopqrstuvwxyz'') c of
        None \<Rightarrow> c | Some d \<Rightarrow> d)"

definition upper_char :: "char \<Rightarrow> char" where
  "upper_char c =
     (case map_of (zip ''abcdefghijklmnopqrstuvwxyz'' ''ABCDEFGHIJKLMNOPQRSTUVWXYZ'') c of
        None \<Rightarrow> c | Some d \<Rightarrow> d)"

text \<open>\<^verbatim>\<open>s.lower()\<close>, \<^verbatim>\<open>s.upper()\<close>.\<close>

definition py_lower :: "string \<Rightarrow> string" where
  "py_lower s = map lower_char s"

definition py_upper :: "string \<Rightarrow> string" where
  "py_upper s = map upper_char s"

text \<open>\<^verbatim>\<open>s.isupper()\<close>: some cased character, and no lower-case one.\<close>

definition py_isupper :: "string \<Rightarrow> bool" where
  "py_isupper s = (list_ex (\<lambda>c. c \<in> set ''ABCDEFGHIJKLMNOPQRSTUVWXYZ'') s
     \<and> \<not> list_ex (\<lambda>c. c \<in> set ''abcdefghijklmnopqrstuvwxyz'') s)"

definition is_space :: "char \<Rightarrow> bool" where
  "is_space c =
     (c \<in> set [CHR '' '', CHR 0x09, CHR 0x0A, CHR 0x0B, CHR 0x0C, CHR 0x0D,
                CHR 0x1C, CHR 0x1D, CHR 0x1E, CHR 0x1F, CHR 0x85, CHR 0xA0])"

text \<open>\<^verbatim>\<open>s.strip()\<close>.\<close>

definition py_strip :: "string \<Rightarrow> string" where
  "py_strip s = rev (dropWhile is_space (rev (dropWhile is_space s)))"

definition is_digit :: "char \<Rightarrow> bool" where
  "is_digit c = (c \<in> set ''0123456789'')"

text \<open>\<^verbatim>\<open>s.isdigit()\<close>.\<close>

definition py_isdigit :: "string \<Rightarrow> bool" where
  "py_isdigit s = (s \<noteq> [] \<and> list_all is_digit s)"

text \<open>\<^verbatim>\<open>sep.join(xs)\<close>.\<close>

fun py_join :: "string \<Rightarrow> string list \<Rightarrow> string" where
  "py_join sep [] = []"
| "py_join sep [x] = x"
| "py_join sep (x # y # ys) = x @ sep @ py_join sep (y # ys)"

text \<open>\<^verbatim>\<open>raw.replace(",", "")\<close>.\<close>

definition remove_commas :: "string \<Rightarrow> string" where
  "remove_commas s = filter (\<lambda>c. c \<noteq> CHR '','') s"

subsection \<open>Numbers and their text\<close>

definition digit_val :: "char \<Rightarrow> nat" where
  "digit_val c =
     (case map_of (zip ''0123456789'' [0, 1, 2, 3, 4, 5, 6, 7, 8, 9]) c of None \<Rightarrow> 0 | Some d \<Rightarrow> d)"

definition nat_of_digits :: "string \<Rightarrow> nat" where
  "nat_of_digits s = foldl (\<lambda>a c. 10 * a + digit_val c) 0 s"

fun digits_of :: "nat \<Rightarrow> string" where
  "digits_of n =
     (if n < 10 then [''0123456789'' ! n]
      else digits_of (n div 10) @ [''0123456789'' ! (n mod 10)])"

declare digits_of.simps [simp del]

text \<open>\<^verbatim>\<open>str(i)\<close> for an integer.\<close>

definition str_int :: "int \<Rightarrow> string" where
  "str_int i = (if i < 0 then ''-'' @ digits_of (nat (- i)) else digits_of (nat i))"

text \<open>\<^verbatim>\<open>str(c)\<close> and the truth value of a cell (\<^verbatim>\<open>if c\<close>, \<^verbatim>\<open>not c\<close>).\<close>

fun py_str :: "cell \<Rightarrow> string" where
  "py_str CNone = ''None''"
| "py_str (CInt i) = str_int i"
| "py_str (CStr s) = s"

fun py_truthy :: "cell \<Rightarrow> bool" where
  "py_truthy CNone = False"
| "py_truthy (CInt i) = (i \<noteq> 0)"
| "py_truthy (CStr s) = (s \<noteq> [])"

text \<open>
  \<^verbatim>\<open>float(s)\<close> for text; \<open>None\<close> is the \<^verbatim>\<open>ValueError\<close> branch. An underscore must stand
  between two digits, and underscores are removed; white space around the text is dropped
  (the white space of \<^verbatim>\<open>float\<close> is that of \<^verbatim>\<open>strip\<close> without the four separator
  characters \<^verbatim>\<open>\x1c\<close> to \<^verbatim>\<open>\x1f\<close>); after an optional sign the text is \<^verbatim>\<open>inf\<close>,
  \<^verbatim>\<open>infinity\<close> or \<^verbatim>\<open>nan\<close> in any case, or a decimal numeral: digits with an optional
  point, at least one digit before or after it, and an optional exponent \<^verbatim>\<open>e\<close> or \<^verbatim>\<open>E\<close>
  with an optional sign and at least one digit.
\<close>

definition is_float_space :: "char \<Rightarrow> bool" where
  "is_float_space c =
     (c \<in> set [CHR '' '', CHR 0x09, CHR 0x0A, CHR 0x0B, CHR 0x0C, CHR 0x0D, CHR 0x85, CHR 0xA0])"

definition float_strip :: "string \<Rightarrow> string" where
  "float_strip s = rev (dropWhile is_float_space (rev (dropWhile is_float_space s)))"

fun underscores_ok :: "char \<Rightarrow> string \<Rightarrow> bool" where
  "underscores_ok prev [] = (prev \<noteq> CHR ''_'')"
| "underscores_ok prev (c # cs) =
     (if c = CHR ''_'' then is_digit prev \<and> underscores_ok c cs
      else (prev = CHR ''_'' \<longrightarrow> is_digit c) \<and> underscores_ok c cs)"

text \<open>The number \<open>m\<close> times ten to the power \<open>k\<close>.\<close>

definition scale10 :: "nat \<Rightarrow> int \<Rightarrow> real" where
  "scale10 m k = (if 0 \<le> k then real m * 10 ^ nat k else real m / 10 ^ nat (- k))"

text \<open>The exponent part: the text that follows the mantissa.\<close>

definition float_exponent :: "string \<Rightarrow> int option" where
  "float_exponent r =
     (if r = [] then Some 0
      else if hd r \<in> set ''eE'' then
        (let t = tl r;
             ds = (if t \<noteq> [] \<and> hd t \<in> set ''+-'' then tl t else t)
         in if ds = [] \<or> \<not> list_all is_digit ds then None
            else if t \<noteq> [] \<and> hd t = CHR ''-'' then Some (- int (nat_of_digits ds))
            else Some (int (nat_of_digits ds)))
      else None)"

definition unsigned_float :: "string \<Rightarrow> pyfloat option" where
  "unsigned_float b =
     (if py_lower b \<in> set [''inf'', ''infinity''] then Some PosInf
      else if py_lower b = ''nan'' then Some NaN
      else
        (let ip = takeWhile is_digit b;
             r1 = dropWhile is_digit b;
             has_point = (r1 \<noteq> [] \<and> hd r1 = CHR ''.'');
             fp = (if has_point then takeWhile is_digit (tl r1) else []);
             r2 = (if has_point then dropWhile is_digit (tl r1) else r1)
         in if ip = [] \<and> fp = [] then None
            else map_option
                   (\<lambda>e. dbl (scale10 (nat_of_digits (ip @ fp)) (e - int (length fp))))
                   (float_exponent r2)))"

fun float_neg :: "pyfloat \<Rightarrow> pyfloat" where
  "float_neg (Fin x) = Fin (- x)"
| "float_neg PosInf = NegInf"
| "float_neg NegInf = PosInf"
| "float_neg NaN = NaN"

definition py_float :: "string \<Rightarrow> pyfloat option" where
  "py_float s =
     (if \<not> underscores_ok (CHR 0x00) s then None
      else
        (let t = float_strip (filter (\<lambda>c. c \<noteq> CHR ''_'') s)
         in if t = [] then None
            else if hd t = CHR ''-'' then map_option float_neg (unsigned_float (tl t))
            else if hd t = CHR ''+'' then unsigned_float (tl t)
            else unsigned_float t))"

text \<open>
  \<^verbatim>\<open>float(i)\<close> for an integer raises \<^verbatim>\<open>OverflowError\<close> when the integer is too large for
  a float.
\<close>

definition float_of_int :: "int \<Rightarrow> py_error + pyfloat" where
  "float_of_int i =
     (if dbl_limit \<le> \<bar>real_of_int i\<bar> then Inl OverflowError else Inr (Fin (real_of_int i)))"

text \<open>\<^verbatim>\<open>float(c)\<close> for a cell: \<^verbatim>\<open>float(None)\<close> raises \<^verbatim>\<open>TypeError\<close>.\<close>

fun py_float_cell :: "cell \<Rightarrow> py_error + pyfloat" where
  "py_float_cell CNone = Inl TypeError"
| "py_float_cell (CInt i) = float_of_int i"
| "py_float_cell (CStr s) = (case py_float s of None \<Rightarrow> Inl ValueError | Some x \<Rightarrow> Inr x)"

text \<open>
  \<^verbatim>\<open>int(x)\<close> for a float: truncation towards zero; an infinity raises \<^verbatim>\<open>OverflowError\<close>
  and NaN raises \<^verbatim>\<open>ValueError\<close>.
\<close>

fun py_int :: "pyfloat \<Rightarrow> py_error + int" where
  "py_int (Fin x) = Inr (if 0 \<le> x then \<lfloor>x\<rfloor> else \<lceil>x\<rceil>)"
| "py_int PosInf = Inl OverflowError"
| "py_int NegInf = Inl OverflowError"
| "py_int NaN = Inl ValueError"

text \<open>\<^verbatim>\<open>x * m\<close> for a float and a finite factor.\<close>

fun float_times :: "pyfloat \<Rightarrow> real \<Rightarrow> pyfloat" where
  "float_times (Fin x) m = dbl (x * m)"
| "float_times PosInf m = (if 0 < m then PosInf else if m < 0 then NegInf else NaN)"
| "float_times NegInf m = (if 0 < m then NegInf else if m < 0 then PosInf else NaN)"
| "float_times NaN m = NaN"

text \<open>A loop with \<^verbatim>\<open>enumerate\<close> that returns the index of the first element passing a test.\<close>

fun first_index :: "('a \<Rightarrow> bool) \<Rightarrow> 'a list \<Rightarrow> nat \<Rightarrow> nat option" where
  "first_index P [] i = None"
| "first_index P (x # xs) i = (if P x then Some i else first_index P xs (Suc i))"

section \<open>The canonical store and extracted maps\<close>

type_synonym fields = "string \<Rightarrow> jval option"
type_synonym store = "string \<Rightarrow> fields option"
type_synonym field_items = "(string \<times> jval) list"
type_synonym source_map = "(string \<times> field_items) list"

text \<open>\<^verbatim>\<open>store[iso3][field]\<close> read without raising: absent country or absent key give \<open>None\<close>.\<close>

definition store_get :: "store \<Rightarrow> string \<Rightarrow> string \<Rightarrow> jval option" where
  "store_get st iso3 field = (case st iso3 of None \<Rightarrow> None | Some r \<Rightarrow> r field)"

text \<open>\<^verbatim>\<open>d.get(field) is None\<close>: the key is missing, or it is bound to \<^verbatim>\<open>None\<close> (JSON null).\<close>

definition get_is_None :: "fields \<Rightarrow> string \<Rightarrow> bool" where
  "get_is_None r field = (case r field of None \<Rightarrow> True | Some JNull \<Rightarrow> True | Some _ \<Rightarrow> False)"

subsection \<open>Merging an extracted map into the store\<close>

text \<open>
  \<^verbatim>\<open>fet_UN_data.py\<close>, \<^verbatim>\<open>main\<close>, lines 242-248:
  \<^verbatim>\<open>
  for iso3, fields in new_data.items():
      if iso3 not in un_data:
          un_data[iso3] = {}
      for field, value in fields.items():
          if un_data[iso3].get(field) is None:
              un_data[iso3][field] = value
              total_merged += 1
  \<close>
  The inner loop works on the record of one country; the counter \<^verbatim>\<open>total_merged\<close> is
  threaded through.
\<close>

fun merge_fields :: "fields \<Rightarrow> field_items \<Rightarrow> nat \<Rightarrow> fields \<times> nat" where
  "merge_fields r [] n = (r, n)"
| "merge_fields r ((field, v) # rest) n =
     (if get_is_None r field then merge_fields (r(field \<mapsto> v)) rest (Suc n)
      else merge_fields r rest n)"

fun merge_un :: "store \<Rightarrow> source_map \<Rightarrow> nat \<Rightarrow> store \<times> nat" where
  "merge_un st [] n = (st, n)"
| "merge_un st ((iso3, items) # rest) n =
     (let r = (case st iso3 of None \<Rightarrow> Map.empty | Some r0 \<Rightarrow> r0);
          (r', n') = merge_fields r items n
      in merge_un (st(iso3 \<mapsto> r')) rest n')"

text \<open>The loop of \<^verbatim>\<open>main\<close> over the configured files merges one extracted map after another.\<close>

fun merge_all :: "store \<Rightarrow> source_map list \<Rightarrow> nat \<Rightarrow> store \<times> nat" where
  "merge_all st [] n = (st, n)"
| "merge_all st (m # ms) n = (case merge_un st m n of (st', n') \<Rightarrow> merge_all st' ms n')"

text \<open>
  \<^verbatim>\<open>fetch_unesco.py\<close>, \<^verbatim>\<open>main\<close>, lines 330-336, the branch taken for the OPRI archive:
  \<^verbatim>\<open>
  for iso3, fields in results.items():
      if zip_name == "OPRI":
          for k, v in fields.items():
              if k not in unesco_data.get(iso3, {}):
                  unesco_data.setdefault(iso3, {})[k] = v
  \<close>
  Here the test is key membership, and a country is created only when a key is written.
\<close>

fun opri_fields :: "store \<Rightarrow> string \<Rightarrow> field_items \<Rightarrow> store" where
  "opri_fields st iso3 [] = st"
| "opri_fields st iso3 ((k, v) # rest) =
     (let r = (case st iso3 of None \<Rightarrow> Map.empty | Some r0 \<Rightarrow> r0)
      in if r k = None then opri_fields (st(iso3 \<mapsto> r(k \<mapsto> v))) iso3 rest
         else opri_fields st iso3 rest)"

fun merge_opri :: "store \<Rightarrow> source_map \<Rightarrow> store" where
  "merge_opri st [] = st"
| "merge_opri st ((iso3, items) # rest) = merge_opri (opri_fields st iso3 items) rest"

text \<open>An extracted map carries numbers and year strings, never \<^verbatim>\<open>None\<close>.\<close>

definition no_null :: "source_map \<Rightarrow> bool" where
  "no_null m = (\<forall>(iso3, items) \<in> set m. \<forall>(field, v) \<in> set items. v \<noteq> JNull)"

text \<open>A field of a country is present when it is bound to something other than \<^verbatim>\<open>None\<close>.\<close>

definition present :: "store \<Rightarrow> string \<Rightarrow> string \<Rightarrow> bool" where
  "present st e f = (case store_get st e f of None \<Rightarrow> False | Some v \<Rightarrow> v \<noteq> JNull)"

text \<open>Every country of the map exists in the store and every field of the map is present there.\<close>

definition saturated :: "store \<Rightarrow> source_map \<Rightarrow> bool" where
  "saturated st m = (\<forall>(e, items) \<in> set m. st e \<noteq> None \<and> (\<forall>(f, v) \<in> set items. present st e f))"

section \<open>The UN workbook reader (\<^verbatim>\<open>fet_UN_data.py\<close>)\<close>

type_synonym column_map = "(string \<times> string) list"

subsection \<open>Locating the header row\<close>

text \<open>
  \<^verbatim>\<open>
  def find_header_row(all_rows):
      for i, row in enumerate(all_rows[:25]):
          row_str = " ".join(str(c) for c in row if c)
          if "ISO3" in row_str or "iso3" in row_str.lower():
              return i
      return None
  \<close>
\<close>

definition row_str :: "cell list \<Rightarrow> string" where
  "row_str row = py_join '' '' (map py_str (filter py_truthy row))"

definition header_hit :: "cell list \<Rightarrow> bool" where
  "header_hit row = (sublist ''ISO3'' (row_str row) \<or> sublist ''iso3'' (py_lower (row_str row)))"

definition find_header_row :: "cell list list \<Rightarrow> nat option" where
  "find_header_row all_rows = first_index header_hit (take 25 all_rows) 0"

subsection \<open>Mapping header cells to fields\<close>

text \<open>
  \<^verbatim>\<open>
  def map_columns(header_row, column_map):
      iso3_col   = None
      year_col   = None
      field_cols = {}
      for col_i, cell in enumerate(header_row):
          if cell is None:
              continue
          cell_str = str(cell).strip()
          for keyword, field_name in column_map:
              if keyword.lower() not in cell_str.lower():
                  continue
              if field_name == "_ISO3_":
                  if iso3_col is None:
                      iso3_col = col_i
              elif field_name == "_YEAR_":
                  if year_col is None:
                      year_col = col_i
              else:
                  if field_name not in field_cols:
                      field_cols[field_name] = col_i
      return iso3_col, year_col, field_cols
  \<close>
  The three results are kept in a record; the dictionary \<^verbatim>\<open>field_cols\<close> is an association
  list in insertion order.
\<close>

record header_mapping =
  iso3_col :: "nat option"
  year_col :: "nat option"
  field_cols :: "(string \<times> nat) list"

fun claim_pairs :: "nat \<Rightarrow> string \<Rightarrow> column_map \<Rightarrow> header_mapping \<Rightarrow> header_mapping" where
  "claim_pairs col_i cell_str [] m = m"
| "claim_pairs col_i cell_str ((keyword, field_name) # rest) m =
     (if \<not> sublist (py_lower keyword) (py_lower cell_str) then claim_pairs col_i cell_str rest m
      else if field_name = ''_ISO3_'' then
        claim_pairs col_i cell_str rest (if iso3_col m = None then m\<lparr>iso3_col := Some col_i\<rparr> else m)
      else if field_name = ''_YEAR_'' then
        claim_pairs col_i cell_str rest (if year_col m = None then m\<lparr>year_col := Some col_i\<rparr> else m)
      else
        claim_pairs col_i cell_str rest
          (if map_of (field_cols m) field_name = None
           then m\<lparr>field_cols := field_cols m @ [(field_name, col_i)]\<rparr> else m))"

fun map_cells :: "nat \<Rightarrow> cell list \<Rightarrow> column_map \<Rightarrow> header_mapping \<Rightarrow> header_mapping" where
  "map_cells col_i [] column_map m = m"
| "map_cells col_i (cell # rest) column_map m =
     (if cell = CNone then map_cells (Suc col_i) rest column_map m
      else map_cells (Suc col_i) rest column_map
             (claim_pairs col_i (py_strip (py_str cell)) column_map m))"

definition map_columns :: "cell list \<Rightarrow> column_map \<Rightarrow> header_mapping" where
  "map_columns header_row column_map =
     map_cells 0 header_row column_map \<lparr>iso3_col = None, year_col = None, field_cols = []\<rparr>"

subsection \<open>Reading the data rows\<close>

text \<open>
  The body of the row loop of \<^verbatim>\<open>read_file\<close>, lines 178-212. The country code of a row
  (lines 179-184):
  \<^verbatim>\<open>
  if iso3_col >= len(row):
      continue
  iso3 = row[iso3_col]
  if not iso3 or len(str(iso3).strip()) != 3:
      continue
  iso3 = str(iso3).strip().upper()
  \<close>
\<close>

definition row_iso3 :: "nat \<Rightarrow> cell list \<Rightarrow> string option" where
  "row_iso3 ic row =
     (if ic \<ge> length row then None
      else if \<not> py_truthy (row ! ic) \<or> length (py_strip (py_str (row ! ic))) \<noteq> 3 then None
      else Some (py_upper (py_strip (py_str (row ! ic)))))"

text \<open>
  The year of a row (lines 186-195):
  \<^verbatim>\<open>
  yr_int = 0
  year   = "2024"
  if year_col is not None and year_col < len(row):
      yr_raw = row[year_col]
      if yr_raw is not None:
          try:
              yr_int = int(float(str(yr_raw)))
              year   = str(yr_int)
          except (ValueError, TypeError):
              pass
  \<close>
\<close>

definition row_year :: "nat option \<Rightarrow> cell list \<Rightarrow> py_error + int \<times> string" where
  "row_year yc row =
     (case yc of
        None \<Rightarrow> Inr (0, ''2024'')
      | Some y \<Rightarrow>
          if y < length row then
            (if row ! y = CNone then Inr (0, ''2024'')
             else (case py_float (py_str (row ! y)) of
                     None \<Rightarrow> Inr (0, ''2024'')
                   | Some x \<Rightarrow>
                       (case py_int x of
                          Inr yr_int \<Rightarrow> Inr (yr_int, str_int yr_int)
                        | Inl e \<Rightarrow> if e \<in> {ValueError, TypeError} then Inr (0, ''2024'') else Inl e)))
          else Inr (0, ''2024''))"

text \<open>
  The handler catches \<^verbatim>\<open>ValueError\<close> and \<^verbatim>\<open>TypeError\<close> only. The \<^verbatim>\<open>OverflowError\<close> that
  \<^verbatim>\<open>int\<close> raises on an infinite year is not caught and ends \<^verbatim>\<open>read_file\<close>; an exception
  that is not caught is the result \<open>Inl\<close>.

  Writing the fields of an accepted row (lines 206-212):
  \<^verbatim>\<open>
  for field_name, col_idx in field_cols.items():
      if col_idx < len(row) and row[col_idx] is not None:
          try:
              result[iso3][field_name]            = float(row[col_idx])
              result[iso3][field_name + "_year"]  = year
          except (ValueError, TypeError):
              pass
  \<close>
  A dictionary assignment is \<^const>\<open>AList.update\<close>: it replaces the value of a key in
  place, or appends a new key. Here too an \<^verbatim>\<open>OverflowError\<close>, raised by \<^verbatim>\<open>float\<close> on an
  integer cell that is too large, is not caught.
\<close>

fun write_fields ::
  "string \<Rightarrow> cell list \<Rightarrow> (string \<times> nat) list \<Rightarrow> field_items \<Rightarrow> py_error + field_items" where
  "write_fields year row [] items = Inr items"
| "write_fields year row ((field_name, col_idx) # rest) items =
     (if col_idx < length row \<and> row ! col_idx \<noteq> CNone then
        (case py_float_cell (row ! col_idx) of
           Inr x \<Rightarrow>
             write_fields year row rest
               (AList.update (field_name @ ''_year'') (JStr year)
                  (AList.update field_name (JNum x) items))
         | Inl e \<Rightarrow>
             if e \<in> {ValueError, TypeError} then write_fields year row rest items else Inl e)
      else write_fields year row rest items)"

text \<open>
  The row loop (lines 175-212); \<^verbatim>\<open>result\<close> and \<^verbatim>\<open>best_year\<close> are the loop state, and
  \<open>read_row\<close> is one pass through the body (a \<^verbatim>\<open>continue\<close> leaves the state as it is, an
  exception that is not caught ends the loop and \<^verbatim>\<open>read_file\<close>).
  \<^verbatim>\<open>
  for row in all_rows[header_idx + 1:]:
      ...
      if yr_int > 2025:
          continue
      if iso3 in best_year and yr_int < best_year[iso3]:
          continue
      best_year[iso3] = yr_int
      if iso3 not in result:
          result[iso3] = {}
      ...
  \<close>
\<close>

type_synonym read_state = "source_map \<times> (string \<Rightarrow> int option)"

definition read_row ::
  "nat \<Rightarrow> nat option \<Rightarrow> (string \<times> nat) list \<Rightarrow> cell list \<Rightarrow> read_state \<Rightarrow>
   py_error + read_state" where
  "read_row ic yc fcs row st =
     (case st of (result, best_year) \<Rightarrow>
        (case row_iso3 ic row of
           None \<Rightarrow> Inr st
         | Some iso3 \<Rightarrow>
             (case row_year yc row of
                Inl e \<Rightarrow> Inl e
              | Inr (yr_int, year) \<Rightarrow>
                  if yr_int > 2025 then Inr st
                  else if (case best_year iso3 of None \<Rightarrow> False | Some b \<Rightarrow> yr_int < b) then Inr st
                  else
                    (case write_fields year row fcs
                            (case map_of result iso3 of None \<Rightarrow> [] | Some items \<Rightarrow> items) of
                       Inl e \<Rightarrow> Inl e
                     | Inr items \<Rightarrow>
                         Inr (AList.update iso3 items result, best_year(iso3 \<mapsto> yr_int))))))"

fun read_rows ::
  "nat \<Rightarrow> nat option \<Rightarrow> (string \<times> nat) list \<Rightarrow> cell list list \<Rightarrow> read_state \<Rightarrow>
   py_error + read_state" where
  "read_rows ic yc fcs [] st = Inr st"
| "read_rows ic yc fcs (row # rows) st =
     (case read_row ic yc fcs row st of
        Inl e \<Rightarrow> Inl e
      | Inr st' \<Rightarrow> read_rows ic yc fcs rows st')"

text \<open>
  \<^verbatim>\<open>read_file\<close> from the decoded rows of the chosen sheet on: no header row, or no
  country-code column, gives the empty map.
\<close>

definition read_file :: "cell list list \<Rightarrow> column_map \<Rightarrow> py_error + source_map" where
  "read_file all_rows column_map =
     (case find_header_row all_rows of
        None \<Rightarrow> Inr []
      | Some header_idx \<Rightarrow>
          (let m = map_columns (all_rows ! header_idx) column_map
           in case iso3_col m of
                None \<Rightarrow> Inr []
              | Some ic \<Rightarrow>
                  map_sum id fst
                    (read_rows ic (year_col m) (field_cols m)
                       (drop (header_idx + 1) all_rows) ([], Map.empty))))"

text \<open>The column specifications of the five configured workbooks (\<^verbatim>\<open>FILES\<close>).\<close>

definition population_columns :: column_map where
  "population_columns =
     [(''ISO3'', ''_ISO3_''), (''Year'', ''_YEAR_''), (''0-14'', ''popAge0to14''),
      (''15-64'', ''popAge15to64''), (''65'', ''popAge65plus''),
      (''Dependency'', ''dependencyRatio'')]"

definition deaths_columns :: column_map where
  "deaths_columns =
     [(''ISO3'', ''_ISO3_''), (''Year'', ''_YEAR_''), (''Neonatal'', ''neonateMortality''),
      (''Under age 1'', ''neonateMortality'')]"

definition female_deaths_columns :: column_map where
  "female_deaths_columns =
     [(''ISO3'', ''_ISO3_''), (''Year'', ''_YEAR_''), (''Neonatal'', ''neonateMortalityF'')]"

definition male_deaths_columns :: column_map where
  "male_deaths_columns =
     [(''ISO3'', ''_ISO3_''), (''Year'', ''_YEAR_''), (''Neonatal'', ''neonateMortalityM'')]"

definition births_columns :: column_map where
  "births_columns =
     [(''ISO3'', ''_ISO3_''), (''Year'', ''_YEAR_''), (''Total'', ''totalBirths''),
      (''15-19'', ''birthsAge15to19''), (''Adolescent'', ''adolBirthRate'')]"

text \<open>
  A pair of the column specification for the given field whose keyword occurs in the cell
  text, ignoring case; and the test of a header cell for a field.
\<close>

definition pair_hit :: "string \<Rightarrow> string \<Rightarrow> column_map \<Rightarrow> bool" where
  "pair_hit field_name cell_str column_map =
     list_ex (\<lambda>(keyword, f). f = field_name \<and> sublist (py_lower keyword) (py_lower cell_str))
       column_map"

definition keyword_hit :: "column_map \<Rightarrow> string \<Rightarrow> cell \<Rightarrow> bool" where
  "keyword_hit column_map field_name cell =
     (cell \<noteq> CNone \<and> pair_hit field_name (py_strip (py_str cell)) column_map)"

section \<open>The SIPRI workbook reader (\<^verbatim>\<open>fetch_sipri.py\<close>)\<close>

subsection \<open>Resolving a country name\<close>

text \<open>The manual override table \<^verbatim>\<open>NAME_TO_ISO3\<close>, in source order.\<close>

definition NAME_TO_ISO3 :: "(string \<times> string) list" where
  "NAME_TO_ISO3 =
     [(''United States'', ''USA''), (''United Kingdom'', ''GBR''), (''Russia'', ''RUS''),
      (''South Korea'', ''KOR''), (''North Korea'', ''PRK''), (''Iran'', ''IRN''),
      (''Syria'', ''SYR''), (''Venezuela'', ''VEN''), (''Bolivia'', ''BOL''),
      (''Tanzania'', ''TZA''), (''Congo, Dem. Rep.'', ''COD''), (''Congo, Rep.'', ''COG''),
      (''Congo, DR'', ''COD''), (''Congo, Republic'', ''COG''),
      (''C'' @ [CHR 0xF4] @ ''te d'' @ [CHR 0x27] @ ''Ivoire'', ''CIV''),
      (''Gambia, The'', ''GMB''), (''Korea, South'', ''KOR''), (''Korea, North'', ''PRK''),
      (''Lao PDR'', ''LAO''), (''Laos'', ''LAO''), (''Libya'', ''LBY''), (''Moldova'', ''MDA''),
      (''Slovakia'', ''SVK''), (''Czechia'', ''CZE''), (''Czech Republic'', ''CZE''),
      (''Kyrgyzstan'', ''KGZ''), (''Kyrgyz Republic'', ''KGZ''), (''Timor-Leste'', ''TLS''),
      (''Eswatini'', ''SWZ''), (''Swaziland'', ''SWZ''), (''Macedonia'', ''MKD''),
      (''North Macedonia'', ''MKD''), (''Micronesia'', ''FSM''),
      (''S'' @ [CHR 0xE3] @ ''o Tom'' @ [CHR 0xE9] @ '' and Pr'' @ [CHR 0xED] @ ''ncipe'', ''STP''),
      (''Brunei'', ''BRN''), (''Cape Verde'', ''CPV''), (''Cabo Verde'', ''CPV''),
      (''Palestine'', ''PSE''), (''West Bank and Gaza'', ''PSE''), (''Taiwan'', ''TWN''),
      (''Kosovo'', ''XKX''), (''Vietnam'', ''VNM''), (''Viet Nam'', ''VNM''),
      (''Myanmar'', ''MMR''), (''Burma'', ''MMR''), (''Egypt'', ''EGY''), (''Turkey'', ''TUR''),
      (''T'' @ [CHR 0xFC] @ ''rkiye'', ''TUR'')]"

text \<open>
  The reference country database is the external package \<^verbatim>\<open>pycountry\<close>. The model takes
  it as a parameter: \<open>db_get\<close> is \<^verbatim>\<open>pycountry.countries.get(name=...)\<close> followed by
  \<^verbatim>\<open>.alpha_3\<close> (\<open>None\<close> when no country has that name), and \<open>db_search_fuzzy\<close> is
  \<^verbatim>\<open>pycountry.countries.search_fuzzy\<close>, giving the codes of its results in rank order
  (\<open>None\<close> when it raises). The database itself is \<open>None\<close> when the import fails.
\<close>

record country_db =
  db_get :: "string \<Rightarrow> string option"
  db_search_fuzzy :: "string \<Rightarrow> string list option"

text \<open>
  \<^verbatim>\<open>
  def country_to_iso3(name):
      name = str(name).strip()
      if name in NAME_TO_ISO3:
          return NAME_TO_ISO3[name]
      try:
          import pycountry
          c = pycountry.countries.get(name=name)
          if c:
              return c.alpha_3
          results = pycountry.countries.search_fuzzy(name)
          if results:
              return results[0].alpha_3
      except Exception:
          pass
      return None
  \<close>
\<close>

definition country_to_iso3 :: "country_db option \<Rightarrow> string \<Rightarrow> string option" where
  "country_to_iso3 pycountry name0 =
     (let name = py_strip name0
      in case map_of NAME_TO_ISO3 name of
           Some code \<Rightarrow> Some code
         | None \<Rightarrow>
             (case pycountry of
                None \<Rightarrow> None
              | Some db \<Rightarrow>
                  (case db_get db name of
                     Some alpha_3 \<Rightarrow> Some alpha_3
                   | None \<Rightarrow>
                       (case db_search_fuzzy db name of
                          None \<Rightarrow> None
                        | Some [] \<Rightarrow> None
                        | Some (alpha_3 # _) \<Rightarrow> Some alpha_3))))"

subsection \<open>Locating the header row and the year columns\<close>

text \<open>
  \<^verbatim>\<open>
  header_row = None
  for i, row in df.iterrows():
      vals = [str(v).strip() for v in row if str(v).strip()]
      if any(v == "Country" for v in vals) or any(v.isdigit() and len(v) == 4 for v in vals):
          header_row = i
          break
  \<close>
\<close>

definition sipri_hit :: "cell list \<Rightarrow> bool" where
  "sipri_hit row =
     (let vals = filter (\<lambda>v. v \<noteq> []) (map (\<lambda>v. py_strip (py_str v)) row)
      in list_ex (\<lambda>v. v = ''Country'') vals \<or> list_ex (\<lambda>v. py_isdigit v \<and> length v = 4) vals)"

definition sipri_header_row :: "cell list list \<Rightarrow> nat option" where
  "sipri_header_row rows = first_index sipri_hit rows 0"

text \<open>
  \<^verbatim>\<open>
  year_cols = [c for c in df.columns if str(c).strip().isdigit() and len(str(c).strip()) == 4]
  year_cols_sorted = sorted(year_cols, key=lambda x: int(str(x).strip()), reverse=True)
  \<close>
  Python's \<^verbatim>\<open>sorted\<close> is stable, also with \<^verbatim>\<open>reverse=True\<close>; so is \<^const>\<open>sort_key\<close>.
\<close>

definition is_year_label :: "cell \<Rightarrow> bool" where
  "is_year_label c = (py_isdigit (py_strip (py_str c)) \<and> length (py_strip (py_str c)) = 4)"

definition year_key :: "cell \<Rightarrow> int" where
  "year_key c = int (nat_of_digits (py_strip (py_str c)))"

definition year_cols_sorted :: "cell list \<Rightarrow> cell list" where
  "year_cols_sorted columns = sort_key (\<lambda>c. - year_key c) (filter is_year_label columns)"

subsection \<open>The most recent value of a row\<close>

text \<open>
  A data row pairs each column label with the cell under it; \<^verbatim>\<open>row.get(yc, "")\<close> reads
  the cell of a label.
\<close>

type_synonym labelled_row = "(cell \<times> cell) list"

definition row_get :: "labelled_row \<Rightarrow> cell \<Rightarrow> cell" where
  "row_get row label = (case map_of row label of None \<Rightarrow> CStr [] | Some v \<Rightarrow> v)"

text \<open>
  The body of the loop over the year columns, lines 230-238, for one cell:
  \<^verbatim>\<open>
  raw = str(row.get(yc, "")).strip()
  if raw in ("xxx", "...", "", "nan", "NaN"):
      continue
  try:
      value = float(raw.replace(",", "")) * multiply_by
      ...
  except ValueError:
      continue
  \<close>
  \<^verbatim>\<open>float\<close> of a text raises nothing but \<^verbatim>\<open>ValueError\<close>, so no exception leaves the
  body. A text that \<^verbatim>\<open>float\<close> reads as an infinity or as NaN (for instance \<^verbatim>\<open>inf\<close> or
  \<^verbatim>\<open>NAN\<close>) gives that float as the value.
\<close>

definition sipri_value :: "real \<Rightarrow> cell \<Rightarrow> pyfloat option" where
  "sipri_value multiply_by c =
     (let raw = py_strip (py_str c)
      in if raw \<in> set [''xxx'', ''...'', '''', ''nan'', ''NaN''] then None
         else map_option (\<lambda>x. float_times x multiply_by) (py_float (remove_commas raw)))"

text \<open>
  \<^verbatim>\<open>
  value = None
  year = None
  for yc in year_cols_sorted:
      raw = ...
      try:
          value = float(raw.replace(",", "")) * multiply_by
          year = str(int(str(yc).strip()))
          break
      except ValueError:
          continue
  if value is None:
      continue
  \<close>
\<close>

fun latest_value :: "real \<Rightarrow> labelled_row \<Rightarrow> cell list \<Rightarrow> (pyfloat \<times> string) option" where
  "latest_value multiply_by row [] = None"
| "latest_value multiply_by row (yc # rest) =
     (case sipri_value multiply_by (row_get row yc) of
        None \<Rightarrow> latest_value multiply_by row rest
      | Some v \<Rightarrow> Some (v, str_int (year_key yc)))"

text \<open>The selection for one row: its year columns, most recent first, then the loop.\<close>

definition select_latest :: "real \<Rightarrow> labelled_row \<Rightarrow> (pyfloat \<times> string) option" where
  "select_latest multiply_by row = latest_value multiply_by row (year_cols_sorted (map fst row))"

subsection \<open>The row loop of \<^verbatim>\<open>parse_sheet\<close>\<close>

text \<open>
  \<open>parse_row\<close> is one pass through the body of the loop; the state is \<^verbatim>\<open>result\<close> and
  \<^verbatim>\<open>skipped\<close>.
  \<^verbatim>\<open>
  for _, row in df.iterrows():
      name = str(row[country_col]).strip()
      if not name or name.lower() in ("country", "nan", "notes", "region", "world"):
          continue
      if name.isupper() and len(name) > 3:
          continue
      iso3 = country_to_iso3(name)
      if not iso3:
          skipped.append(name)
          continue
      ...
      if value is None:
          continue
      result.setdefault(iso3, {})
      result[iso3][field_name]           = value
      result[iso3][field_name + "_year"] = year
  \<close>
\<close>

definition parse_row ::
  "country_db option \<Rightarrow> string \<Rightarrow> real \<Rightarrow> cell \<Rightarrow> cell list \<Rightarrow> labelled_row \<Rightarrow>
   source_map \<times> string list \<Rightarrow> source_map \<times> string list" where
  "parse_row pycountry field_name mult country_col ycs row st =
     (case st of (result, skipped) \<Rightarrow>
        (let name = py_strip (py_str (row_get row country_col))
         in if name = [] \<or> py_lower name \<in> set [''country'', ''nan'', ''notes'', ''region'', ''world'']
            then st
            else if py_isupper name \<and> length name > 3 then st
            else
              (case country_to_iso3 pycountry name of
                 None \<Rightarrow> (result, skipped @ [name])
               | Some iso3 \<Rightarrow>
                   if iso3 = [] then (result, skipped @ [name])
                   else
                     (case latest_value mult row ycs of
                        None \<Rightarrow> st
                      | Some (v, year) \<Rightarrow>
                          (AList.update iso3
                             (AList.update (field_name @ ''_year'') (JStr year)
                                (AList.update field_name (JNum v)
                                   (case map_of result iso3 of None \<Rightarrow> [] | Some items \<Rightarrow> items)))
                             result,
                           skipped)))))"

fun parse_rows ::
  "country_db option \<Rightarrow> string \<Rightarrow> real \<Rightarrow> cell \<Rightarrow> cell list \<Rightarrow> labelled_row list \<Rightarrow>
   source_map \<times> string list \<Rightarrow> source_map \<times> string list" where
  "parse_rows pycountry field_name mult country_col ycs [] st = st"
| "parse_rows pycountry field_name mult country_col ycs (row # rows) st =
     parse_rows pycountry field_name mult country_col ycs rows
       (parse_row pycountry field_name mult country_col ycs row st)"

text \<open>
  \<^verbatim>\<open>parse_sheet\<close> from the decoded rows of the sheet on. The header row gives the column
  labels; the country column is the first label that reads \<^verbatim>\<open>country\<close>, else the first
  column; without a header row or year columns the result is empty.
\<close>

definition parse_sheet ::
  "country_db option \<Rightarrow> cell list list \<Rightarrow> string \<Rightarrow> real \<Rightarrow> source_map \<times> string list" where
  "parse_sheet pycountry rows field_name mult =
     (case sipri_header_row rows of
        None \<Rightarrow> ([], [])
      | Some header_row \<Rightarrow>
          (let columns = rows ! header_row;
               data = drop (header_row + 1) rows;
               country_col =
                 (case find (\<lambda>c. py_lower (py_strip (py_str c)) = ''country'') columns of
                    None \<Rightarrow> hd columns
                  | Some c \<Rightarrow> if py_truthy c then c else hd columns)
           in if filter is_year_label columns = [] then ([], [])
              else parse_rows pycountry field_name mult country_col (year_cols_sorted columns)
                     (map (zip columns) data) ([], [])))"

section \<open>Other readers\<close>

text \<open>
  \<^verbatim>\<open>fetch_owid.py\<close>, \<^verbatim>\<open>extract_latest\<close>, lines 167-174, the value of one row:
  \<^verbatim>\<open>
  val_raw = row.get(value_col, "")
  if not val_raw or str(val_raw).strip() in ("", "nan", "None"):
      continue
  try:
      val  = float(val_raw)
      ...
  except (ValueError, TypeError):
      continue
  \<close>
  The rows come from \<^verbatim>\<open>csv.DictReader\<close>, which gives every field as text, and \<^verbatim>\<open>None\<close>
  for a field missing at the end of a short line.
\<close>

definition owid_value :: "string option \<Rightarrow> pyfloat option" where
  "owid_value val_raw =
     (case val_raw of
        None \<Rightarrow> None
      | Some s \<Rightarrow>
          if s = [] \<or> py_strip s \<in> set ['''', ''nan'', ''None''] then None
          else py_float s)"

text \<open>
  \<^verbatim>\<open>fetch_imf_data.py\<close>, \<^verbatim>\<open>fetch_indicator\<close>, lines 67-76, for the year dictionary of
  one country:
  \<^verbatim>\<open>
  if not year_data:
      continue
  latest_year = max(year_data.keys())
  latest_val = year_data[latest_year]
  if latest_val is not None:
      result[country_code] = {"value": latest_val, "year": latest_year}
  \<close>
  The keys are strings, so \<^verbatim>\<open>max\<close> compares them as text.
\<close>

definition imf_latest :: "(string \<times> jval) list \<Rightarrow> (jval \<times> string) option" where
  "imf_latest year_data =
     (case year_data of
        [] \<Rightarrow> None
      | (y, _) # rest \<Rightarrow>
          (let latest_year = fold max (map fst rest) y
           in case map_of year_data latest_year of
                None \<Rightarrow> None
              | Some JNull \<Rightarrow> None
              | Some latest_val \<Rightarrow> Some (latest_val, latest_year)))"

text \<open>
  \<^verbatim>\<open>fetch_worldbank.py\<close>, \<^verbatim>\<open>main\<close>, lines 135-144. The results of \<^verbatim>\<open>fetch_indicator\<close> for
  one indicator map a country code to a value and a year; the inner loop stores them:
  \<^verbatim>\<open>
  for country_code, entry in results.items():
      if country_code not in country_data:
          country_data[country_code] = {}
      country_data[country_code][field_name]           = entry["value"]
      country_data[country_code][field_name + "_year"] = entry["year"]
  \<close>
  and the outer loop runs over the indicators, each with its field name.
\<close>

text \<open>The field names of \<^verbatim>\<open>INDICATORS\<close>, in source order.\<close>

definition WB_FIELD_NAMES :: "string list" where
  "WB_FIELD_NAMES =
     [''gdp'', ''gdpPerCap'', ''gdpPerCapPPP'', ''gniPerCap'', ''gdpGrowth'', ''inflation'',
      ''unemployment'', ''tradeGDP'', ''fdi'', ''gini'', ''population'', ''popGrowth'',
      ''popDensity'', ''urbanPct'', ''fertilityRate'', ''lifeExp'', ''lifeExpFemale'',
      ''lifeExpMale'', ''infantMortality'', ''maternalMortality'', ''healthSpendGDP'',
      ''physicians'', ''undernourishment'', ''literacyRate'', ''primaryEnrollment'',
      ''secondaryEnrollment'', ''tertiaryEnrollment'', ''educationSpendGDP'', ''forestArea'',
      ''renewableEnergy'', ''accessElectricity'', ''freshwaterPerCap'', ''internetUsers'',
      ''mobileSubscriptions'', ''povertyRate'', ''povertyRatio550'']"

fun wb_store :: "string \<Rightarrow> (string \<times> jval \<times> jval) list \<Rightarrow> source_map \<Rightarrow> source_map" where
  "wb_store field_name [] country_data = country_data"
| "wb_store field_name ((country_code, v, year) # rest) country_data =
     wb_store field_name rest
       (AList.update country_code
          (AList.update (field_name @ ''_year'') year
             (AList.update field_name v
                (case map_of country_data country_code of None \<Rightarrow> [] | Some items \<Rightarrow> items)))
          country_data)"

fun wb_indicators ::
  "(string \<times> (string \<times> jval \<times> jval) list) list \<Rightarrow> source_map \<Rightarrow> source_map" where
  "wb_indicators [] country_data = country_data"
| "wb_indicators ((field_name, results) # rest) country_data =
     wb_indicators rest (wb_store field_name results country_data)"

section \<open>The specification's reading of the selectors\<close>

text \<open>
  Section 4.3 of the specification, step 1: scan at most the first 25 rows; a row qualifies
  if the sentinel keyword occurs, ignoring case, in the concatenation of its non-empty cells,
  or if a majority of its cells are four-digit numeric tokens.
\<close>

definition spec_qualifies :: "string \<Rightarrow> cell list \<Rightarrow> bool" where
  "spec_qualifies sentinel row =
     (sublist (py_lower sentinel) (py_lower (concat (map py_str (filter py_truthy row))))
      \<or> length row < 2 * length (filter is_year_label row))"

definition spec_locate :: "string \<Rightarrow> cell list list \<Rightarrow> nat option" where
  "spec_locate sentinel rows = first_index (spec_qualifies sentinel) (take 25 rows) 0"

text \<open>
  Section 4.4 of the specification, years as columns: sort the candidate years descending
  by number; in that order, normalize the value of each year; return the first that is a
  valid number and whose year is at most the cutoff; if none qualifies, return nothing.
\<close>

definition spec_select_latest :: "int \<Rightarrow> real \<Rightarrow> labelled_row \<Rightarrow> (pyfloat \<times> string) option" where
  "spec_select_latest cutoff_year multiply_by row =
     (case find (\<lambda>yc. sipri_value multiply_by (row_get row yc) \<noteq> None \<and> year_key yc \<le> cutoff_year)
             (year_cols_sorted (map fst row)) of
        None \<Rightarrow> None
      | Some yc \<Rightarrow> Some (the (sipri_value multiply_by (row_get row yc)), str_int (year_key yc)))"

section \<open>Predicates on extracted maps\<close>

text \<open>The field names a column specification can write: all but the two reserved markers.\<close>

definition data_fields :: "column_map \<Rightarrow> string set" where
  "data_fields column_map = snd ` set column_map - {''_ISO3_'', ''_YEAR_''}"

text \<open>No field name of the set is the year key of another one.\<close>

definition year_free :: "string set \<Rightarrow> bool" where
  "year_free F = (\<forall>f \<in> F. \<forall>g \<in> F. g \<noteq> f @ ''_year'')"

text \<open>
  In the dictionary of one country, every field of the set has its key exactly when it has
  its year key, and there are no other keys.
\<close>

definition paired :: "string set \<Rightarrow> field_items \<Rightarrow> bool" where
  "paired F items =
     ((\<forall>f \<in> F. (map_of items f \<noteq> None) = (map_of items (f @ ''_year'') \<noteq> None))
      \<and> (\<forall>k \<in> fst ` set items. \<exists>f \<in> F. k = f \<or> k = f @ ''_year''))"

definition all_paired :: "string set \<Rightarrow> source_map \<Rightarrow> bool" where
  "all_paired F result = (\<forall>e items. map_of result e = Some items \<longrightarrow> paired F items)"

section \<open>Rows that compete for a country\<close>

text \<open>The number of the year of a row, when its conversion raises nothing.\<close>

definition row_year_int :: "nat option \<Rightarrow> cell list \<Rightarrow> int option" where
  "row_year_int yc row = (case row_year yc row of Inl e \<Rightarrow> None | Inr (yr_int, year) \<Rightarrow> Some yr_int)"

text \<open>A row of the given country with the given year, which is not beyond 2025.\<close>

definition counted :: "nat \<Rightarrow> nat option \<Rightarrow> string \<Rightarrow> cell list \<Rightarrow> int \<Rightarrow> bool" where
  "counted ic yc e row y = (row_iso3 ic row = Some e \<and> row_year_int yc row = Some y \<and> y \<le> 2025)"

text \<open>
  Section 4.4 of the specification, a single year column: among the rows of the country
  whose year is at most the cutoff, the row with the highest year; of several rows with that
  year, the first in source order.
\<close>

definition spec_latest_row ::
  "int \<Rightarrow> nat \<Rightarrow> nat option \<Rightarrow> string \<Rightarrow> cell list list \<Rightarrow> cell list option" where
  "spec_latest_row cutoff_year ic yc e rows =
     (let cand = filter (\<lambda>row. row_iso3 ic row = Some e
                    \<and> (case row_year_int yc row of None \<Rightarrow> False | Some y \<Rightarrow> y \<le> cutoff_year)) rows
      in find (\<lambda>row. \<forall>other \<in> set cand. the (row_year_int yc other) \<le> the (row_year_int yc row)) cand)"

text \<open>
  A cell on which neither conversion of the row loop raises \<^verbatim>\<open>OverflowError\<close>: read as a
  year it is not infinite, and read as a value it is no integer too large for a float.
\<close>

definition calm :: "cell \<Rightarrow> bool" where
  "calm c = (py_float (py_str c) \<notin> {Some PosInf, Some NegInf} \<and> py_float_cell c \<noteq> Inl OverflowError)"

section \<open>A run of \<^verbatim>\<open>fet_UN_data.main\<close> and the final write\<close>

text \<open>
  \<^verbatim>\<open>
  def main():
      if not os.path.exists(UN_PATH):
          print(...)
          sys.exit(1)
      with open(UN_PATH) as f:
          un_data = json.load(f)
      total_merged = 0
      for spec in FILES:
          filepath = find_file(spec["keyword"])
          if not filepath:
              continue
          new_data = read_file(filepath, spec["sheet"], spec["columns"])
          for iso3, fields in new_data.items():
              ...
      os.makedirs(os.path.dirname(UN_PATH), exist_ok=True)
      with open(UN_PATH, "w") as f:
          json.dump(un_data, f, indent=2)
  \<close>
  The disk is the content of the store file, \<open>None\<close> when the file does not exist. What
  the run takes from outside is a record: \<open>decode\<close> is \<^verbatim>\<open>json.load\<close> (\<open>None\<close> when it
  raises); \<open>sources\<close> has, for every configured workbook that is found, the map
  \<^verbatim>\<open>read_file\<close> returns, or \<open>None\<close> when decoding or reading the workbook raises; \<open>encode\<close> gives
  the pieces of text \<^verbatim>\<open>json.dump\<close> writes, in order; \<open>write_fault\<close> is the number of the
  piece whose write fails with an I/O error, if any. None of these exceptions is caught in
  \<^verbatim>\<open>main\<close>.
\<close>

datatype outcome = Completed | Exit nat | Uncaught

record run_env =
  decode :: "string \<Rightarrow> store option"
  sources :: "source_map option list"
  encode :: "store \<Rightarrow> string list"
  write_fault :: "nat option"

fun merge_files :: "store \<Rightarrow> source_map option list \<Rightarrow> nat \<Rightarrow> (store \<times> nat) option" where
  "merge_files st [] n = Some (st, n)"
| "merge_files st (None # rest) n = None"
| "merge_files st (Some new_data # rest) n =
     (case merge_un st new_data n of (st', n') \<Rightarrow> merge_files st' rest n')"

text \<open>
  Lines 262-264. \<^verbatim>\<open>open(UN_PATH, "w")\<close> creates the file or empties it; the pieces are then
  written one after another; a failing write raises, and the file keeps what was written
  before.
\<close>

definition save :: "nat option \<Rightarrow> string list \<Rightarrow> string option \<Rightarrow> outcome \<times> string option" where
  "save fault pieces disk =
     (case fault of
        None \<Rightarrow> (Completed, Some (concat pieces))
      | Some k \<Rightarrow>
          if k < length pieces then (Uncaught, Some (concat (take k pieces)))
          else (Completed, Some (concat pieces)))"

definition main_un :: "run_env \<Rightarrow> string option \<Rightarrow> outcome \<times> string option" where
  "main_un env disk =
     (case disk of
        None \<Rightarrow> (Exit 1, disk)
      | Some text \<Rightarrow>
          (case decode env text of
             None \<Rightarrow> (Uncaught, disk)
           | Some un_data \<Rightarrow>
               (case merge_files un_data (sources env) 0 of
                  None \<Rightarrow> (Uncaught, disk)
                | Some (st, total_merged) \<Rightarrow> save (write_fault env) (encode env st) disk)))"

section \<open>Evaluation rules\<close>

text \<open>The defining equations used to evaluate the model on concrete inputs.\<close>

lemmas py_eval =
  py_lower_def py_upper_def lower_char_def upper_char_def py_isupper_def is_space_def py_strip_def
  is_digit_def py_isdigit_def remove_commas_def digit_val_def nat_of_digits_def digits_of.simps
  str_int_def is_float_space_def float_strip_def scale10_def float_exponent_def
  unsigned_float_def py_float_def float_of_int_def dbl_def dbl_limit_def sublist_code(3)

lemmas un_eval =
  row_str_def header_hit_def find_header_row_def map_columns_def row_iso3_def row_year_def
  read_row_def read_file_def pair_hit_def keyword_hit_def row_year_int_def

lemmas sipri_eval =
  sipri_hit_def sipri_header_row_def is_year_label_def year_key_def year_cols_sorted_def
  row_get_def sipri_value_def select_latest_def parse_row_def parse_sheet_def

lemma first_index_replicate_skip:
  "\<not> P x \<Longrightarrow> P y \<Longrightarrow> first_index P (replicate n x @ y # ys) k = Some (k + n)"
  by (induction n arbitrary: k) simp_all

lemma first_index_replicate_None:
  "\<not> P x \<Longrightarrow> first_index P (replicate n x) k = None"
  by (induction n arbitrary: k) simp_all


text \<open>
  \<^verbatim>\<open>float\<close> on sample texts, as Python evaluates them: plain and signed decimals, exponent
  notation, digit grouping, the spellings of infinity and NaN, overflow to infinity, and
  texts it rejects.
\<close>

lemma py_float_examples:
  "py_float ''1234.5'' = Some (Fin 1234.5)"
  "py_float '' -2.5 '' = Some (Fin (- 2.5))"
  "py_float ''+.5'' = Some (Fin 0.5)"
  "py_float ''5.'' = Some (Fin 5)"
  "py_float ''1e-05'' = Some (Fin (1 / 100000))"
  "py_float ''1.5E+3'' = Some (Fin 1500)"
  "py_float ''1_000'' = Some (Fin 1000)"
  "py_float ''inf'' = Some PosInf"
  "py_float ''-Infinity'' = Some NegInf"
  "py_float ''NAN'' = Some NaN"
  "py_float ''1e400'' = Some PosInf"
  "py_float ''1,234.5'' = None"
  "py_float ''1e'' = None"
  "py_float ''.'' = None"
  "py_float ''1__0'' = None"
  "py_float ''_1'' = None"
  "py_float ''0x10'' = None"
  "py_float ''1 2'' = None"
  "py_float [] = None"
  by (simp_all add: py_eval)

lemma py_float_cell_examples:
  "py_float_cell CNone = Inl TypeError"
  "py_float_cell (CInt 7) = Inr (Fin 7)"
  "py_float_cell (CInt (10 ^ 400)) = Inl OverflowError"
  "py_float_cell (CStr ''n/a'') = Inl ValueError"
  "py_float_cell (CStr ''5e-05'') = Inr (Fin (5 / 100000))"
  by (simp_all add: py_eval)

lemma row_year_examples:
  "row_year (Some 0) [CInt 2020] = Inr (2020, ''2020'')"
  "row_year (Some 0) [CStr ''2020.0''] = Inr (2020, ''2020'')"
  "row_year (Some 0) [CStr ''2.02e3''] = Inr (2020, ''2020'')"
  "row_year (Some 0) [CStr ''nan''] = Inr (0, ''2024'')"
  "row_year (Some 0) [CStr ''n/a''] = Inr (0, ''2024'')"
  "row_year (Some 0) [CNone] = Inr (0, ''2024'')"
  "row_year (Some 1) [CInt 2020] = Inr (0, ''2024'')"
  "row_year None [CInt 2020] = Inr (0, ''2024'')"
  "row_year (Some 0) [CStr ''inf''] = Inl OverflowError"
  "row_year (Some 0) [CStr ''1e400''] = Inl OverflowError"
  by (simp_all add: py_eval row_year_def)

section \<open>Properties of the fill-only merge\<close>

lemma merge_fields_keeps:
  "r f = Some v \<Longrightarrow> v \<noteq> JNull \<Longrightarrow> fst (merge_fields r items n) f = Some v"
proof (induction items arbitrary: r n)
  case Nil
  then show ?case by simp
next
  case (Cons a items)
  obtain g w where a: "a = (g, w)" by (cases a)
  show ?case
  proof (cases "get_is_None r g")
    case True
    with Cons.prems have "g \<noteq> f"
      by (cases v) (auto simp: get_is_None_def)
    with Cons True a show ?thesis by simp
  next
    case False
    with Cons a show ?thesis by simp
  qed
qed

lemma merge_un_keeps:
  "store_get st e f = Some v \<Longrightarrow> v \<noteq> JNull \<Longrightarrow> store_get (fst (merge_un st m n)) e f = Some v"
proof (induction m arbitrary: st n)
  case Nil
  then show ?case by simp
next
  case (Cons a m)
  obtain iso3 items where a: "a = (iso3, items)" by (cases a)
  define r where "r = (case st iso3 of None \<Rightarrow> Map.empty | Some r0 \<Rightarrow> r0)"
  obtain r' n' where mf: "merge_fields r items n = (r', n')" by (cases "merge_fields r items n")
  have step: "store_get (st(iso3 \<mapsto> r')) e f = Some v"
  proof (cases "iso3 = e")
    case True
    with Cons.prems(1) have "r f = Some v"
      by (auto simp: store_get_def r_def split: option.splits)
    then have "fst (merge_fields r items n) f = Some v"
      using Cons.prems(2) by (rule merge_fields_keeps)
    with mf True show ?thesis by (simp add: store_get_def)
  next
    case False
    with Cons.prems(1) show ?thesis by (simp add: store_get_def)
  qed
  have "store_get (fst (merge_un (st(iso3 \<mapsto> r')) m n')) e f = Some v"
    using step Cons.prems(2) by (rule Cons.IH)
  moreover have "merge_un st (a # m) n = merge_un (st(iso3 \<mapsto> r')) m n'"
    using a mf by (simp add: r_def)
  ultimately show ?case by simp
qed

lemma merge_all_keeps:
  "store_get st e f = Some v \<Longrightarrow> v \<noteq> JNull \<Longrightarrow> store_get (fst (merge_all st ms n)) e f = Some v"
proof (induction ms arbitrary: st n)
  case Nil
  then show ?case by simp
next
  case (Cons m ms)
  obtain st' n' where s: "merge_un st m n = (st', n')" by (cases "merge_un st m n")
  from merge_un_keeps [OF Cons.prems, of m n] s have "store_get st' e f = Some v" by simp
  from Cons.IH [OF this Cons.prems(2)] s show ?case by simp
qed

lemma opri_fields_keeps:
  "store_get st e f = Some v \<Longrightarrow> store_get (opri_fields st iso3 items) e f = Some v"
proof (induction items arbitrary: st)
  case Nil
  then show ?case by simp
next
  case (Cons a items)
  obtain k w where a: "a = (k, w)" by (cases a)
  define r where "r = (case st iso3 of None \<Rightarrow> Map.empty | Some r0 \<Rightarrow> r0)"
  show ?case
  proof (cases "r k = None")
    case True
    have "store_get (st(iso3 \<mapsto> r(k \<mapsto> w))) e f = Some v"
      using Cons.prems True by (auto simp: store_get_def r_def split: option.splits)
    then have "store_get (opri_fields (st(iso3 \<mapsto> r(k \<mapsto> w))) iso3 items) e f = Some v"
      by (rule Cons.IH)
    moreover have "opri_fields st iso3 (a # items) = opri_fields (st(iso3 \<mapsto> r(k \<mapsto> w))) iso3 items"
      using True a by (simp add: r_def Let_def)
    ultimately show ?thesis by simp
  next
    case False
    have "store_get (opri_fields st iso3 items) e f = Some v"
      using Cons.prems by (rule Cons.IH)
    moreover have "opri_fields st iso3 (a # items) = opri_fields st iso3 items"
      using False a by (auto simp: r_def Let_def)
    ultimately show ?thesis by simp
  qed
qed

lemma merge_opri_keeps:
  "store_get st e f = Some v \<Longrightarrow> store_get (merge_opri st m) e f = Some v"
proof (induction m arbitrary: st)
  case Nil
  then show ?case by simp
next
  case (Cons a m)
  obtain iso3 items where a: "a = (iso3, items)" by (cases a)
  from Cons.IH [OF opri_fields_keeps [OF Cons.prems]] a show ?case by simp
qed

text \<open>
  Claim C1. Under the fill-only policy a value that is in the store and is not \<^verbatim>\<open>None\<close>
  survives every later fill-only merge, whatever maps are merged afterwards and in whatever
  order; this includes an explicit zero. Equivalently, a merge changes the entry of a country
  and field only when that entry was absent before. The same holds for the key-membership
  variant used for the OPRI archive.
\<close>

theorem fill_only_never_overwrites:
  "(store_get st e f = Some v \<and> v \<noteq> JNull \<longrightarrow>
      store_get (fst (merge_all st ms n)) e f = Some v \<and> store_get (merge_opri st m) e f = Some v)
   \<and> (store_get (fst (merge_un st m n)) e f \<noteq> store_get st e f \<longrightarrow>
      store_get st e f = None \<or> store_get st e f = Some JNull)"
proof (intro conjI impI)
  assume h: "store_get st e f = Some v \<and> v \<noteq> JNull"
  then show "store_get (fst (merge_all st ms n)) e f = Some v"
    using merge_all_keeps by blast
  from h show "store_get (merge_opri st m) e f = Some v"
    using merge_opri_keeps by blast
next
  assume ch: "store_get (fst (merge_un st m n)) e f \<noteq> store_get st e f"
  show "store_get st e f = None \<or> store_get st e f = Some JNull"
  proof (cases "store_get st e f")
    case None
    then show ?thesis by simp
  next
    case (Some w)
    show ?thesis
    proof (cases "w = JNull")
      case True
      with Some show ?thesis by simp
    next
      case False
      from merge_un_keeps [OF Some False, of m n] ch Some show ?thesis by simp
    qed
  qed
qed

theorem fill_only_never_overwrites_witness:
  "store_get [''FRA'' \<mapsto> [''gdpGrowth'' \<mapsto> JNum (Fin 0)]] ''FRA'' ''gdpGrowth'' = Some (JNum (Fin 0))
   \<and> JNum (Fin 0) \<noteq> JNull
   \<and> store_get (fst (merge_all [''FRA'' \<mapsto> [''gdpGrowth'' \<mapsto> JNum (Fin 0)]]
        [[(''FRA'', [(''gdpGrowth'', JNum (Fin 2.5))])], [(''FRA'', [(''gdpGrowth'', JNum (Fin 7))])]] 0))
        ''FRA'' ''gdpGrowth'' = Some (JNum (Fin 0))
   \<and> store_get (merge_opri [''FRA'' \<mapsto> [''gdpGrowth'' \<mapsto> JNum (Fin 0)]] [(''FRA'', [(''gdpGrowth'', JNum (Fin 2.5))])])
        ''FRA'' ''gdpGrowth'' = Some (JNum (Fin 0))
   \<and> store_get (fst (merge_un [''FRA'' \<mapsto> [''gdpGrowth'' \<mapsto> JNum (Fin 0)]] [(''FRA'', [(''inflation'', JNum (Fin 2.5))])] 0))
        ''FRA'' ''inflation'' \<noteq> store_get [''FRA'' \<mapsto> [''gdpGrowth'' \<mapsto> JNum (Fin 0)]] ''FRA'' ''inflation''
   \<and> store_get [''FRA'' \<mapsto> [''gdpGrowth'' \<mapsto> JNum (Fin 0)]] ''FRA'' ''inflation'' = None"
proof -
  have h: "store_get [''FRA'' \<mapsto> [''gdpGrowth'' \<mapsto> JNum (Fin 0)]] ''FRA'' ''gdpGrowth'' = Some (JNum (Fin 0)) \<and> JNum (Fin 0) \<noteq> JNull"
    by (simp add: store_get_def)
  have ch: "store_get (fst (merge_un [''FRA'' \<mapsto> [''gdpGrowth'' \<mapsto> JNum (Fin 0)]] [(''FRA'', [(''inflation'', JNum (Fin 2.5))])] 0))
        ''FRA'' ''inflation'' \<noteq> store_get [''FRA'' \<mapsto> [''gdpGrowth'' \<mapsto> JNum (Fin 0)]] ''FRA'' ''inflation''"
    by (simp add: store_get_def get_is_None_def)
  have n: "store_get [''FRA'' \<mapsto> [''gdpGrowth'' \<mapsto> JNum (Fin 0)]] ''FRA'' ''inflation'' = None"
    by (simp add: store_get_def)
  from h ch n fill_only_never_overwrites [of "[''FRA'' \<mapsto> [''gdpGrowth'' \<mapsto> JNum (Fin 0)]]" "''FRA''" "''gdpGrowth''" "JNum (Fin 0)"
     "[[(''FRA'', [(''gdpGrowth'', JNum (Fin 2.5))])], [(''FRA'', [(''gdpGrowth'', JNum (Fin 7))])]]" 0
     "[(''FRA'', [(''gdpGrowth'', JNum (Fin 2.5))])]"]
  show ?thesis by blast
qed

section \<open>Properties of the header mapping\<close>

lemma first_index_Some_iff:
  "first_index P xs k = Some i \<longleftrightarrow>
     k \<le> i \<and> i - k < length xs \<and> P (xs ! (i - k)) \<and> (\<forall>j < i - k. \<not> P (xs ! j))"
proof (induction xs arbitrary: k)
  case Nil
  then show ?case by simp
next
  case (Cons x xs)
  show ?case
  proof (cases "P x")
    case True
    then show ?thesis by (cases "i - k") auto
  next
    case False
    have "first_index P (x # xs) k = Some i \<longleftrightarrow> first_index P xs (Suc k) = Some i"
      using False by simp
    also have "\<dots> \<longleftrightarrow> Suc k \<le> i \<and> i - Suc k < length xs \<and> P (xs ! (i - Suc k))
        \<and> (\<forall>j < i - Suc k. \<not> P (xs ! j))"
      by (rule Cons.IH)
    also have "\<dots> \<longleftrightarrow> k \<le> i \<and> i - k < length (x # xs) \<and> P ((x # xs) ! (i - k))
        \<and> (\<forall>j < i - k. \<not> P ((x # xs) ! j))"
    proof (cases "i - k")
      case 0
      then show ?thesis using False by auto
    next
      case (Suc d)
      then have ik: "i - Suc k = d" "Suc k \<le> i" "k \<le> i" by auto
      have "(\<forall>j < Suc d. \<not> P ((x # xs) ! j)) \<longleftrightarrow> (\<forall>j < d. \<not> P (xs ! j))"
        using False by (auto simp: less_Suc_eq_0_disj)
      then show ?thesis using Suc ik by simp
    qed
    finally show ?thesis .
  qed
qed

lemma first_index_None_iff:
  "first_index P xs k = None \<longleftrightarrow> (\<forall>x \<in> set xs. \<not> P x)"
  by (induction xs arbitrary: k) auto

lemma claim_pairs_iso3:
  "iso3_col (claim_pairs i s cm m) =
     (case iso3_col m of Some c \<Rightarrow> Some c
      | None \<Rightarrow> if pair_hit ''_ISO3_'' s cm then Some i else None)"
proof (induction cm arbitrary: m)
  case Nil
  then show ?case by (simp add: pair_hit_def split: option.split)
next
  case (Cons a cm)
  obtain k g where a: "a = (k, g)" by (cases a)
  show ?case unfolding a
    by (simp add: Cons.IH pair_hit_def split: option.split)
qed

lemma claim_pairs_year:
  "year_col (claim_pairs i s cm m) =
     (case year_col m of Some c \<Rightarrow> Some c
      | None \<Rightarrow> if pair_hit ''_YEAR_'' s cm then Some i else None)"
proof (induction cm arbitrary: m)
  case Nil
  then show ?case by (simp add: pair_hit_def split: option.split)
next
  case (Cons a cm)
  obtain k g where a: "a = (k, g)" by (cases a)
  show ?case unfolding a
    by (simp add: Cons.IH pair_hit_def split: option.split)
qed

lemma map_of_snoc:
  "map_of (xs @ [(g, i)]) f = (case map_of xs f of Some c \<Rightarrow> Some c | None \<Rightarrow> if g = f then Some i else None)"
  by (induction xs) auto

lemma pair_hit_Cons:
  "pair_hit f s ((k, g) # cm) = ((g = f \<and> sublist (py_lower k) (py_lower s)) \<or> pair_hit f s cm)"
  by (simp add: pair_hit_def)

lemma claim_pairs_field:
  "f \<noteq> ''_ISO3_'' \<Longrightarrow> f \<noteq> ''_YEAR_'' \<Longrightarrow>
   map_of (field_cols (claim_pairs i s cm m)) f =
     (case map_of (field_cols m) f of Some c \<Rightarrow> Some c
      | None \<Rightarrow> if pair_hit f s cm then Some i else None)"
proof (induction cm arbitrary: m)
  case Nil
  then show ?case by (simp add: pair_hit_def split: option.split)
next
  case (Cons a cm)
  obtain k g where a: "a = (k, g)" by (cases a)
  note IH = Cons.IH [OF Cons.prems]
  show ?case
  proof (cases "sublist (py_lower k) (py_lower s)")
    case False
    then show ?thesis unfolding a by (simp add: IH pair_hit_Cons)
  next
    case hit: True
    show ?thesis
    proof (cases "g = ''_ISO3_''")
      case True
      with hit Cons.prems show ?thesis unfolding a by (simp add: IH pair_hit_Cons)
    next
      case not_iso: False
      show ?thesis
      proof (cases "g = ''_YEAR_''")
        case True
        with hit Cons.prems show ?thesis unfolding a by (simp add: IH pair_hit_Cons)
      next
        case not_year: False
        show ?thesis
        proof (cases "g = f")
          case True
          with hit not_iso not_year show ?thesis unfolding a
            by (simp add: IH pair_hit_Cons map_of_snoc del: map_of_append split: option.split)
        next
          case False
          with hit not_iso not_year show ?thesis unfolding a
            by (simp add: IH pair_hit_Cons map_of_snoc del: map_of_append split: option.split)
        qed
      qed
    qed
  qed
qed

lemma claim_pairs_distinct:
  "distinct (map fst (field_cols m)) \<Longrightarrow> distinct (map fst (field_cols (claim_pairs i s cm m)))"
proof (induction cm arbitrary: m)
  case Nil
  then show ?case by simp
next
  case (Cons a cm)
  obtain k g where a: "a = (k, g)" by (cases a)
  have "distinct (map fst (field_cols m @ [(g, i)]))" if "map_of (field_cols m) g = None"
    using that Cons.prems by (simp add: map_of_eq_None_iff)
  then show ?case unfolding a using Cons.prems
    by (simp add: Cons.IH)
qed

lemma map_cells_iso3:
  "iso3_col (map_cells i cells cm m) =
     (case iso3_col m of Some c \<Rightarrow> Some c
      | None \<Rightarrow> first_index (keyword_hit cm ''_ISO3_'') cells i)"
  by (induction cells arbitrary: i m) (simp_all add: claim_pairs_iso3 keyword_hit_def split: option.split)

lemma map_cells_year:
  "year_col (map_cells i cells cm m) =
     (case year_col m of Some c \<Rightarrow> Some c
      | None \<Rightarrow> first_index (keyword_hit cm ''_YEAR_'') cells i)"
  by (induction cells arbitrary: i m) (simp_all add: claim_pairs_year keyword_hit_def split: option.split)

lemma map_cells_field:
  "f \<noteq> ''_ISO3_'' \<Longrightarrow> f \<noteq> ''_YEAR_'' \<Longrightarrow>
   map_of (field_cols (map_cells i cells cm m)) f =
     (case map_of (field_cols m) f of Some c \<Rightarrow> Some c
      | None \<Rightarrow> first_index (keyword_hit cm f) cells i)"
  by (induction cells arbitrary: i m) (simp_all add: claim_pairs_field keyword_hit_def split: option.split)

lemma map_cells_distinct:
  "distinct (map fst (field_cols m)) \<Longrightarrow> distinct (map fst (field_cols (map_cells i cells cm m)))"
  by (induction cells arbitrary: i m) (simp_all add: claim_pairs_distinct)

text \<open>
  Claim C6. Header cells are visited from left to right; the country-code column, the year
  column and every field of the column specification are each assigned at most one column,
  namely the first cell (not \<^verbatim>\<open>None\<close>) whose stripped text contains, ignoring case, a
  keyword configured for that role. Later cells that match the same role are ignored, and
  since every role is decided on its own, one column may serve several roles. The field
  dictionary has no duplicate keys.
\<close>

theorem map_columns_first_match:
  "(iso3_col (map_columns header cm) = Some i \<longleftrightarrow>
      i < length header \<and> keyword_hit cm ''_ISO3_'' (header ! i)
      \<and> (\<forall>j < i. \<not> keyword_hit cm ''_ISO3_'' (header ! j)))
   \<and> (year_col (map_columns header cm) = Some i \<longleftrightarrow>
      i < length header \<and> keyword_hit cm ''_YEAR_'' (header ! i)
      \<and> (\<forall>j < i. \<not> keyword_hit cm ''_YEAR_'' (header ! j)))
   \<and> (f \<noteq> ''_ISO3_'' \<and> f \<noteq> ''_YEAR_'' \<longrightarrow>
      (map_of (field_cols (map_columns header cm)) f = Some i \<longleftrightarrow>
        i < length header \<and> keyword_hit cm f (header ! i)
        \<and> (\<forall>j < i. \<not> keyword_hit cm f (header ! j))))
   \<and> distinct (map fst (field_cols (map_columns header cm)))"
proof (intro conjI impI)
  show "iso3_col (map_columns header cm) = Some i \<longleftrightarrow>
      i < length header \<and> keyword_hit cm ''_ISO3_'' (header ! i)
      \<and> (\<forall>j < i. \<not> keyword_hit cm ''_ISO3_'' (header ! j))"
    by (simp add: map_columns_def map_cells_iso3 first_index_Some_iff)
  show "year_col (map_columns header cm) = Some i \<longleftrightarrow>
      i < length header \<and> keyword_hit cm ''_YEAR_'' (header ! i)
      \<and> (\<forall>j < i. \<not> keyword_hit cm ''_YEAR_'' (header ! j))"
    by (simp add: map_columns_def map_cells_year first_index_Some_iff)
  show "distinct (map fst (field_cols (map_columns header cm)))"
    by (simp add: map_columns_def map_cells_distinct)
next
  assume "f \<noteq> ''_ISO3_'' \<and> f \<noteq> ''_YEAR_''"
  then show "map_of (field_cols (map_columns header cm)) f = Some i \<longleftrightarrow>
        i < length header \<and> keyword_hit cm f (header ! i)
        \<and> (\<forall>j < i. \<not> keyword_hit cm f (header ! j))"
    by (simp add: map_columns_def map_cells_field first_index_Some_iff)
qed

text \<open>
  The header row \<^verbatim>\<open>["Country", "ISO3", "2020", "2021", "Dependency Ratio"]\<close> with the
  column specification of the population workbook: column 1 is the country-code column and
  column 4 is claimed for \<^verbatim>\<open>dependencyRatio\<close>.
\<close>

theorem map_columns_first_match_witness:
  "iso3_col (map_columns [CStr ''Country'', CStr ''ISO3'', CStr ''2020'', CStr ''2021'',
       CStr ''Dependency Ratio''] population_columns) = Some 1
   \<and> keyword_hit population_columns ''_ISO3_''
       ([CStr ''Country'', CStr ''ISO3'', CStr ''2020'', CStr ''2021'', CStr ''Dependency Ratio''] ! 1)
   \<and> ''dependencyRatio'' \<noteq> ''_ISO3_'' \<and> ''dependencyRatio'' \<noteq> ''_YEAR_''
   \<and> map_of (field_cols (map_columns [CStr ''Country'', CStr ''ISO3'', CStr ''2020'', CStr ''2021'',
       CStr ''Dependency Ratio''] population_columns)) ''dependencyRatio'' = Some 4
   \<and> keyword_hit population_columns ''dependencyRatio''
       ([CStr ''Country'', CStr ''ISO3'', CStr ''2020'', CStr ''2021'', CStr ''Dependency Ratio''] ! 4)"
proof -
  let ?h = "[CStr ''Country'', CStr ''ISO3'', CStr ''2020'', CStr ''2021'', CStr ''Dependency Ratio'']"
  have ev: "map_columns ?h population_columns
      = \<lparr>iso3_col = Some 1, year_col = None, field_cols = [(''dependencyRatio'', 4)]\<rparr>"
    by code_simp
  have i: "iso3_col (map_columns ?h population_columns) = Some 1"
    and d: "map_of (field_cols (map_columns ?h population_columns)) ''dependencyRatio'' = Some 4"
    by (simp_all add: ev)
  have ne: "''dependencyRatio'' \<noteq> ''_ISO3_'' \<and> ''dependencyRatio'' \<noteq> ''_YEAR_''" by simp
  from map_columns_first_match [of ?h population_columns 1 "''dependencyRatio''"] i
  have k1: "keyword_hit population_columns ''_ISO3_'' (?h ! 1)" by blast
  from map_columns_first_match [of ?h population_columns 4 "''dependencyRatio''"] d ne
  have k4: "keyword_hit population_columns ''dependencyRatio'' (?h ! 4)" by blast
  from i d ne k1 k4 show ?thesis by blast
qed

lemma map_columns_shared_column:
  "map_columns [CStr ''Total births, 15-19''] births_columns
   = \<lparr>iso3_col = None, year_col = None,
      field_cols = [(''totalBirths'', 0), (''birthsAge15to19'', 0)]\<rparr>"
  by code_simp

section \<open>Properties of the header search\<close>

lemma py_lower_ISO3: "py_lower ''ISO3'' = ''iso3''"
  by (simp add: py_lower_def lower_char_def)

lemma header_hit_iff: "header_hit row \<longleftrightarrow> sublist ''iso3'' (py_lower (row_str row))"
proof -
  have "sublist ''iso3'' (py_lower (row_str row))" if "sublist ''ISO3'' (row_str row)"
  proof -
    from that have "sublist (map lower_char ''ISO3'') (map lower_char (row_str row))"
      by (rule map_mono_sublist)
    then show ?thesis using py_lower_ISO3 by (simp add: py_lower_def)
  qed
  then show ?thesis by (auto simp: header_hit_def)
qed

lemma sipri_hit_iff:
  "sipri_hit row \<longleftrightarrow>
     (\<exists>c \<in> set row. py_strip (py_str c) = ''Country'' \<or> is_year_label c)"
proof
  assume "sipri_hit row"
  then show "\<exists>c \<in> set row. py_strip (py_str c) = ''Country'' \<or> is_year_label c"
    by (auto simp: sipri_hit_def list_ex_iff is_year_label_def)
next
  assume "\<exists>c \<in> set row. py_strip (py_str c) = ''Country'' \<or> is_year_label c"
  then obtain c where c: "c \<in> set row"
    and d: "py_strip (py_str c) = ''Country'' \<or> is_year_label c" by blast
  from d have ne: "py_strip (py_str c) \<noteq> []"
    by (auto simp: is_year_label_def py_isdigit_def)
  with c have "py_strip (py_str c) \<in> set (filter (\<lambda>v. v \<noteq> []) (map (\<lambda>v. py_strip (py_str v)) row))"
    by simp
  with d show "sipri_hit row"
    unfolding sipri_hit_def Let_def list_ex_iff is_year_label_def by blast
qed

lemma first_index_take_Some_iff:
  "first_index P (take n xs) 0 = Some i \<longleftrightarrow>
     i < n \<and> i < length xs \<and> P (xs ! i) \<and> (\<forall>j < i. \<not> P (xs ! j))"
  by (auto simp: first_index_Some_iff)

lemma first_index_None_nth:
  "first_index P xs k = None \<longleftrightarrow> (\<forall>j < length xs. \<not> P (xs ! j))"
  by (simp add: first_index_None_iff all_set_conv_all_nth)

text \<open>
  Claim C5, as the code has it. \<^verbatim>\<open>find_header_row\<close> looks at the first 25 rows only and
  returns the first row whose truthy cells, joined by single spaces, contain \<^verbatim>\<open>iso3\<close>
  ignoring case; without such a row it reports \<^verbatim>\<open>None\<close> and \<^verbatim>\<open>read_file\<close> returns the
  empty map. The SIPRI reader scans every row of the sheet and takes the first row in which
  some cell reads \<^verbatim>\<open>Country\<close> or some cell is a four-digit token; without such a row the
  sheet contributes nothing.
\<close>

theorem header_row_located:
  "(find_header_row rows = Some i \<longleftrightarrow>
      i < 25 \<and> i < length rows \<and> sublist ''iso3'' (py_lower (row_str (rows ! i)))
      \<and> (\<forall>j < i. \<not> sublist ''iso3'' (py_lower (row_str (rows ! j)))))
   \<and> (find_header_row rows = None \<longleftrightarrow>
      (\<forall>j. j < 25 \<and> j < length rows \<longrightarrow> \<not> sublist ''iso3'' (py_lower (row_str (rows ! j)))))
   \<and> (find_header_row rows = None \<longrightarrow> read_file rows cm = Inr [])
   \<and> (sipri_header_row rows = Some i \<longleftrightarrow>
      i < length rows
      \<and> (\<exists>c \<in> set (rows ! i). py_strip (py_str c) = ''Country'' \<or> is_year_label c)
      \<and> (\<forall>j < i. \<not> (\<exists>c \<in> set (rows ! j). py_strip (py_str c) = ''Country'' \<or> is_year_label c)))
   \<and> (sipri_header_row rows = None \<longleftrightarrow>
      (\<forall>j < length rows.
         \<not> (\<exists>c \<in> set (rows ! j). py_strip (py_str c) = ''Country'' \<or> is_year_label c)))
   \<and> (sipri_header_row rows = None \<longrightarrow> parse_sheet pyc rows field mult = ([], []))"
proof (intro conjI)
  show "find_header_row rows = Some i \<longleftrightarrow>
      i < 25 \<and> i < length rows \<and> sublist ''iso3'' (py_lower (row_str (rows ! i)))
      \<and> (\<forall>j < i. \<not> sublist ''iso3'' (py_lower (row_str (rows ! j))))"
    unfolding find_header_row_def first_index_take_Some_iff header_hit_iff ..
  show "find_header_row rows = None \<longleftrightarrow>
      (\<forall>j. j < 25 \<and> j < length rows \<longrightarrow> \<not> sublist ''iso3'' (py_lower (row_str (rows ! j))))"
    unfolding find_header_row_def first_index_None_nth header_hit_iff by auto
  show "find_header_row rows = None \<longrightarrow> read_file rows cm = Inr []"
    by (simp add: read_file_def)
  show "sipri_header_row rows = Some i \<longleftrightarrow>
      i < length rows
      \<and> (\<exists>c \<in> set (rows ! i). py_strip (py_str c) = ''Country'' \<or> is_year_label c)
      \<and> (\<forall>j < i. \<not> (\<exists>c \<in> set (rows ! j). py_strip (py_str c) = ''Country'' \<or> is_year_label c))"
    unfolding sipri_header_row_def first_index_Some_iff sipri_hit_iff by simp
  show "sipri_header_row rows = None \<longleftrightarrow>
      (\<forall>j < length rows.
         \<not> (\<exists>c \<in> set (rows ! j). py_strip (py_str c) = ''Country'' \<or> is_year_label c))"
    unfolding sipri_header_row_def first_index_None_nth sipri_hit_iff ..
  show "sipri_header_row rows = None \<longrightarrow> parse_sheet pyc rows field mult = ([], [])"
    by (simp add: parse_sheet_def)
qed

text \<open>
  The SIPRI reader does not ask for a majority of four-digit cells and has no bound of 25
  rows: one year among four cells makes a header row, and a header in row 26 is found.
\<close>

theorem header_majority_counterexample:
  "sipri_header_row [[CStr ''Source'', CStr ''SIPRI'', CStr ''compiled'', CInt 2024]] = Some 0
   \<and> spec_locate ''Country'' [[CStr ''Source'', CStr ''SIPRI'', CStr ''compiled'', CInt 2024]] = None
   \<and> sipri_header_row (replicate 25 [CStr ''note''] @ [[CStr ''Country'', CInt 1949, CInt 1950]])
       = Some 25
   \<and> spec_locate ''Country'' (replicate 25 [CStr ''note''] @ [[CStr ''Country'', CInt 1949, CInt 1950]])
       = None"
proof -
  have a: "sipri_header_row [[CStr ''Source'', CStr ''SIPRI'', CStr ''compiled'', CInt 2024]] = Some 0"
    by (simp add: py_eval sipri_eval)
  have b: "spec_locate ''Country'' [[CStr ''Source'', CStr ''SIPRI'', CStr ''compiled'', CInt 2024]] = None"
    by (simp add: py_eval sipri_eval spec_locate_def spec_qualifies_def)
  have n1: "\<not> sipri_hit [CStr ''note'']" by (simp add: py_eval sipri_eval)
  have h1: "sipri_hit [CStr ''Country'', CInt 1949, CInt 1950]" by (simp add: py_eval sipri_eval)
  have n2: "\<not> spec_qualifies ''Country'' [CStr ''note'']"
    by (simp add: py_eval sipri_eval spec_qualifies_def)
  have c: "sipri_header_row (replicate 25 [CStr ''note''] @ [[CStr ''Country'', CInt 1949, CInt 1950]])
      = Some 25"
    unfolding sipri_header_row_def using first_index_replicate_skip [of sipri_hit "[CStr ''note'']" "[CStr ''Country'', CInt 1949, CInt 1950]" 25 "[]" 0] n1 h1
    by simp
  have d: "spec_locate ''Country'' (replicate 25 [CStr ''note''] @ [[CStr ''Country'', CInt 1949, CInt 1950]])
      = None"
    unfolding spec_locate_def using first_index_replicate_None [of "spec_qualifies ''Country''" "[CStr ''note'']" 25 0] n2
    by simp
  from a b c d show ?thesis by blast
qed

theorem header_row_located_witness:
  "find_header_row [[CStr ''File GEN/01''], [CStr ''Index'', CStr ''ISO3 Alpha-code'', CStr ''Year'']] = Some 1
   \<and> sublist ''iso3'' (py_lower (row_str ([[CStr ''File GEN/01''], [CStr ''Index'', CStr ''ISO3 Alpha-code'', CStr ''Year'']] ! 1)))
   \<and> find_header_row [[CStr ''File GEN/01'']] = None
   \<and> read_file [[CStr ''File GEN/01'']] population_columns = Inr []
   \<and> sipri_header_row [[CStr ''Notes''], [CStr ''Country'', CInt 1949]] = Some 1
   \<and> sipri_header_row [[CStr ''Notes'']] = None
   \<and> parse_sheet None [[CStr ''Notes'']] ''milexPctGDP'' 100 = ([], [])"
proof -
  let ?r = "[[CStr ''File GEN/01''], [CStr ''Index'', CStr ''ISO3 Alpha-code'', CStr ''Year'']]"
  have a: "find_header_row ?r = Some 1" by (simp add: py_eval un_eval)
  have b: "find_header_row [[CStr ''File GEN/01'']] = None" by (simp add: py_eval un_eval)
  have c: "sipri_header_row [[CStr ''Notes''], [CStr ''Country'', CInt 1949]] = Some 1"
    by (simp add: py_eval sipri_eval)
  have d: "sipri_header_row [[CStr ''Notes'']] = None" by (simp add: py_eval sipri_eval)
  from header_row_located [of ?r 1] a
  have a': "sublist ''iso3'' (py_lower (row_str (?r ! 1)))" by blast
  from header_row_located [of "[[CStr ''File GEN/01'']]" 0 population_columns] b
  have b': "read_file [[CStr ''File GEN/01'']] population_columns = Inr []" by blast
  from header_row_located [of "[[CStr ''Notes'']]" 0 population_columns None "''milexPctGDP''" 100] d
  have d': "parse_sheet None [[CStr ''Notes'']] ''milexPctGDP'' 100 = ([], [])" by blast
  from a a' b b' c d d' show ?thesis by blast
qed

section \<open>Properties of the selection of the most recent value\<close>

lemma latest_value_find:
  "latest_value m row ycs =
     (case find (\<lambda>yc. sipri_value m (row_get row yc) \<noteq> None) ycs of
        None \<Rightarrow> None
      | Some yc \<Rightarrow> Some (the (sipri_value m (row_get row yc)), str_int (year_key yc)))"
  by (induction ycs) (auto split: option.splits)

lemma latest_value_None_iff:
  "latest_value m row ycs = None \<longleftrightarrow> (\<forall>yc \<in> set ycs. sipri_value m (row_get row yc) = None)"
  by (induction ycs) (auto split: option.splits)

lemma latest_value_Some_split:
  "latest_value m row ycs = Some (v, y) \<Longrightarrow>
   \<exists>pre yc post. ycs = pre @ yc # post
     \<and> (\<forall>c \<in> set pre. sipri_value m (row_get row c) = None)
     \<and> sipri_value m (row_get row yc) = Some v \<and> y = str_int (year_key yc)"
proof (induction ycs)
  case Nil
  then show ?case by simp
next
  case (Cons c ycs)
  show ?case
  proof (cases "sipri_value m (row_get row c)")
    case None
    with Cons.prems have "latest_value m row ycs = Some (v, y)" by simp
    from Cons.IH [OF this] obtain pre yc post where
      "ycs = pre @ yc # post" "\<forall>c \<in> set pre. sipri_value m (row_get row c) = None"
      "sipri_value m (row_get row yc) = Some v" "y = str_int (year_key yc)" by blast
    with None have "c # ycs = (c # pre) @ yc # post
      \<and> (\<forall>c \<in> set (c # pre). sipri_value m (row_get row c) = None)
      \<and> sipri_value m (row_get row yc) = Some v \<and> y = str_int (year_key yc)" by simp
    then show ?thesis by blast
  next
    case (Some w)
    with Cons.prems have "c # ycs = [] @ c # ycs
      \<and> (\<forall>c \<in> set []. sipri_value m (row_get row c) = None)
      \<and> sipri_value m (row_get row c) = Some v \<and> y = str_int (year_key c)" by simp
    then show ?thesis by blast
  qed
qed

lemma year_cols_sorted_set:
  "set (year_cols_sorted cols) = {c \<in> set cols. is_year_label c}"
  by (simp add: year_cols_sorted_def)

lemma year_cols_sorted_desc:
  "sorted (map (\<lambda>c. - year_key c) (year_cols_sorted cols))"
  by (simp add: year_cols_sorted_def)

lemma sorted_split_le:
  assumes "sorted (map f (pre @ x # post))" "c \<in> set (x # post)"
  shows "f x \<le> f c"
  using assms by (auto simp: sorted_append)

text \<open>
  Claim C3, as the code has it. For a row whose columns are years, \<^verbatim>\<open>parse_sheet\<close> visits
  the year columns in descending numeric order and returns the value and year of the first
  one whose cell normalizes to a value, that is, whose text is no placeholder and is
  accepted by \<^verbatim>\<open>float\<close> after its commas are removed; it returns nothing exactly when no
  year column has such a cell. The returned year is therefore the greatest among the year
  columns with a valid value. No cutoff year is applied: the result is the one the
  specification describes whenever every year column is at most the cutoff. The selection
  is the loop \<^verbatim>\<open>parse_sheet\<close> runs on a data row, which pairs the column labels with the
  cells of the row.
\<close>

theorem select_latest_most_recent_valid:
  "(select_latest m row = Some (v, y) \<longrightarrow>
      (\<exists>yc \<in> fst ` set row. is_year_label yc \<and> sipri_value m (row_get row yc) = Some v
         \<and> y = str_int (year_key yc)
         \<and> (\<forall>c \<in> fst ` set row. is_year_label c \<and> sipri_value m (row_get row c) \<noteq> None
               \<longrightarrow> year_key c \<le> year_key yc)))
   \<and> (select_latest m row = None \<longleftrightarrow>
      (\<forall>c \<in> fst ` set row. is_year_label c \<longrightarrow> sipri_value m (row_get row c) = None))
   \<and> ((\<forall>c \<in> fst ` set row. is_year_label c \<longrightarrow> year_key c \<le> cutoff_year) \<longrightarrow>
      select_latest m row = spec_select_latest cutoff_year m row)
   \<and> (length columns \<le> length cells \<longrightarrow>
      latest_value m (zip columns cells) (year_cols_sorted columns)
        = select_latest m (zip columns cells))"
proof (intro conjI impI)
  assume s: "select_latest m row = Some (v, y)"
  let ?ycs = "year_cols_sorted (map fst row)"
  from s have "latest_value m row ?ycs = Some (v, y)" by (simp add: select_latest_def)
  from latest_value_Some_split [OF this] obtain pre yc post where
    sp: "?ycs = pre @ yc # post" and pre: "\<forall>c \<in> set pre. sipri_value m (row_get row c) = None"
    and val: "sipri_value m (row_get row yc) = Some v" and y: "y = str_int (year_key yc)" by blast
  have mem: "set ?ycs = {c \<in> fst ` set row. is_year_label c}"
    by (simp add: year_cols_sorted_set)
  from sp have "yc \<in> set ?ycs" by simp
  with mem have yc: "yc \<in> fst ` set row" "is_year_label yc" by auto
  have srt: "sorted (map (\<lambda>c. - year_key c) (pre @ yc # post))"
    using year_cols_sorted_desc [of "map fst row"] sp by simp
  have best: "year_key c \<le> year_key yc"
    if c: "c \<in> fst ` set row" "is_year_label c" "sipri_value m (row_get row c) \<noteq> None" for c
  proof -
    from c mem have "c \<in> set ?ycs" by auto
    with sp have "c \<in> set pre \<or> c \<in> set (yc # post)" by auto
    with pre c(3) have "c \<in> set (yc # post)" by auto
    with srt have "- year_key yc \<le> - year_key c" by (rule sorted_split_le)
    then show ?thesis by simp
  qed
  from yc val y best
  show "\<exists>yc \<in> fst ` set row. is_year_label yc \<and> sipri_value m (row_get row yc) = Some v
         \<and> y = str_int (year_key yc)
         \<and> (\<forall>c \<in> fst ` set row. is_year_label c \<and> sipri_value m (row_get row c) \<noteq> None
               \<longrightarrow> year_key c \<le> year_key yc)"
    by blast
next
  show "select_latest m row = None \<longleftrightarrow>
      (\<forall>c \<in> fst ` set row. is_year_label c \<longrightarrow> sipri_value m (row_get row c) = None)"
    by (auto simp: select_latest_def latest_value_None_iff year_cols_sorted_set)
next
  assume le: "\<forall>c \<in> fst ` set row. is_year_label c \<longrightarrow> year_key c \<le> cutoff_year"
  let ?ycs = "year_cols_sorted (map fst row)"
  have "find (\<lambda>yc. sipri_value m (row_get row yc) \<noteq> None \<and> year_key yc \<le> cutoff_year) ?ycs
      = find (\<lambda>yc. sipri_value m (row_get row yc) \<noteq> None) ?ycs"
    by (rule find_cong) (use le in \<open>auto simp: year_cols_sorted_set\<close>)
  then show "select_latest m row = spec_select_latest cutoff_year m row"
    by (simp add: select_latest_def spec_select_latest_def latest_value_find)
next
  assume "length columns \<le> length cells"
  then have "map fst (zip columns cells) = columns"
    by (simp add: map_fst_zip_take)
  then show "latest_value m (zip columns cells) (year_cols_sorted columns)
      = select_latest m (zip columns cells)"
    by (simp add: select_latest_def)
qed

text \<open>
  The observations \<^verbatim>\<open>{"2019": 5, "2021": "...", "2020": 7}\<close> with cutoff 2025: the
  placeholder of 2021 is skipped and 2019 is not used. A small float under 2021, printed
  by Python as \<^verbatim>\<open>5e-05\<close>, is a valid value and is selected.
\<close>

theorem select_latest_most_recent_valid_witness:
  "select_latest 1 [(CStr ''2019'', CInt 5), (CStr ''2021'', CStr ''...''), (CStr ''2020'', CInt 7)]
     = Some (Fin 7, ''2020'')
   \<and> spec_select_latest 2025 1
       [(CStr ''2019'', CInt 5), (CStr ''2021'', CStr ''...''), (CStr ''2020'', CInt 7)]
     = Some (Fin 7, ''2020'')
   \<and> select_latest 1 [(CStr ''2021'', CStr ''...''), (CStr ''Notes'', CInt 3)] = None
   \<and> latest_value 1 (zip [CStr ''Country'', CInt 2020, CInt 2021] [CStr ''France'', CInt 7, CStr ''5e-05''])
       (year_cols_sorted [CStr ''Country'', CInt 2020, CInt 2021])
     = Some (Fin (5 / 100000), ''2021'')
   \<and> year_key (CInt 2020) \<le> year_key (CInt 2021)"
proof -
  let ?row = "[(CStr ''2019'', CInt 5), (CStr ''2021'', CStr ''...''), (CStr ''2020'', CInt 7)]"
  let ?none = "[(CStr ''2021'', CStr ''...''), (CStr ''Notes'', CInt 3)]"
  let ?cols = "[CStr ''Country'', CInt 2020, CInt 2021]"
  let ?cells = "[CStr ''France'', CInt 7, CStr ''5e-05'']"
  have a: "select_latest 1 ?row = Some (Fin 7, ''2020'')"
    by (simp add: py_eval sipri_eval)
  have le: "\<forall>c \<in> fst ` set ?row. is_year_label c \<longrightarrow> year_key c \<le> 2025"
    by (simp add: py_eval sipri_eval)
  have no: "\<forall>c \<in> fst ` set ?none. is_year_label c \<longrightarrow> sipri_value 1 (row_get ?none c) = None"
    by (simp add: py_eval sipri_eval)
  have d: "select_latest 1 (zip ?cols ?cells) = Some (Fin (5 / 100000), ''2021'')"
    by (simp add: py_eval sipri_eval)
  have m: "CInt 2020 \<in> fst ` set (zip ?cols ?cells) \<and> is_year_label (CInt 2020)
      \<and> sipri_value 1 (row_get (zip ?cols ?cells) (CInt 2020)) \<noteq> None"
    by (simp add: py_eval sipri_eval)
  have k: "str_int (year_key (CInt 2021)) = ''2021'' \<and> str_int (year_key (CInt 2020)) \<noteq> ''2021''
      \<and> (\<forall>c \<in> fst ` set (zip ?cols ?cells). is_year_label c \<longrightarrow> c = CInt 2020 \<or> c = CInt 2021)"
    by (simp add: py_eval sipri_eval)
  from select_latest_most_recent_valid [of 1 ?row "Fin 7" "''2020''" 2025] le
  have b: "select_latest 1 ?row = spec_select_latest 2025 1 ?row" by blast
  from select_latest_most_recent_valid [of 1 ?none "Fin 7" "''2020''" 2025] no
  have c: "select_latest 1 ?none = None" by blast
  from select_latest_most_recent_valid [of 1 "zip ?cols ?cells" "Fin (5 / 100000)" "''2021''" 2025 ?cols ?cells] d
  have e: "latest_value 1 (zip ?cols ?cells) (year_cols_sorted ?cols) = Some (Fin (5 / 100000), ''2021'')"
    and "\<exists>yc \<in> fst ` set (zip ?cols ?cells). is_year_label yc
         \<and> ''2021'' = str_int (year_key yc)
         \<and> (\<forall>c \<in> fst ` set (zip ?cols ?cells).
               is_year_label c \<and> sipri_value 1 (row_get (zip ?cols ?cells) c) \<noteq> None
               \<longrightarrow> year_key c \<le> year_key yc)"
    by simp_all blast
  then obtain yc where yc: "yc \<in> fst ` set (zip ?cols ?cells)" "is_year_label yc"
    "''2021'' = str_int (year_key yc)"
    "\<forall>c \<in> fst ` set (zip ?cols ?cells).
       is_year_label c \<and> sipri_value 1 (row_get (zip ?cols ?cells) c) \<noteq> None
       \<longrightarrow> year_key c \<le> year_key yc" by blast
  from yc(1,2,3) k have "yc = CInt 2021" by metis
  with yc(4) m have f: "year_key (CInt 2020) \<le> year_key (CInt 2021)" by blast
  from a b c e f show ?thesis by simp
qed

text \<open>
  A year column beyond the cutoff is used by \<^verbatim>\<open>parse_sheet\<close>; and \<^verbatim>\<open>fetch_indicator\<close> of
  \<^verbatim>\<open>fetch_imf_data.py\<close> takes the value of the greatest year key as it is, placeholder or
  not.
\<close>

theorem select_latest_cutoff_counterexample:
  "select_latest 1 [(CStr ''2030'', CInt 5), (CStr ''2020'', CInt 7)] = Some (Fin 5, ''2030'')
   \<and> spec_select_latest 2025 1 [(CStr ''2030'', CInt 5), (CStr ''2020'', CInt 7)] = Some (Fin 7, ''2020'')
   \<and> imf_latest [(''2019'', JNum (Fin 5)), (''2021'', JStr ''...''), (''2020'', JNum (Fin 7))] = Some (JStr ''...'', ''2021'')"
  by (simp add: py_eval sipri_eval spec_select_latest_def imf_latest_def)

section \<open>Properties of the value normalizers\<close>

text \<open>
  Claim C8, as the code has it. The normalizer of \<^verbatim>\<open>parse_sheet\<close> gives no value for
  \<^verbatim>\<open>None\<close>, for a missing cell and for the placeholders \<^verbatim>\<open>xxx\<close>, \<^verbatim>\<open>...\<close>, the empty
  string, \<^verbatim>\<open>nan\<close> and \<^verbatim>\<open>NaN\<close> (after stripping white space); every other text is parsed
  by \<^verbatim>\<open>float\<close> after its commas are removed, and multiplied by the factor of the sheet; a
  text that does not parse gives no value. The result is an option, so no failure escapes.
  With factor 1, \<^verbatim>\<open>1,234.5\<close> gives 1234.5; exponent notation and digit grouping with
  underscores parse, and a text such as \<^verbatim>\<open>inf\<close> or \<^verbatim>\<open>NAN\<close>, which is no placeholder, gives
  an infinite float or NaN as the value. The normalizer of \<^verbatim>\<open>extract_latest\<close> gives no
  value for \<^verbatim>\<open>None\<close>, the empty string, \<^verbatim>\<open>nan\<close> and \<^verbatim>\<open>None\<close>, and parses every other
  text as it is: commas are not removed there.
\<close>

theorem value_normalizer:
  "sipri_value m CNone = None
   \<and> sipri_value m (CStr []) = None
   \<and> (py_strip s \<in> set [''xxx'', ''...'', '''', ''nan'', ''NaN''] \<longrightarrow> sipri_value m (CStr s) = None)
   \<and> (py_strip s \<notin> set [''xxx'', ''...'', '''', ''nan'', ''NaN''] \<longrightarrow>
        sipri_value m (CStr s)
          = map_option (\<lambda>x. float_times x m) (py_float (remove_commas (py_strip s))))
   \<and> (py_float (remove_commas (py_strip s)) = None \<longrightarrow> sipri_value m (CStr s) = None)
   \<and> sipri_value 1 (CStr ''1,234.5'') = Some (Fin 1234.5)
   \<and> sipri_value 1 (CStr ''xxx'') = None
   \<and> sipri_value 1 (CStr ''5e-05'') = Some (Fin (5 / 100000))
   \<and> sipri_value 1 (CStr ''1_000'') = Some (Fin 1000)
   \<and> sipri_value 1 (CStr ''inf'') = Some PosInf
   \<and> sipri_value 1 (CStr ''NAN'') = Some NaN
   \<and> owid_value None = None
   \<and> owid_value (Some s) = (if py_strip s \<in> set ['''', ''nan'', ''None''] then None else py_float s)"
proof (intro conjI impI)
  show "sipri_value m CNone = None" by (simp add: py_eval sipri_eval)
  show "sipri_value m (CStr []) = None" by (simp add: py_eval sipri_eval)
  show "sipri_value 1 (CStr ''1,234.5'') = Some (Fin 1234.5)" by (simp add: py_eval sipri_eval)
  show "sipri_value 1 (CStr ''xxx'') = None" by (simp add: py_eval sipri_eval)
  show "sipri_value 1 (CStr ''5e-05'') = Some (Fin (5 / 100000))" by (simp add: py_eval sipri_eval)
  show "sipri_value 1 (CStr ''1_000'') = Some (Fin 1000)" by (simp add: py_eval sipri_eval)
  show "sipri_value 1 (CStr ''inf'') = Some PosInf" by (simp add: py_eval sipri_eval)
  show "sipri_value 1 (CStr ''NAN'') = Some NaN" by (simp add: py_eval sipri_eval)
  show "owid_value None = None" by (simp add: owid_value_def)
  show "owid_value (Some s) = (if py_strip s \<in> set ['''', ''nan'', ''None''] then None else py_float s)"
    by (cases "s = []") (auto simp: owid_value_def py_strip_def)
next
  assume "py_strip s \<in> set [''xxx'', ''...'', '''', ''nan'', ''NaN'']"
  then show "sipri_value m (CStr s) = None" by (simp add: sipri_value_def)
next
  assume "py_strip s \<notin> set [''xxx'', ''...'', '''', ''nan'', ''NaN'']"
  then show "sipri_value m (CStr s)
      = map_option (\<lambda>x. float_times x m) (py_float (remove_commas (py_strip s)))"
    by (simp add: sipri_value_def)
next
  assume "py_float (remove_commas (py_strip s)) = None"
  then show "sipri_value m (CStr s) = None" by (simp add: sipri_value_def Let_def)
qed

text \<open>
  In \<^verbatim>\<open>extract_latest\<close> a number written with a thousands separator is dropped, where the
  normalizer of \<^verbatim>\<open>parse_sheet\<close> reads it.
\<close>

theorem value_normalizer_counterexample:
  "owid_value (Some ''1,234.5'') = None
   \<and> sipri_value 1 (CStr ''1,234.5'') = Some (Fin 1234.5)"
  by (simp add: owid_value_def py_eval sipri_eval)

theorem value_normalizer_witness:
  "py_strip '' ... '' \<in> set [''xxx'', ''...'', '''', ''nan'', ''NaN'']
   \<and> sipri_value 100 (CStr '' ... '') = None
   \<and> py_strip '' 2.5 '' \<notin> set [''xxx'', ''...'', '''', ''nan'', ''NaN'']
   \<and> sipri_value 100 (CStr '' 2.5 '') = Some (Fin 250)
   \<and> py_float (remove_commas (py_strip ''n/a'')) = None
   \<and> sipri_value 100 (CStr ''n/a'') = None"
proof -
  have a: "py_strip '' ... '' \<in> set [''xxx'', ''...'', '''', ''nan'', ''NaN'']"
    by (simp add: py_eval)
  have b: "py_strip '' 2.5 '' \<notin> set [''xxx'', ''...'', '''', ''nan'', ''NaN'']"
    by (simp add: py_eval)
  have c: "py_float (remove_commas (py_strip ''n/a'')) = None"
    by (simp add: py_eval)
  have d: "map_option (\<lambda>x. float_times x 100) (py_float (remove_commas (py_strip '' 2.5 '')))
      = Some (Fin 250)"
    by (simp add: py_eval)
  from value_normalizer [of 100 "'' ... ''"] a
  have a': "sipri_value 100 (CStr '' ... '') = None" by blast
  from value_normalizer [of 100 "'' 2.5 ''"] b d
  have b': "sipri_value 100 (CStr '' 2.5 '') = Some (Fin 250)" by simp
  from value_normalizer [of 100 "''n/a''"] c
  have c': "sipri_value 100 (CStr ''n/a'') = None" by blast
  from a a' b b' c c' show ?thesis by blast
qed

section \<open>Properties of entity resolution\<close>

lemma country_to_iso3_None_iff:
  "country_to_iso3 pyc name = None \<longleftrightarrow>
     map_of NAME_TO_ISO3 (py_strip name) = None
     \<and> (pyc = None
        \<or> (\<exists>db. pyc = Some db \<and> db_get db (py_strip name) = None
             \<and> (db_search_fuzzy db (py_strip name) = None
                \<or> db_search_fuzzy db (py_strip name) = Some [])))"
  by (auto simp: country_to_iso3_def Let_def split: option.splits list.splits)

text \<open>
  Claim C7, as the code has it. Resolution is split between two readers. Where the source
  has a code column (\<^verbatim>\<open>read_file\<close>), a truthy cell whose stripped text has three characters
  is accepted directly, in upper case, with no lookup; any other cell makes the row be
  skipped. Where the source has country names (\<^verbatim>\<open>country_to_iso3\<close>), the stripped name is
  looked up in the override table first, then in the reference database by exact name, then
  by fuzzy search, whose first result is taken; the name is unresolved exactly when all of
  these fail or the database is not available, and \<^verbatim>\<open>parse_sheet\<close> then appends it to
  \<^verbatim>\<open>skipped\<close> and leaves the result as it is. No failure escapes either function.
\<close>

theorem entity_resolution:
  "(ic < length row \<and> py_truthy (row ! ic) \<and> length (py_strip (py_str (row ! ic))) = 3 \<longrightarrow>
      row_iso3 ic row = Some (py_upper (py_strip (py_str (row ! ic)))))
   \<and> (ic < length row \<and> length (py_strip (py_str (row ! ic))) \<noteq> 3 \<longrightarrow> row_iso3 ic row = None)
   \<and> (map_of NAME_TO_ISO3 (py_strip name) = Some code \<longrightarrow> country_to_iso3 pyc name = Some code)
   \<and> (map_of NAME_TO_ISO3 (py_strip name) = None \<and> db_get db (py_strip name) = Some a \<longrightarrow>
        country_to_iso3 (Some db) name = Some a)
   \<and> (map_of NAME_TO_ISO3 (py_strip name) = None \<and> db_get db (py_strip name) = None
        \<and> db_search_fuzzy db (py_strip name) = Some (a # others) \<longrightarrow>
        country_to_iso3 (Some db) name = Some a)
   \<and> (country_to_iso3 pyc name = None \<longleftrightarrow>
        map_of NAME_TO_ISO3 (py_strip name) = None
        \<and> (pyc = None
           \<or> (\<exists>db. pyc = Some db \<and> db_get db (py_strip name) = None
                \<and> (db_search_fuzzy db (py_strip name) = None
                   \<or> db_search_fuzzy db (py_strip name) = Some []))))
   \<and> (py_strip (py_str (row_get lrow country_col)) = name \<and> name \<noteq> []
        \<and> py_lower name \<notin> set [''country'', ''nan'', ''notes'', ''region'', ''world'']
        \<and> \<not> (py_isupper name \<and> length name > 3)
        \<and> country_to_iso3 pyc name = None \<longrightarrow>
        parse_row pyc field mult country_col ycs lrow (result, skipped) = (result, skipped @ [name]))"
proof (intro conjI impI)
  assume "ic < length row \<and> py_truthy (row ! ic) \<and> length (py_strip (py_str (row ! ic))) = 3"
  then show "row_iso3 ic row = Some (py_upper (py_strip (py_str (row ! ic))))"
    by (simp add: row_iso3_def)
next
  assume "ic < length row \<and> length (py_strip (py_str (row ! ic))) \<noteq> 3"
  then show "row_iso3 ic row = None" by (simp add: row_iso3_def)
next
  assume "map_of NAME_TO_ISO3 (py_strip name) = Some code"
  then show "country_to_iso3 pyc name = Some code" by (simp add: country_to_iso3_def)
next
  assume "map_of NAME_TO_ISO3 (py_strip name) = None \<and> db_get db (py_strip name) = Some a"
  then show "country_to_iso3 (Some db) name = Some a" by (simp add: country_to_iso3_def)
next
  assume "map_of NAME_TO_ISO3 (py_strip name) = None \<and> db_get db (py_strip name) = None
        \<and> db_search_fuzzy db (py_strip name) = Some (a # others)"
  then show "country_to_iso3 (Some db) name = Some a" by (simp add: country_to_iso3_def)
next
  show "country_to_iso3 pyc name = None \<longleftrightarrow>
        map_of NAME_TO_ISO3 (py_strip name) = None
        \<and> (pyc = None
           \<or> (\<exists>db. pyc = Some db \<and> db_get db (py_strip name) = None
                \<and> (db_search_fuzzy db (py_strip name) = None
                   \<or> db_search_fuzzy db (py_strip name) = Some [])))"
    by (rule country_to_iso3_None_iff)
next
  assume "py_strip (py_str (row_get lrow country_col)) = name \<and> name \<noteq> []
        \<and> py_lower name \<notin> set [''country'', ''nan'', ''notes'', ''region'', ''world'']
        \<and> \<not> (py_isupper name \<and> length name > 3)
        \<and> country_to_iso3 pyc name = None"
  then show "parse_row pyc field mult country_col ycs lrow (result, skipped) = (result, skipped @ [name])"
    by (simp add: parse_row_def Let_def)
qed

text \<open>
  \<^verbatim>\<open>country_to_iso3\<close> has no shortcut for three-letter tokens: without the reference
  database \<^verbatim>\<open>USA\<close> is unresolved. \<^verbatim>\<open>read_file\<close> has no override table, and it accepts
  three characters that are not letters.
\<close>

theorem entity_resolution_counterexample:
  "country_to_iso3 None ''USA'' = None \<and> row_iso3 0 [CStr ''Czechia''] = None
   \<and> row_iso3 0 [CStr ''123''] = Some ''123''"
  by (simp add: country_to_iso3_def NAME_TO_ISO3_def py_eval un_eval)

theorem entity_resolution_witness:
  "row_iso3 0 [CStr '' usa''] = Some ''USA''
   \<and> row_iso3 0 [CStr ''Czechia''] = None
   \<and> country_to_iso3 None '' Czechia '' = Some ''CZE''
   \<and> country_to_iso3 (Some \<lparr>db_get = map_of [(''France'', ''FRA'')], db_search_fuzzy = (\<lambda>n. None)\<rparr>)
        ''France'' = Some ''FRA''
   \<and> country_to_iso3
        (Some \<lparr>db_get = (\<lambda>n. None),
               db_search_fuzzy = (\<lambda>n. if n = ''Fra'' then Some [''FRA'', ''GUF''] else None)\<rparr>)
        ''Fra'' = Some ''FRA''
   \<and> country_to_iso3 (Some \<lparr>db_get = (\<lambda>n. None), db_search_fuzzy = (\<lambda>n. None)\<rparr>)
        ''Nonexistent Country'' = None
   \<and> parse_row (Some \<lparr>db_get = (\<lambda>n. None), db_search_fuzzy = (\<lambda>n. None)\<rparr>) ''milexPctGDP'' 100
        (CStr ''Country'') [CInt 2020]
        [(CStr ''Country'', CStr ''Nonexistent Country''), (CInt 2020, CStr ''1.5'')] ([], [])
      = ([], [''Nonexistent Country''])"
proof -
  let ?db0 = "\<lparr>db_get = (\<lambda>n. None), db_search_fuzzy = (\<lambda>n. None)\<rparr> :: country_db"
  let ?db1 = "\<lparr>db_get = map_of [(''France'', ''FRA'')], db_search_fuzzy = (\<lambda>n. None)\<rparr> :: country_db"
  let ?db2 = "\<lparr>db_get = (\<lambda>n. None),
      db_search_fuzzy = (\<lambda>n. if n = ''Fra'' then Some [''FRA'', ''GUF''] else None)\<rparr> :: country_db"
  let ?lrow = "[(CStr ''Country'', CStr ''Nonexistent Country''), (CInt 2020, CStr ''1.5'')]"
  have h1: "0 < length [CStr '' usa''] \<and> py_truthy ([CStr '' usa''] ! 0)
      \<and> length (py_strip (py_str ([CStr '' usa''] ! 0))) = 3"
    by (simp add: py_eval)
  have u: "py_upper (py_strip (py_str ([CStr '' usa''] ! 0))) = ''USA''"
    by (simp add: py_eval)
  have h2: "0 < length [CStr ''Czechia''] \<and> length (py_strip (py_str ([CStr ''Czechia''] ! 0))) \<noteq> 3"
    by (simp add: py_eval)
  have h3: "map_of NAME_TO_ISO3 (py_strip '' Czechia '') = Some ''CZE''"
    by (simp add: NAME_TO_ISO3_def py_eval)
  have h4: "map_of NAME_TO_ISO3 (py_strip ''France'') = None
      \<and> db_get ?db1 (py_strip ''France'') = Some ''FRA''"
    by (simp add: NAME_TO_ISO3_def py_eval)
  have h5: "map_of NAME_TO_ISO3 (py_strip ''Fra'') = None \<and> db_get ?db2 (py_strip ''Fra'') = None
      \<and> db_search_fuzzy ?db2 (py_strip ''Fra'') = Some [''FRA'', ''GUF'']"
    by (simp add: NAME_TO_ISO3_def py_eval)
  have h6: "map_of NAME_TO_ISO3 (py_strip ''Nonexistent Country'') = None
      \<and> db_get ?db0 (py_strip ''Nonexistent Country'') = None
      \<and> db_search_fuzzy ?db0 (py_strip ''Nonexistent Country'') = None"
    by (simp add: NAME_TO_ISO3_def py_eval)
  have h7: "py_strip (py_str (row_get ?lrow (CStr ''Country''))) = ''Nonexistent Country''
      \<and> ''Nonexistent Country'' \<noteq> []
      \<and> py_lower ''Nonexistent Country'' \<notin> set [''country'', ''nan'', ''notes'', ''region'', ''world'']
      \<and> \<not> (py_isupper ''Nonexistent Country'' \<and> length ''Nonexistent Country'' > 3)"
    by (simp add: py_eval sipri_eval)
  note t = entity_resolution
  from t [of 0 "[CStr '' usa'']"] h1 u have r1: "row_iso3 0 [CStr '' usa''] = Some ''USA''"
    by simp
  from t [of 0 "[CStr ''Czechia'']"] h2 have r2: "row_iso3 0 [CStr ''Czechia''] = None"
    by blast
  from t [of _ _ "'' Czechia ''" "''CZE''" None] h3
  have r3: "country_to_iso3 None '' Czechia '' = Some ''CZE''" by blast
  from t [of _ _ "''France''" _ _ ?db1 "''FRA''"] h4
  have r4: "country_to_iso3 (Some ?db1) ''France'' = Some ''FRA''" by blast
  from t [of _ _ "''Fra''" _ _ ?db2 "''FRA''" "[''GUF'']"] h5
  have r5: "country_to_iso3 (Some ?db2) ''Fra'' = Some ''FRA''" by blast
  from t [of _ _ "''Nonexistent Country''" _ "Some ?db0"] h6
  have r6: "country_to_iso3 (Some ?db0) ''Nonexistent Country'' = None" by blast
  from t [of _ _ "''Nonexistent Country''" _ "Some ?db0" _ _ _ ?lrow "CStr ''Country''"
      "''milexPctGDP''" 100 "[CInt 2020]" "[]" "[]"] h7 r6
  have r7: "parse_row (Some ?db0) ''milexPctGDP'' 100 (CStr ''Country'') [CInt 2020] ?lrow ([], [])
      = ([], [''Nonexistent Country''])" by simp
  from r1 r2 r3 r4 r5 r6 r7 show ?thesis by blast
qed

section \<open>Values and their years are written together\<close>

lemma paired_Nil: "paired F []"
  by (simp add: paired_def)

lemma paired_put:
  assumes "paired F items" "g \<in> F" "year_free F"
  shows "paired F (AList.update (g @ ''_year'') y (AList.update g v items))"
proof -
  have a: "f \<noteq> g @ ''_year''" "f @ ''_year'' \<noteq> g" if "f \<in> F" for f
    using that assms(2,3) by (auto simp: year_free_def)
  have "(map_of (AList.update (g @ ''_year'') y (AList.update g v items)) f \<noteq> None)
      = (map_of (AList.update (g @ ''_year'') y (AList.update g v items)) (f @ ''_year'') \<noteq> None)"
    if f: "f \<in> F" for f
  proof (cases "f = g")
    case True
    then show ?thesis by (simp add: update_conv')
  next
    case False
    with a [OF f] assms(1) f show ?thesis by (simp add: update_conv' paired_def)
  qed
  moreover have "\<exists>f \<in> F. k = f \<or> k = f @ ''_year''"
    if "k \<in> fst ` set (AList.update (g @ ''_year'') y (AList.update g v items))" for k
    using that assms(1,2) by (auto simp: dom_update paired_def)
  ultimately show ?thesis unfolding paired_def by blast
qed

lemma write_fields_step:
  "write_fields year row ((g, col) # fcs) items = Inr items' \<Longrightarrow>
   write_fields year row fcs items = Inr items'
   \<or> (\<exists>x. write_fields year row fcs
              (AList.update (g @ ''_year'') (JStr year) (AList.update g (JNum x) items)) = Inr items')"
proof (cases "col < length row \<and> row ! col \<noteq> CNone")
  case False
  assume "write_fields year row ((g, col) # fcs) items = Inr items'"
  with False show ?thesis by auto
next
  case ok: True
  assume w: "write_fields year row ((g, col) # fcs) items = Inr items'"
  show ?thesis
  proof (cases "py_float_cell (row ! col)")
    case (Inl err)
    with ok w show ?thesis by (cases "err \<in> {ValueError, TypeError}") simp_all
  next
    case (Inr x)
    with ok w show ?thesis by auto
  qed
qed

lemma write_fields_Inl: "write_fields year row fcs items = Inl err \<Longrightarrow> err = OverflowError"
proof (induction fcs arbitrary: items)
  case Nil
  then show ?case by simp
next
  case (Cons a fcs)
  obtain g col where a: "a = (g, col)" by (cases a)
  show ?case
  proof (cases "col < length row \<and> row ! col \<noteq> CNone")
    case False
    with Cons.prems a have "write_fields year row fcs items = Inl err" by auto
    then show ?thesis by (rule Cons.IH)
  next
    case ok: True
    show ?thesis
    proof (cases "py_float_cell (row ! col)")
      case (Inl e0)
      show ?thesis
      proof (cases "e0 \<in> {ValueError, TypeError}")
        case True
        with Inl ok Cons.prems a have "write_fields year row fcs items = Inl err" by simp
        then show ?thesis by (rule Cons.IH)
      next
        case False
        with Inl ok Cons.prems a have "err = e0" by simp
        with False show ?thesis by (cases e0) simp_all
      qed
    next
      case (Inr x)
      with ok Cons.prems a have "write_fields year row fcs
          (AList.update (g @ ''_year'') (JStr year) (AList.update g (JNum x) items)) = Inl err"
        by simp
      then show ?thesis by (rule Cons.IH)
    qed
  qed
qed

lemma write_fields_paired:
  "paired F items \<Longrightarrow> fst ` set fcs \<subseteq> F \<Longrightarrow> year_free F \<Longrightarrow>
   write_fields year row fcs items = Inr items' \<Longrightarrow> paired F items'"
proof (induction fcs arbitrary: items)
  case Nil
  then show ?case by simp
next
  case (Cons a fcs)
  obtain g col where a: "a = (g, col)" by (cases a)
  from Cons.prems a have g: "g \<in> F" and sub: "fst ` set fcs \<subseteq> F" by auto
  from Cons.prems(4) a have "write_fields year row ((g, col) # fcs) items = Inr items'" by simp
  from write_fields_step [OF this] show ?case
  proof
    assume "write_fields year row fcs items = Inr items'"
    with Cons.IH [OF Cons.prems(1) sub Cons.prems(3)] show ?thesis by simp
  next
    assume "\<exists>x. write_fields year row fcs
        (AList.update (g @ ''_year'') (JStr year) (AList.update g (JNum x) items)) = Inr items'"
    then obtain x where w: "write_fields year row fcs
        (AList.update (g @ ''_year'') (JStr year) (AList.update g (JNum x) items)) = Inr items'"
      by blast
    have "paired F (AList.update (g @ ''_year'') (JStr year) (AList.update g (JNum x) items))"
      using Cons.prems(1) g Cons.prems(3) by (rule paired_put)
    from Cons.IH [OF this sub Cons.prems(3) w] show ?thesis .
  qed
qed

lemma all_paired_update:
  "all_paired F result \<Longrightarrow> paired F items \<Longrightarrow> all_paired F (AList.update e items result)"
  by (simp add: all_paired_def update_conv')

lemma read_row_skip: "row_iso3 ic row = None \<Longrightarrow> read_row ic yc fcs row st = Inr st"
  by (cases st) (simp add: read_row_def)

lemma read_row_raise:
  "row_iso3 ic row = Some e \<Longrightarrow> row_year yc row = Inl err \<Longrightarrow> read_row ic yc fcs row st = Inl err"
  by (cases st) (simp add: read_row_def)

lemma read_row_eq:
  assumes "row_iso3 ic row = Some e" "row_year yc row = Inr (yr, year)"
  shows "read_row ic yc fcs row (result, best) =
     (if yr > 2025 \<or> (\<exists>b. best e = Some b \<and> yr < b) then Inr (result, best)
      else (case write_fields year row fcs
                   (case map_of result e of None \<Rightarrow> [] | Some items \<Rightarrow> items) of
              Inl err \<Rightarrow> Inl err
            | Inr items \<Rightarrow> Inr (AList.update e items result, best(e \<mapsto> yr))))"
proof (cases "best e")
  case None
  with assms show ?thesis by (simp add: read_row_def)
next
  case (Some b)
  with assms show ?thesis by (simp add: read_row_def)
qed

lemma row_year_Inl: "row_year yc row = Inl err \<Longrightarrow> err = OverflowError"
proof -
  assume h: "row_year yc row = Inl err"
  have c: "(case py_int x of Inl e \<Rightarrow> if e \<in> {ValueError, TypeError} then Inr (0, ''2024'') else Inl e
      | Inr yr_int \<Rightarrow> Inr (yr_int, str_int yr_int)) = Inl err \<Longrightarrow> err = OverflowError" for x
    by (cases x) (simp_all split: if_splits)
  from h show ?thesis
    unfolding row_year_def
    by (auto split: option.splits if_splits dest: c)
qed

lemma read_row_cases:
  assumes "read_row ic yc fcs row (result, best) = Inr st'"
  shows "st' = (result, best)
   \<or> (\<exists>e year y items.
         write_fields year row fcs (case map_of result e of None \<Rightarrow> [] | Some items \<Rightarrow> items)
           = Inr items
         \<and> st' = (AList.update e items result, best(e \<mapsto> y)))"
proof (cases "row_iso3 ic row")
  case None
  with assms show ?thesis by (simp add: read_row_skip)
next
  case (Some e)
  show ?thesis
  proof (cases "row_year yc row")
    case (Inl err)
    with Some assms show ?thesis by (simp add: read_row_raise)
  next
    case (Inr p)
    obtain yr year where p: "p = (yr, year)" by (cases p)
    note eq = read_row_eq [OF Some Inr [unfolded p], of fcs result best]
    show ?thesis
    proof (cases "yr > 2025 \<or> (\<exists>b. best e = Some b \<and> yr < b)")
      case True
      with eq assms show ?thesis by simp
    next
      case False
      show ?thesis
      proof (cases "write_fields year row fcs (case map_of result e of None \<Rightarrow> [] | Some items \<Rightarrow> items)")
        case (Inl err)
        with eq False assms show ?thesis by simp
      next
        case w: (Inr items)
        with eq False assms have "st' = (AList.update e items result, best(e \<mapsto> yr))" by simp
        with w show ?thesis by blast
      qed
    qed
  qed
qed

lemma read_row_Inl: "read_row ic yc fcs row st = Inl err \<Longrightarrow> err = OverflowError"
proof -
  assume h: "read_row ic yc fcs row st = Inl err"
  obtain result best where st: "st = (result, best)" by (cases st)
  show ?thesis
  proof (cases "row_iso3 ic row")
    case None
    with h show ?thesis by (simp add: read_row_skip)
  next
    case (Some e)
    show ?thesis
    proof (cases "row_year yc row")
      case (Inl e0)
      with Some h have "err = e0" by (simp add: read_row_raise)
      with Inl show ?thesis by (simp add: row_year_Inl)
    next
      case (Inr p)
      obtain yr year where p: "p = (yr, year)" by (cases p)
      note eq = read_row_eq [OF Some Inr [unfolded p], of fcs result best]
      show ?thesis
      proof (cases "yr > 2025 \<or> (\<exists>b. best e = Some b \<and> yr < b)")
        case True
        with eq h st show ?thesis by simp
      next
        case False
        show ?thesis
        proof (cases "write_fields year row fcs (case map_of result e of None \<Rightarrow> [] | Some items \<Rightarrow> items)")
          case (Inl e0)
          with eq False h st have "err = e0" by simp
          with Inl show ?thesis by (simp add: write_fields_Inl)
        next
          case (Inr items)
          with eq False h st show ?thesis by simp
        qed
      qed
    qed
  qed
qed

lemma read_rows_Cons_Inr:
  "read_rows ic yc fcs (row # rows) st = Inr st' \<longleftrightarrow>
   (\<exists>st1. read_row ic yc fcs row st = Inr st1 \<and> read_rows ic yc fcs rows st1 = Inr st')"
  by (cases "read_row ic yc fcs row st") simp_all

lemma read_rows_Inl: "read_rows ic yc fcs rows st = Inl err \<Longrightarrow> err = OverflowError"
proof (induction rows arbitrary: st)
  case Nil
  then show ?case by simp
next
  case (Cons row rows)
  show ?case
  proof (cases "read_row ic yc fcs row st")
    case (Inl e0)
    with Cons.prems have "err = e0" by simp
    with Inl show ?thesis by (simp add: read_row_Inl)
  next
    case (Inr st1)
    with Cons.prems have "read_rows ic yc fcs rows st1 = Inl err" by simp
    then show ?thesis by (rule Cons.IH)
  qed
qed

lemma read_row_paired:
  assumes "all_paired F (fst st)" "fst ` set fcs \<subseteq> F" "year_free F"
    and "read_row ic yc fcs row st = Inr st'"
  shows "all_paired F (fst st')"
proof -
  obtain result best where st: "st = (result, best)" by (cases st)
  from assms(4) st have "read_row ic yc fcs row (result, best) = Inr st'" by simp
  from read_row_cases [OF this] show ?thesis
  proof
    assume "st' = (result, best)"
    with assms(1) st show ?thesis by simp
  next
    assume "\<exists>e year y items.
         write_fields year row fcs (case map_of result e of None \<Rightarrow> [] | Some items \<Rightarrow> items)
           = Inr items
         \<and> st' = (AList.update e items result, best(e \<mapsto> y))"
    then obtain e year y items where
      w: "write_fields year row fcs (case map_of result e of None \<Rightarrow> [] | Some items \<Rightarrow> items)
           = Inr items"
      and s: "st' = (AList.update e items result, best(e \<mapsto> y))" by blast
    have "paired F (case map_of result e of None \<Rightarrow> [] | Some items \<Rightarrow> items)"
      using assms(1) st by (auto simp: all_paired_def paired_Nil split: option.splits)
    then have "paired F items" using assms(2,3) w by (rule write_fields_paired)
    with assms(1) st have "all_paired F (AList.update e items result)"
      by (simp add: all_paired_update)
    with s show ?thesis by simp
  qed
qed

lemma read_rows_paired:
  "all_paired F (fst st) \<Longrightarrow> fst ` set fcs \<subseteq> F \<Longrightarrow> year_free F \<Longrightarrow>
   read_rows ic yc fcs rows st = Inr st' \<Longrightarrow> all_paired F (fst st')"
proof (induction rows arbitrary: st)
  case Nil
  then show ?case by simp
next
  case (Cons row rows)
  from Cons.prems(4) obtain st1 where r: "read_row ic yc fcs row st = Inr st1"
    and rs: "read_rows ic yc fcs rows st1 = Inr st'"
    unfolding read_rows_Cons_Inr by blast
  have "all_paired F (fst st1)"
    using Cons.prems(1,2,3) r by (rule read_row_paired)
  from Cons.IH [OF this Cons.prems(2,3) rs] show ?case .
qed

lemma claim_pairs_fields_sub:
  "fst ` set (field_cols m) \<subseteq> data_fields cm0 \<Longrightarrow> set cm \<subseteq> set cm0 \<Longrightarrow>
   fst ` set (field_cols (claim_pairs i s cm m)) \<subseteq> data_fields cm0"
proof (induction cm arbitrary: m)
  case Nil
  then show ?case by simp
next
  case (Cons a cm)
  obtain k g where a: "a = (k, g)" by (cases a)
  from Cons.prems a have in0: "(k, g) \<in> set cm0" and sub: "set cm \<subseteq> set cm0" by auto
  have ext: "fst ` set (field_cols m @ [(g, i)]) \<subseteq> data_fields cm0"
    if "g \<noteq> ''_ISO3_''" "g \<noteq> ''_YEAR_''"
    using that in0 Cons.prems(1) by (force simp: data_fields_def)
  show ?case unfolding a
    using Cons.IH [OF _ sub] Cons.prems(1) ext by simp
qed

lemma map_cells_fields_sub:
  "fst ` set (field_cols m) \<subseteq> data_fields cm \<Longrightarrow>
   fst ` set (field_cols (map_cells i cells cm m)) \<subseteq> data_fields cm"
  by (induction cells arbitrary: i m) (simp_all add: claim_pairs_fields_sub)

lemma map_columns_fields_sub:
  "fst ` set (field_cols (map_columns header cm)) \<subseteq> data_fields cm"
  by (simp add: map_columns_def map_cells_fields_sub)

lemma read_file_cases:
  assumes "read_file rows cm = Inr m"
  shows "m = []
   \<or> (\<exists>h ic st'. find_header_row rows = Some h
         \<and> iso3_col (map_columns (rows ! h) cm) = Some ic
         \<and> read_rows ic (year_col (map_columns (rows ! h) cm))
              (field_cols (map_columns (rows ! h) cm)) (drop (h + 1) rows) ([], Map.empty) = Inr st'
         \<and> m = fst st')"
proof (cases "find_header_row rows")
  case None
  with assms show ?thesis by (simp add: read_file_def)
next
  case (Some h)
  show ?thesis
  proof (cases "iso3_col (map_columns (rows ! h) cm)")
    case None
    with Some assms show ?thesis by (simp add: read_file_def)
  next
    case ic: (Some ic)
    show ?thesis
    proof (cases "read_rows ic (year_col (map_columns (rows ! h) cm))
              (field_cols (map_columns (rows ! h) cm)) (drop (h + 1) rows) ([], Map.empty)")
      case (Inl err)
      with ic Some assms show ?thesis by (simp add: read_file_def Let_def)
    next
      case (Inr st')
      with ic Some assms have "m = fst st'" by (simp add: read_file_def Let_def)
      with ic Some Inr show ?thesis by blast
    qed
  qed
qed

lemma read_file_paired:
  assumes yf: "year_free (data_fields cm)" and rf: "read_file rows cm = Inr m"
  shows "all_paired (data_fields cm) m"
  using read_file_cases [OF rf]
proof
  assume "m = []"
  then show ?thesis by (simp add: all_paired_def)
next
  assume "\<exists>h ic st'. find_header_row rows = Some h
         \<and> iso3_col (map_columns (rows ! h) cm) = Some ic
         \<and> read_rows ic (year_col (map_columns (rows ! h) cm))
              (field_cols (map_columns (rows ! h) cm)) (drop (h + 1) rows) ([], Map.empty) = Inr st'
         \<and> m = fst st'"
  then obtain h ic st' where
    rr: "read_rows ic (year_col (map_columns (rows ! h) cm))
              (field_cols (map_columns (rows ! h) cm)) (drop (h + 1) rows) ([], Map.empty) = Inr st'"
    and m: "m = fst st'" by blast
  have e0: "all_paired (data_fields cm) (fst (([], Map.empty) :: read_state))"
    by (simp add: all_paired_def)
  have "all_paired (data_fields cm) (fst st')"
    using e0 map_columns_fields_sub yf rr by (rule read_rows_paired)
  with m show ?thesis by simp
qed

subsection \<open>Rows on which the row loop raises nothing\<close>

lemma row_year_calm:
  assumes "list_all calm row"
  shows "\<exists>p. row_year yc row = Inr p"
proof (cases yc)
  case None
  then show ?thesis by (simp add: row_year_def)
next
  case (Some y)
  show ?thesis
  proof (cases "y < length row \<and> row ! y \<noteq> CNone")
    case False
    with Some show ?thesis by (auto simp: row_year_def)
  next
    case True
    with assms have c: "calm (row ! y)" by (simp add: list_all_length)
    show ?thesis
    proof (cases "py_float (py_str (row ! y))")
      case None
      with True Some show ?thesis by (simp add: row_year_def)
    next
      case (Some x)
      with c have "x \<noteq> PosInf" "x \<noteq> NegInf" by (auto simp: calm_def)
      then have "(\<exists>n. py_int x = Inr n) \<or> py_int x = Inl ValueError" by (cases x) simp_all
      with True \<open>yc = Some y\<close> Some show ?thesis by (auto simp: row_year_def)
    qed
  qed
qed

lemma write_fields_calm:
  "list_all calm row \<Longrightarrow> \<exists>items'. write_fields year row fcs items = Inr items'"
proof (induction fcs arbitrary: items)
  case Nil
  then show ?case by simp
next
  case (Cons a fcs)
  obtain g col where a: "a = (g, col)" by (cases a)
  show ?case
  proof (cases "col < length row \<and> row ! col \<noteq> CNone")
    case False
    with Cons.IH [OF Cons.prems, of items] a show ?thesis by auto
  next
    case ok: True
    with Cons.prems have c: "py_float_cell (row ! col) \<noteq> Inl OverflowError"
      by (simp add: list_all_length calm_def)
    show ?thesis
    proof (cases "py_float_cell (row ! col)")
      case (Inl err)
      with c have "err \<in> {ValueError, TypeError}" by (cases err) simp_all
      with Inl ok Cons.IH [OF Cons.prems, of items] a show ?thesis by simp
    next
      case (Inr x)
      with ok Cons.IH [OF Cons.prems,
          of "AList.update (g @ ''_year'') (JStr year) (AList.update g (JNum x) items)"] a
      show ?thesis by simp
    qed
  qed
qed

lemma read_row_calm:
  assumes "list_all calm row"
  shows "\<exists>st'. read_row ic yc fcs row st = Inr st'"
proof -
  obtain result best where st: "st = (result, best)" by (cases st)
  show ?thesis
  proof (cases "row_iso3 ic row")
    case None
    then show ?thesis by (simp add: read_row_skip)
  next
    case (Some e)
    from row_year_calm [OF assms, of yc] obtain yr year where ry: "row_year yc row = Inr (yr, year)"
      by auto
    from write_fields_calm [OF assms, of year fcs
        "case map_of result e of None \<Rightarrow> [] | Some items \<Rightarrow> items"]
    obtain items' where "write_fields year row fcs
        (case map_of result e of None \<Rightarrow> [] | Some items \<Rightarrow> items) = Inr items'" by blast
    with read_row_eq [OF Some ry, of fcs result best] st show ?thesis by simp
  qed
qed

lemma read_rows_calm:
  "list_all (list_all calm) rows \<Longrightarrow> \<exists>st'. read_rows ic yc fcs rows st = Inr st'"
proof (induction rows arbitrary: st)
  case Nil
  then show ?case by simp
next
  case (Cons row rows)
  from Cons.prems have r: "list_all calm row" and rest: "list_all (list_all calm) rows" by simp_all
  from read_row_calm [OF r, of ic yc fcs st] obtain st1 where
    "read_row ic yc fcs row st = Inr st1" by blast
  with Cons.IH [OF rest, of st1] show ?case by simp
qed

lemma read_file_calm:
  assumes "list_all (list_all calm) rows"
  shows "\<exists>m. read_file rows cm = Inr m"
proof (cases "find_header_row rows")
  case None
  then show ?thesis by (simp add: read_file_def)
next
  case (Some h)
  show ?thesis
  proof (cases "iso3_col (map_columns (rows ! h) cm)")
    case None
    with Some show ?thesis by (simp add: read_file_def)
  next
    case ic: (Some ic)
    from assms have "list_all (list_all calm) (drop (h + 1) rows)"
      unfolding list_all_iff using in_set_dropD by fast
    from read_rows_calm [OF this, of ic "year_col (map_columns (rows ! h) cm)"
        "field_cols (map_columns (rows ! h) cm)" "([], Map.empty)"]
    obtain st' where "read_rows ic (year_col (map_columns (rows ! h) cm))
        (field_cols (map_columns (rows ! h) cm)) (drop (h + 1) rows) ([], Map.empty) = Inr st'"
      by blast
    with ic Some show ?thesis by (simp add: read_file_def Let_def)
  qed
qed

subsection \<open>The SIPRI reader and the World Bank loop\<close>

lemma year_free_single: "year_free {f}"
  by (simp add: year_free_def)

lemma parse_row_cases:
  "fst (parse_row pyc f mult cc ycs row (result, skipped)) = result
   \<or> (\<exists>iso3 v year. fst (parse_row pyc f mult cc ycs row (result, skipped)) =
         AList.update iso3
           (AList.update (f @ ''_year'') (JStr year)
              (AList.update f (JNum v)
                 (case map_of result iso3 of None \<Rightarrow> [] | Some items \<Rightarrow> items)))
           result)"
proof -
  let ?name = "py_strip (py_str (row_get row cc))"
  show ?thesis
  proof (cases "?name = [] \<or> py_lower ?name \<in> set [''country'', ''nan'', ''notes'', ''region'', ''world'']
      \<or> (py_isupper ?name \<and> length ?name > 3)")
    case True
    then show ?thesis by (auto simp: parse_row_def Let_def)
  next
    case keep: False
    show ?thesis
    proof (cases "country_to_iso3 pyc ?name")
      case None
      with keep show ?thesis by (auto simp: parse_row_def Let_def)
    next
      case (Some iso3)
      show ?thesis
      proof (cases "iso3 = [] \<or> latest_value mult row ycs = None")
        case True
        with keep Some show ?thesis by (auto simp: parse_row_def Let_def)
      next
        case False
        then obtain v year where "latest_value mult row ycs = Some (v, year)" by auto
        with keep Some False show ?thesis by (auto simp: parse_row_def Let_def)
      qed
    qed
  qed
qed

lemma parse_row_paired:
  assumes "all_paired {f} (fst st)"
  shows "all_paired {f} (fst (parse_row pyc f mult cc ycs row st))"
proof -
  obtain result skipped where st: "st = (result, skipped)" by (cases st)
  have w: "paired {f} (AList.update (f @ ''_year'') y (AList.update f v
      (case map_of result e of None \<Rightarrow> [] | Some items \<Rightarrow> items)))" for y v e
  proof -
    have "paired {f} (case map_of result e of None \<Rightarrow> [] | Some items \<Rightarrow> items)"
      using assms st by (auto simp: all_paired_def paired_Nil split: option.splits)
    then show ?thesis using year_free_single by (rule paired_put [OF _ singletonI])
  qed
  from parse_row_cases [of pyc f mult cc ycs row result skipped] show ?thesis
  proof
    assume "fst (parse_row pyc f mult cc ycs row (result, skipped)) = result"
    with assms st show ?thesis by simp
  next
    assume "\<exists>iso3 v year. fst (parse_row pyc f mult cc ycs row (result, skipped)) =
         AList.update iso3
           (AList.update (f @ ''_year'') (JStr year)
              (AList.update f (JNum v)
                 (case map_of result iso3 of None \<Rightarrow> [] | Some items \<Rightarrow> items)))
           result"
    then obtain iso3 v year where "fst (parse_row pyc f mult cc ycs row (result, skipped)) =
         AList.update iso3
           (AList.update (f @ ''_year'') (JStr year)
              (AList.update f (JNum v)
                 (case map_of result iso3 of None \<Rightarrow> [] | Some items \<Rightarrow> items)))
           result" by blast
    moreover have "all_paired {f} (AList.update iso3
           (AList.update (f @ ''_year'') (JStr year)
              (AList.update f (JNum v)
                 (case map_of result iso3 of None \<Rightarrow> [] | Some items \<Rightarrow> items)))
           result)"
      using assms st w by (simp add: all_paired_update)
    ultimately show ?thesis using st by simp
  qed
qed

lemma parse_rows_paired:
  "all_paired {f} (fst st) \<Longrightarrow> all_paired {f} (fst (parse_rows pyc f mult cc ycs rows st))"
proof (induction rows arbitrary: st)
  case Nil
  then show ?case by simp
next
  case (Cons row rows)
  have "all_paired {f} (fst (parse_row pyc f mult cc ycs row st))"
    using Cons.prems by (rule parse_row_paired)
  from Cons.IH [OF this] show ?case by simp
qed

lemma parse_sheet_paired: "all_paired {f} (fst (parse_sheet pyc rows f mult))"
proof -
  have e0: "all_paired {f} (fst (([], []) :: source_map \<times> string list))"
    by (simp add: all_paired_def)
  show ?thesis
    using e0 parse_rows_paired [OF e0]
    by (simp add: parse_sheet_def Let_def split: option.split)
qed

lemma wb_store_paired:
  "all_paired F cd \<Longrightarrow> f \<in> F \<Longrightarrow> year_free F \<Longrightarrow> all_paired F (wb_store f results cd)"
proof (induction results arbitrary: cd)
  case Nil
  then show ?case by simp
next
  case (Cons a results)
  obtain code v year where a: "a = (code, v, year)" by (cases a)
  have "paired F (case map_of cd code of None \<Rightarrow> [] | Some items \<Rightarrow> items)"
    using Cons.prems(1) by (auto simp: all_paired_def paired_Nil split: option.splits)
  then have "paired F (AList.update (f @ ''_year'') year (AList.update f v
      (case map_of cd code of None \<Rightarrow> [] | Some items \<Rightarrow> items)))"
    using Cons.prems(2,3) by (rule paired_put)
  with Cons.prems(1) have "all_paired F (AList.update code
      (AList.update (f @ ''_year'') year (AList.update f v
        (case map_of cd code of None \<Rightarrow> [] | Some items \<Rightarrow> items))) cd)"
    by (rule all_paired_update)
  from Cons.IH [OF this Cons.prems(2,3)] show ?case unfolding a by simp
qed

lemma wb_indicators_paired:
  "all_paired F cd \<Longrightarrow> fst ` set inds \<subseteq> F \<Longrightarrow> year_free F \<Longrightarrow>
   all_paired F (wb_indicators inds cd)"
proof (induction inds arbitrary: cd)
  case Nil
  then show ?case by simp
next
  case (Cons a inds)
  obtain f results where a: "a = (f, results)" by (cases a)
  from Cons.prems a have f: "f \<in> F" and sub: "fst ` set inds \<subseteq> F" by auto
  have "all_paired F (wb_store f results cd)"
    using Cons.prems(1) f Cons.prems(3) by (rule wb_store_paired)
  from Cons.IH [OF this sub Cons.prems(3)] show ?case unfolding a by simp
qed

text \<open>
  Claim C10. In a map produced by extraction, every country's dictionary holds a field key
  exactly when it holds the companion year key, and holds no other keys: the value and its
  year are written in the same step. This is proved for every map \<^verbatim>\<open>read_file\<close> returns
  (for every column specification in which no field name is the year key of another, as in
  the five configured ones), for \<^verbatim>\<open>parse_sheet\<close>, and for the indicator loop of
  \<^verbatim>\<open>fetch_worldbank.main\<close>. \<^verbatim>\<open>read_file\<close> returns a map whenever no cell of the sheet makes
  a conversion overflow; otherwise the \<^verbatim>\<open>OverflowError\<close> leaves it and there is no map.
\<close>

theorem value_and_year_together:
  "(year_free (data_fields cm) \<and> read_file rows cm = Inr m \<and> map_of m e = Some items \<longrightarrow>
      paired (data_fields cm) items)
   \<and> (list_all (list_all calm) rows \<longrightarrow> (\<exists>m'. read_file rows cm = Inr m'))
   \<and> (map_of (fst (parse_sheet pyc sheet field mult)) e = Some items \<longrightarrow> paired {field} items)
   \<and> (year_free (fst ` set inds) \<and> map_of (wb_indicators inds []) e = Some items \<longrightarrow>
      paired (fst ` set inds) items)"
proof (intro conjI impI)
  assume h: "year_free (data_fields cm) \<and> read_file rows cm = Inr m \<and> map_of m e = Some items"
  with read_file_paired [of cm rows m] have "all_paired (data_fields cm) m" by blast
  with h show "paired (data_fields cm) items" unfolding all_paired_def by blast
next
  assume "list_all (list_all calm) rows"
  then show "\<exists>m'. read_file rows cm = Inr m'" by (rule read_file_calm)
next
  assume "map_of (fst (parse_sheet pyc sheet field mult)) e = Some items"
  with parse_sheet_paired [of field pyc sheet mult] show "paired {field} items"
    unfolding all_paired_def by blast
next
  assume h: "year_free (fst ` set inds) \<and> map_of (wb_indicators inds []) e = Some items"
  have "all_paired (fst ` set inds) []" by (simp add: all_paired_def)
  then have "all_paired (fst ` set inds) (wb_indicators inds [])"
    using subset_refl h by (rule wb_indicators_paired [OF _ _ conjunct1])
  with h show "paired (fst ` set inds) items" unfolding all_paired_def by blast
qed

theorem value_and_year_together_witness:
  "year_free (data_fields female_deaths_columns)
   \<and> list_all (list_all calm) [[CStr ''ISO3'', CStr ''Year'', CStr ''Neonatal''], [CStr ''FRA'', CInt 2020, CInt 7]]
   \<and> read_file [[CStr ''ISO3'', CStr ''Year'', CStr ''Neonatal''], [CStr ''FRA'', CInt 2020, CInt 7]]
        female_deaths_columns
      = Inr [(''FRA'', [(''neonateMortalityF'', JNum (Fin 7)), (''neonateMortalityF_year'', JStr ''2020'')])]
   \<and> paired (data_fields female_deaths_columns)
        [(''neonateMortalityF'', JNum (Fin 7)), (''neonateMortalityF_year'', JStr ''2020'')]
   \<and> map_of (fst (parse_sheet None [[CStr ''Country'', CInt 2020], [CStr ''Czechia'', CStr ''1.5'']]
        ''milexPctGDP'' 100)) ''CZE''
      = Some [(''milexPctGDP'', JNum (Fin 150)), (''milexPctGDP_year'', JStr ''2020'')]
   \<and> paired {''milexPctGDP''} [(''milexPctGDP'', JNum (Fin 150)), (''milexPctGDP_year'', JStr ''2020'')]
   \<and> year_free (fst ` set [(''gdp'', [(''FRA'', JNum (Fin 3), JStr ''2023'')]), (''gini'', [(''FRA'', JNum (Fin 32), JNull)])])
   \<and> map_of (wb_indicators [(''gdp'', [(''FRA'', JNum (Fin 3), JStr ''2023'')]), (''gini'', [(''FRA'', JNum (Fin 32), JNull)])] [])
        ''FRA''
      = Some [(''gdp'', JNum (Fin 3)), (''gdp_year'', JStr ''2023''), (''gini'', JNum (Fin 32)), (''gini_year'', JNull)]
   \<and> paired (fst ` set [(''gdp'', [(''FRA'', JNum (Fin 3), JStr ''2023'')]), (''gini'', [(''FRA'', JNum (Fin 32), JNull)])])
        [(''gdp'', JNum (Fin 3)), (''gdp_year'', JStr ''2023''), (''gini'', JNum (Fin 32)), (''gini_year'', JNull)]"
proof -
  let ?rows = "[[CStr ''ISO3'', CStr ''Year'', CStr ''Neonatal''], [CStr ''FRA'', CInt 2020, CInt 7]]"
  let ?sheet = "[[CStr ''Country'', CInt 2020], [CStr ''Czechia'', CStr ''1.5'']]"
  let ?inds = "[(''gdp'', [(''FRA'', JNum (Fin 3), JStr ''2023'')]), (''gini'', [(''FRA'', JNum (Fin 32), JNull)])]"
  let ?fra = "[(''neonateMortalityF'', JNum (Fin 7)), (''neonateMortalityF_year'', JStr ''2020'')]"
  have a1: "year_free (data_fields female_deaths_columns)"
    by (simp add: year_free_def data_fields_def female_deaths_columns_def)
  have a0: "list_all (list_all calm) ?rows"
    by (simp add: calm_def py_eval)
  note t = value_and_year_together
  from t [where rows = ?rows and cm = female_deaths_columns] a0
  obtain m' where m': "read_file ?rows female_deaths_columns = Inr m'" by blast
  have a2: "read_file ?rows female_deaths_columns = Inr [(''FRA'', ?fra)]"
    by (simp add: py_eval un_eval female_deaths_columns_def)
  with m' have "m' = [(''FRA'', ?fra)]" by simp
  then have a2': "map_of m' ''FRA'' = Some ?fra" by simp
  have b1: "map_of (fst (parse_sheet None ?sheet ''milexPctGDP'' 100)) ''CZE''
      = Some [(''milexPctGDP'', JNum (Fin 150)), (''milexPctGDP_year'', JStr ''2020'')]"
    by (simp add: py_eval sipri_eval country_to_iso3_def NAME_TO_ISO3_def)
  have c1: "year_free (fst ` set ?inds)" by (simp add: year_free_def)
  have c2: "map_of (wb_indicators ?inds []) ''FRA''
      = Some [(''gdp'', JNum (Fin 3)), (''gdp_year'', JStr ''2023''), (''gini'', JNum (Fin 32)), (''gini_year'', JNull)]"
    by simp
  from t [where cm = female_deaths_columns and rows = ?rows and m = m' and e = "''FRA''"
      and items = ?fra] a1 m' a2'
  have a3: "paired (data_fields female_deaths_columns) ?fra" by blast
  from t [where e = "''CZE''"
      and items = "[(''milexPctGDP'', JNum (Fin 150)), (''milexPctGDP_year'', JStr ''2020'')]"
      and pyc = None and sheet = ?sheet and field = "''milexPctGDP''" and mult = 100] b1
  have b2: "paired {''milexPctGDP''} [(''milexPctGDP'', JNum (Fin 150)), (''milexPctGDP_year'', JStr ''2020'')]"
    by blast
  from t [where e = "''FRA''"
      and items = "[(''gdp'', JNum (Fin 3)), (''gdp_year'', JStr ''2023''), (''gini'', JNum (Fin 32)), (''gini_year'', JNull)]"
      and inds = ?inds] c1 c2
  have c3: "paired (fst ` set ?inds)
      [(''gdp'', JNum (Fin 3)), (''gdp_year'', JStr ''2023''), (''gini'', JNum (Fin 32)), (''gini_year'', JNull)]"
    by blast
  from a0 a1 a2 a3 b1 b2 c1 c2 c3 show ?thesis by blast
qed

lemma configured_year_free:
  "year_free (data_fields population_columns)" "year_free (data_fields deaths_columns)"
  "year_free (data_fields female_deaths_columns)" "year_free (data_fields male_deaths_columns)"
  "year_free (data_fields births_columns)"
  by (simp_all add: year_free_def data_fields_def population_columns_def deaths_columns_def
      female_deaths_columns_def male_deaths_columns_def births_columns_def)

lemma year_free_no_suffix: "\<forall>g \<in> F. \<not> suffix ''_year'' g \<Longrightarrow> year_free F"
  unfolding year_free_def by (metis suffixI)

lemma worldbank_year_free: "year_free (set WB_FIELD_NAMES)"
  by (rule year_free_no_suffix) (simp add: WB_FIELD_NAMES_def suffix_to_prefix)

section \<open>Which row supplies the value of a country\<close>

lemma read_rows_append:
  "read_rows ic yc fcs (xs @ ys) st =
     (case read_rows ic yc fcs xs st of Inl err \<Rightarrow> Inl err | Inr st1 \<Rightarrow> read_rows ic yc fcs ys st1)"
proof (induction xs arbitrary: st)
  case Nil
  then show ?case by simp
next
  case (Cons x xs)
  then show ?case by (cases "read_row ic yc fcs x st") simp_all
qed

lemma row_year_int_Inr: "row_year yc row = Inr (yr, year) \<Longrightarrow> row_year_int yc row = Some yr"
  by (simp add: row_year_int_def)

lemma read_row_step:
  assumes r: "read_row ic yc fcs row (result, best) = Inr st'" and iso: "row_iso3 ic row = Some e"
  shows "\<exists>yr year. row_year yc row = Inr (yr, year)
     \<and> (if yr > 2025 \<or> (\<exists>b. best e = Some b \<and> yr < b) then st' = (result, best)
        else (\<exists>items. write_fields year row fcs
                 (case map_of result e of None \<Rightarrow> [] | Some items \<Rightarrow> items) = Inr items
               \<and> st' = (AList.update e items result, best(e \<mapsto> yr))))"
proof (cases "row_year yc row")
  case (Inl err)
  with iso r show ?thesis by (simp add: read_row_raise)
next
  case (Inr p)
  obtain yr year where p: "p = (yr, year)" by (cases p)
  note eq = read_row_eq [OF iso Inr [unfolded p], of fcs result best]
  show ?thesis
  proof (cases "yr > 2025 \<or> (\<exists>b. best e = Some b \<and> yr < b)")
    case True
    with eq r Inr p show ?thesis by auto
  next
    case False
    show ?thesis
    proof (cases "write_fields year row fcs (case map_of result e of None \<Rightarrow> [] | Some items \<Rightarrow> items)")
      case (Inl err)
      with eq False r show ?thesis by simp
    next
      case w: (Inr items)
      with eq False r have "st' = (AList.update e items result, best(e \<mapsto> yr))" by simp
      with w False Inr p show ?thesis by auto
    qed
  qed
qed

lemma read_row_best_le:
  assumes inv: "\<forall>b. snd st e = Some b \<longrightarrow> b \<le> y"
    and row: "\<forall>yr. counted ic yc e row yr \<longrightarrow> yr \<le> y"
    and r: "read_row ic yc fcs row st = Inr st'"
  shows "\<forall>b. snd st' e = Some b \<longrightarrow> b \<le> y"
proof -
  obtain result best where st: "st = (result, best)" by (cases st)
  show ?thesis
  proof (cases "row_iso3 ic row")
    case None
    with inv r show ?thesis by (simp add: read_row_skip)
  next
    case (Some e')
    from r st have "read_row ic yc fcs row (result, best) = Inr st'" by simp
    from read_row_step [OF this Some] obtain yr year where ry: "row_year yc row = Inr (yr, year)"
      and stp: "if yr > 2025 \<or> (\<exists>b. best e' = Some b \<and> yr < b) then st' = (result, best)
        else (\<exists>items. write_fields year row fcs
                 (case map_of result e' of None \<Rightarrow> [] | Some items \<Rightarrow> items) = Inr items
               \<and> st' = (AList.update e' items result, best(e' \<mapsto> yr)))" by blast
    show ?thesis
    proof (cases "yr > 2025 \<or> (\<exists>b. best e' = Some b \<and> yr < b)")
      case True
      with stp inv st show ?thesis by simp
    next
      case False
      with stp have eq: "snd st' = best(e' \<mapsto> yr)" by auto
      show ?thesis
      proof (cases "e' = e")
        case True
        with False Some ry have "counted ic yc e row yr"
          by (simp add: counted_def row_year_int_Inr)
        with row have "yr \<le> y" by blast
        with eq True show ?thesis by simp
      next
        case False
        with eq inv st show ?thesis by simp
      qed
    qed
  qed
qed

lemma read_rows_best_le:
  "\<forall>b. snd st e = Some b \<longrightarrow> b \<le> y \<Longrightarrow>
   \<forall>row \<in> set rows. \<forall>yr. counted ic yc e row yr \<longrightarrow> yr \<le> y \<Longrightarrow>
   read_rows ic yc fcs rows st = Inr st' \<Longrightarrow>
   \<forall>b. snd st' e = Some b \<longrightarrow> b \<le> y"
proof (induction rows arbitrary: st)
  case Nil
  then show ?case by simp
next
  case (Cons row rows)
  from Cons.prems(2) have r: "\<forall>yr. counted ic yc e row yr \<longrightarrow> yr \<le> y"
    and rest: "\<forall>row \<in> set rows. \<forall>yr. counted ic yc e row yr \<longrightarrow> yr \<le> y" by simp_all
  from Cons.prems(3) obtain st1 where r1: "read_row ic yc fcs row st = Inr st1"
    and rs: "read_rows ic yc fcs rows st1 = Inr st'"
    unfolding read_rows_Cons_Inr by blast
  have "\<forall>b. snd st1 e = Some b \<longrightarrow> b \<le> y"
    using Cons.prems(1) r r1 by (rule read_row_best_le)
  from Cons.IH [OF this rest rs] show ?case .
qed

lemma read_row_later_older:
  assumes best: "snd st e = Some y"
    and row: "\<forall>yr. counted ic yc e row yr \<longrightarrow> yr < y"
    and r: "read_row ic yc fcs row st = Inr st'"
  shows "map_of (fst st') e = map_of (fst st) e \<and> snd st' e = Some y"
proof -
  obtain result bst where st: "st = (result, bst)" by (cases st)
  show ?thesis
  proof (cases "row_iso3 ic row")
    case None
    with best r show ?thesis by (simp add: read_row_skip)
  next
    case (Some e')
    from r st have "read_row ic yc fcs row (result, bst) = Inr st'" by simp
    from read_row_step [OF this Some] obtain yr year where ry: "row_year yc row = Inr (yr, year)"
      and stp: "if yr > 2025 \<or> (\<exists>b. bst e' = Some b \<and> yr < b) then st' = (result, bst)
        else (\<exists>items. write_fields year row fcs
                 (case map_of result e' of None \<Rightarrow> [] | Some items \<Rightarrow> items) = Inr items
               \<and> st' = (AList.update e' items result, bst(e' \<mapsto> yr)))" by blast
    show ?thesis
    proof (cases "e' = e")
      case True
      have "yr > 2025 \<or> (\<exists>b. bst e' = Some b \<and> yr < b)"
      proof (cases "yr > 2025")
        case True
        then show ?thesis by simp
      next
        case False
        with Some ry \<open>e' = e\<close> have "counted ic yc e row yr"
          by (simp add: counted_def row_year_int_Inr)
        with row have "yr < y" by blast
        with best st \<open>e' = e\<close> show ?thesis by simp
      qed
      with stp best st show ?thesis by simp
    next
      case False
      show ?thesis
      proof (cases "yr > 2025 \<or> (\<exists>b. bst e' = Some b \<and> yr < b)")
        case True
        with stp best st show ?thesis by simp
      next
        case nb: False
        with stp obtain items where "st' = (AList.update e' items result, bst(e' \<mapsto> yr))" by auto
        with False best st show ?thesis by (simp add: update_conv')
      qed
    qed
  qed
qed

lemma read_rows_later_older:
  "snd st e = Some y \<Longrightarrow>
   \<forall>row \<in> set rows. \<forall>yr. counted ic yc e row yr \<longrightarrow> yr < y \<Longrightarrow>
   read_rows ic yc fcs rows st = Inr st' \<Longrightarrow>
   map_of (fst st') e = map_of (fst st) e"
proof (induction rows arbitrary: st)
  case Nil
  then show ?case by simp
next
  case (Cons row rows)
  from Cons.prems(2) have r: "\<forall>yr. counted ic yc e row yr \<longrightarrow> yr < y"
    and rest: "\<forall>row \<in> set rows. \<forall>yr. counted ic yc e row yr \<longrightarrow> yr < y" by simp_all
  from Cons.prems(3) obtain st1 where r1: "read_row ic yc fcs row st = Inr st1"
    and rs: "read_rows ic yc fcs rows st1 = Inr st'"
    unfolding read_rows_Cons_Inr by blast
  from read_row_later_older [OF Cons.prems(1) r r1]
  have a: "map_of (fst st1) e = map_of (fst st) e" and b: "snd st1 e = Some y" by simp_all
  from Cons.IH [OF b rest rs] a show ?case by simp
qed

lemma write_fields_other:
  "\<forall>g \<in> fst ` set fcs. k \<noteq> g \<and> k \<noteq> g @ ''_year'' \<Longrightarrow>
   write_fields year row fcs items = Inr items' \<Longrightarrow>
   map_of items' k = map_of items k"
proof (induction fcs arbitrary: items)
  case Nil
  then show ?case by simp
next
  case (Cons a fcs)
  obtain g col where a: "a = (g, col)" by (cases a)
  from Cons.prems(1) a have k: "k \<noteq> g" "k \<noteq> g @ ''_year''"
    and rest: "\<forall>g \<in> fst ` set fcs. k \<noteq> g \<and> k \<noteq> g @ ''_year''" by auto
  from Cons.prems(2) a have "write_fields year row ((g, col) # fcs) items = Inr items'" by simp
  from write_fields_step [OF this] show ?case
  proof
    assume "write_fields year row fcs items = Inr items'"
    from Cons.IH [OF rest this] show ?thesis .
  next
    assume "\<exists>x. write_fields year row fcs
        (AList.update (g @ ''_year'') (JStr year) (AList.update g (JNum x) items)) = Inr items'"
    then obtain x where "write_fields year row fcs
        (AList.update (g @ ''_year'') (JStr year) (AList.update g (JNum x) items)) = Inr items'"
      by blast
    from Cons.IH [OF rest this] k show ?thesis by (simp add: update_conv')
  qed
qed

lemma write_fields_sets:
  assumes "(f, col) \<in> set fcs" "distinct (map fst fcs)" "year_free (fst ` set fcs)"
    and "col < length row" "row ! col \<noteq> CNone" "py_float_cell (row ! col) = Inr x"
    and "write_fields year row fcs items = Inr items'"
  shows "map_of items' f = Some (JNum x) \<and> map_of items' (f @ ''_year'') = Some (JStr year)"
  using assms(1,2,3,7)
proof (induction fcs arbitrary: items)
  case Nil
  then show ?case by simp
next
  case (Cons a fcs)
  obtain g c where a: "a = (g, c)" by (cases a)
  show ?case
  proof (cases "(f, col) = (g, c)")
    case True
    from Cons.prems(2) a have "g \<notin> fst ` set fcs" by simp
    moreover from Cons.prems(3) a have "\<forall>h \<in> fst ` set fcs. h \<noteq> g @ ''_year'' \<and> g \<noteq> h @ ''_year''"
      by (auto simp: year_free_def)
    ultimately have o1: "\<forall>h \<in> fst ` set fcs. f \<noteq> h \<and> f \<noteq> h @ ''_year''"
      and o2: "\<forall>h \<in> fst ` set fcs. f @ ''_year'' \<noteq> h \<and> f @ ''_year'' \<noteq> h @ ''_year''"
      using True by auto
    let ?items = "AList.update (g @ ''_year'') (JStr year) (AList.update g (JNum x) items)"
    from True assms(4,5,6) Cons.prems(4) a have w: "write_fields year row fcs ?items = Inr items'"
      by simp
    from write_fields_other [OF o1 w] write_fields_other [OF o2 w] True
    show ?thesis by (simp add: update_conv')
  next
    case False
    with Cons.prems(1) a have mem: "(f, col) \<in> set fcs" by auto
    from Cons.prems(2) have d: "distinct (map fst fcs)" by simp
    from Cons.prems(3) have y: "year_free (fst ` set fcs)" by (auto simp: year_free_def)
    from Cons.prems(4) a have "write_fields year row ((g, c) # fcs) items = Inr items'" by simp
    from write_fields_step [OF this] show ?thesis
    proof
      assume "write_fields year row fcs items = Inr items'"
      from Cons.IH [OF mem d y this] show ?thesis .
    next
      assume "\<exists>z. write_fields year row fcs
          (AList.update (g @ ''_year'') (JStr year) (AList.update g (JNum z) items)) = Inr items'"
      then obtain z where "write_fields year row fcs
          (AList.update (g @ ''_year'') (JStr year) (AList.update g (JNum z) items)) = Inr items'"
        by blast
      from Cons.IH [OF mem d y this] show ?thesis .
    qed
  qed
qed

lemma skip_late:
  assumes "row_year yc row = Inr (yr, year)" "yr > 2025"
  shows "read_row ic yc fcs row st = Inr st"
proof (cases "row_iso3 ic row")
  case None
  then show ?thesis by (rule read_row_skip)
next
  case (Some e)
  obtain result best where st: "st = (result, best)" by (cases st)
  from read_row_eq [OF Some assms(1), of fcs result best] assms(2) st show ?thesis by simp
qed

lemma latest_row_wins_aux:
  assumes rows: "rows = pre @ r # post"
    and rr: "read_rows ic yc fcs rows ([], Map.empty) = Inr st'"
    and c: "counted ic yc e r y" and ry: "row_year yc r = Inr (y, year)"
    and p: "\<forall>p \<in> set pre. \<forall>yp. counted ic yc e p yp \<longrightarrow> yp \<le> y"
    and q: "\<forall>q \<in> set post. \<forall>yq. counted ic yc e q yq \<longrightarrow> yq < y"
    and f: "(f, col) \<in> set fcs" "distinct (map fst fcs)" "year_free (fst ` set fcs)"
    and cell: "col < length r" "r ! col \<noteq> CNone" "py_float_cell (r ! col) = Inr x"
  shows "\<exists>items. map_of (fst st') e = Some items
         \<and> map_of items f = Some (JNum x) \<and> map_of items (f @ ''_year'') = Some (JStr year)"
proof -
  let ?s0 = "([], Map.empty) :: read_state"
  from rr rows obtain s1 where s1: "read_rows ic yc fcs pre ?s0 = Inr s1"
    and rest: "read_rows ic yc fcs (r # post) s1 = Inr st'"
    by (cases "read_rows ic yc fcs pre ?s0") (simp_all add: read_rows_append)
  from rest obtain s2 where s2: "read_row ic yc fcs r s1 = Inr s2"
    and s3: "read_rows ic yc fcs post s2 = Inr st'"
    unfolding read_rows_Cons_Inr by blast
  obtain result best where s1p: "s1 = (result, best)" by (cases s1)
  from c have iso: "row_iso3 ic r = Some e" and le: "y \<le> 2025" by (auto simp: counted_def)
  have "\<forall>b. snd ?s0 e = Some b \<longrightarrow> b \<le> y" by simp
  then have "\<forall>b. snd s1 e = Some b \<longrightarrow> b \<le> y" using p s1 by (rule read_rows_best_le)
  with s1p have nb: "\<not> (y > 2025 \<or> (\<exists>b. best e = Some b \<and> y < b))" using le by auto
  from s2 s1p have "read_row ic yc fcs r (result, best) = Inr s2" by simp
  from read_row_step [OF this iso] ry nb obtain items where
    w: "write_fields year r fcs (case map_of result e of None \<Rightarrow> [] | Some items \<Rightarrow> items) = Inr items"
    and s2e: "s2 = (AList.update e items result, best(e \<mapsto> y))" by auto
  from s2e have "snd s2 e = Some y" by simp
  then have "map_of (fst st') e = map_of (fst s2) e" using q s3 by (rule read_rows_later_older)
  with s2e have "map_of (fst st') e = Some items" by (simp add: update_conv')
  moreover from f cell w have "map_of items f = Some (JNum x)
     \<and> map_of items (f @ ''_year'') = Some (JStr year)"
    by (rule write_fields_sets)
  ultimately show ?thesis by blast
qed

text \<open>
  Claim C4, as the code has it. Let the data rows be \<open>pre @ r # post\<close>, where \<open>r\<close> is a row
  of country \<open>e\<close> with year \<open>y\<close> at most 2025, no row of \<open>e\<close> before it (with year at most
  2025) has a higher year, and every row of \<open>e\<close> after it (with year at most 2025) has a
  strictly lower year: \<open>r\<close> is the last of the rows of \<open>e\<close> with the highest year among
  those not beyond 2025. Then for every field whose cell in \<open>r\<close> holds a number, the result
  of the row loop has the value and the year of \<open>r\<close>. The field dictionary \<open>fcs\<close> is the one
  \<^verbatim>\<open>map_columns\<close> returns. A row whose year is beyond 2025 leaves the state of the loop as
  it is. The loop returns a result whenever no cell makes a conversion overflow, and the
  only exception that leaves it is \<^verbatim>\<open>OverflowError\<close>.
\<close>

theorem latest_row_wins:
  "(rows = pre @ r # post
      \<and> read_rows ic yc fcs rows ([], Map.empty) = Inr st'
      \<and> counted ic yc e r y \<and> row_year yc r = Inr (y, year)
      \<and> (\<forall>p \<in> set pre. \<forall>yp. counted ic yc e p yp \<longrightarrow> yp \<le> y)
      \<and> (\<forall>q \<in> set post. \<forall>yq. counted ic yc e q yq \<longrightarrow> yq < y)
      \<and> (f, col) \<in> set fcs \<and> distinct (map fst fcs) \<and> year_free (fst ` set fcs)
      \<and> col < length r \<and> r ! col \<noteq> CNone \<and> py_float_cell (r ! col) = Inr x
      \<longrightarrow> (\<exists>items. map_of (fst st') e = Some items
            \<and> map_of items f = Some (JNum x) \<and> map_of items (f @ ''_year'') = Some (JStr year)))
   \<and> (row_year yc row = Inr (yr, ytext) \<and> yr > 2025 \<longrightarrow> read_row ic yc fcs row st = Inr st)
   \<and> (list_all (list_all calm) rows \<longrightarrow> (\<exists>st1. read_rows ic yc fcs rows st = Inr st1))
   \<and> (read_rows ic yc fcs rows st = Inl err \<longrightarrow> err = OverflowError)"
proof (intro conjI impI)
  assume "rows = pre @ r # post
      \<and> read_rows ic yc fcs rows ([], Map.empty) = Inr st'
      \<and> counted ic yc e r y \<and> row_year yc r = Inr (y, year)
      \<and> (\<forall>p \<in> set pre. \<forall>yp. counted ic yc e p yp \<longrightarrow> yp \<le> y)
      \<and> (\<forall>q \<in> set post. \<forall>yq. counted ic yc e q yq \<longrightarrow> yq < y)
      \<and> (f, col) \<in> set fcs \<and> distinct (map fst fcs) \<and> year_free (fst ` set fcs)
      \<and> col < length r \<and> r ! col \<noteq> CNone \<and> py_float_cell (r ! col) = Inr x"
  then show "\<exists>items. map_of (fst st') e = Some items
            \<and> map_of items f = Some (JNum x) \<and> map_of items (f @ ''_year'') = Some (JStr year)"
    using latest_row_wins_aux [of rows pre r post ic yc fcs st' e y year f col x] by blast
next
  assume "row_year yc row = Inr (yr, ytext) \<and> yr > 2025"
  then show "read_row ic yc fcs row st = Inr st" using skip_late by blast
next
  assume "list_all (list_all calm) rows"
  then show "\<exists>st1. read_rows ic yc fcs rows st = Inr st1" by (rule read_rows_calm)
next
  assume "read_rows ic yc fcs rows st = Inl err"
  then show "err = OverflowError" by (rule read_rows_Inl)
qed

text \<open>
  Rows for FRA with years 2019, 2021, 2021, 2020 and 2030: the second row of 2021 supplies
  the value, the row of 2030 is beyond the cutoff. A row whose year cell reads \<^verbatim>\<open>inf\<close>
  ends the loop with \<^verbatim>\<open>OverflowError\<close>.
\<close>

theorem latest_row_wins_witness:
  "counted 0 (Some 2) ''FRA'' [CStr ''FRA'', CStr ''x'', CInt 2021, CInt 8] 2021
   \<and> row_year (Some 2) [CStr ''FRA'', CStr ''x'', CInt 2021, CInt 8] = Inr (2021, ''2021'')
   \<and> py_float_cell ([CStr ''FRA'', CStr ''x'', CInt 2021, CInt 8] ! 3) = Inr (Fin 8)
   \<and> (\<exists>st'.
        read_rows 0 (Some 2) [(''neonateMortalityF'', 3)]
          ([[CStr ''FRA'', CStr ''x'', CInt 2019, CInt 5], [CStr ''FRA'', CStr ''x'', CInt 2021, CInt 7]]
           @ [CStr ''FRA'', CStr ''x'', CInt 2021, CInt 8]
           # [[CStr ''FRA'', CStr ''x'', CInt 2020, CInt 6], [CStr ''FRA'', CStr ''x'', CInt 2030, CInt 9],
              [CStr ''DEU'', CStr ''x'', CInt 2022, CInt 1]])
          ([], Map.empty) = Inr st'
        \<and> (\<exists>items. map_of (fst st') ''FRA'' = Some items
              \<and> map_of items ''neonateMortalityF'' = Some (JNum (Fin 8))
              \<and> map_of items (''neonateMortalityF'' @ ''_year'') = Some (JStr ''2021'')))
   \<and> read_rows 0 (Some 2) [(''neonateMortalityF'', 3)]
        [[CStr ''FRA'', CStr ''x'', CStr ''inf'', CInt 1]] ([], Map.empty) = Inl OverflowError"
proof -
  let ?pre = "[[CStr ''FRA'', CStr ''x'', CInt 2019, CInt 5], [CStr ''FRA'', CStr ''x'', CInt 2021, CInt 7]]"
  let ?r = "[CStr ''FRA'', CStr ''x'', CInt 2021, CInt 8]"
  let ?post = "[[CStr ''FRA'', CStr ''x'', CInt 2020, CInt 6], [CStr ''FRA'', CStr ''x'', CInt 2030, CInt 9],
      [CStr ''DEU'', CStr ''x'', CInt 2022, CInt 1]]"
  let ?fcs = "[(''neonateMortalityF'', 3::nat)]"
  let ?s0 = "([], Map.empty) :: read_state"
  have ys: "row_year_int (Some 2) [CStr ''FRA'', CStr ''x'', CInt 2019, CInt 5] = Some 2019"
    "row_year_int (Some 2) [CStr ''FRA'', CStr ''x'', CInt 2021, CInt 7] = Some 2021"
    "row_year_int (Some 2) ?r = Some 2021"
    "row_year_int (Some 2) [CStr ''FRA'', CStr ''x'', CInt 2020, CInt 6] = Some 2020"
    "row_year_int (Some 2) [CStr ''FRA'', CStr ''x'', CInt 2030, CInt 9] = Some 2030"
    "row_year_int (Some 2) [CStr ''DEU'', CStr ''x'', CInt 2022, CInt 1] = Some 2022"
    by (simp_all add: py_eval row_year_def row_year_int_def)
  have ry: "row_year (Some 2) ?r = Inr (2021, ''2021'')"
    by (simp add: py_eval row_year_def)
  have iso: "row_iso3 0 ?r = Some ''FRA''" "row_iso3 0 [CStr ''DEU'', CStr ''x'', CInt 2022, CInt 1] = Some ''DEU''"
    by (simp_all add: py_eval row_iso3_def)
  have c: "counted 0 (Some 2) ''FRA'' ?r 2021" by (simp add: counted_def ys iso)
  have p: "\<forall>p \<in> set ?pre. \<forall>yp. counted 0 (Some 2) ''FRA'' p yp \<longrightarrow> yp \<le> 2021"
    by (simp add: counted_def ys)
  have q: "\<forall>q \<in> set ?post. \<forall>yq. counted 0 (Some 2) ''FRA'' q yq \<longrightarrow> yq < 2021"
    by (simp add: counted_def ys iso)
  have f: "(''neonateMortalityF'', 3) \<in> set ?fcs
      \<and> distinct (map fst ?fcs) \<and> year_free (fst ` set ?fcs)
      \<and> 3 < length ?r \<and> ?r ! 3 \<noteq> CNone \<and> py_float_cell (?r ! 3) = Inr (Fin 8)"
    by (simp add: year_free_def py_eval)
  have calm: "list_all (list_all calm) (?pre @ ?r # ?post)"
    by (simp add: calm_def py_eval)
  have inf: "read_rows 0 (Some 2) ?fcs [[CStr ''FRA'', CStr ''x'', CStr ''inf'', CInt 1]] ?s0
      = Inl OverflowError"
    by (simp add: py_eval un_eval)
  note t = latest_row_wins
  from t [where rows = "?pre @ ?r # ?post" and ic = 0 and yc = "Some 2" and fcs = ?fcs and st = ?s0]
    calm
  obtain st' where st': "read_rows 0 (Some 2) ?fcs (?pre @ ?r # ?post) ?s0 = Inr st'" by blast
  from t [of "?pre @ ?r # ?post" ?pre ?r ?post 0 "Some 2" ?fcs st' "''FRA''" 2021 "''2021''"
      "''neonateMortalityF''" 3 "Fin 8"] st' c ry p q f
  have "\<exists>items. map_of (fst st') ''FRA'' = Some items
        \<and> map_of items ''neonateMortalityF'' = Some (JNum (Fin 8))
        \<and> map_of items (''neonateMortalityF'' @ ''_year'') = Some (JStr ''2021'')"
    by blast
  with st' c ry f inf show ?thesis by blast
qed

text \<open>
  Two rows of one country with the same year: the specification selects the first, the
  result of \<^verbatim>\<open>read_file\<close> holds the value of the second.
\<close>

theorem tie_prefers_first_counterexample:
  "spec_latest_row 2025 0 (Some 2) ''FRA''
     [[CStr ''FRA'', CStr ''x'', CInt 2020, CInt 1], [CStr ''FRA'', CStr ''x'', CInt 2020, CInt 2]]
     = Some [CStr ''FRA'', CStr ''x'', CInt 2020, CInt 1]
   \<and> read_file [[CStr ''ISO3'', CStr ''Name'', CStr ''Year'', CStr ''Neonatal''],
                 [CStr ''FRA'', CStr ''x'', CInt 2020, CInt 1], [CStr ''FRA'', CStr ''x'', CInt 2020, CInt 2]]
        female_deaths_columns
     = Inr [(''FRA'', [(''neonateMortalityF'', JNum (Fin 2)), (''neonateMortalityF_year'', JStr ''2020'')])]"
proof -
  have ys: "row_year_int (Some 2) [CStr ''FRA'', CStr ''x'', CInt 2020, CInt 1] = Some 2020"
    "row_year_int (Some 2) [CStr ''FRA'', CStr ''x'', CInt 2020, CInt 2] = Some 2020"
    by (simp_all add: py_eval row_year_def row_year_int_def)
  have iso: "row_iso3 0 [CStr ''FRA'', CStr ''x'', CInt 2020, CInt 1] = Some ''FRA''"
    "row_iso3 0 [CStr ''FRA'', CStr ''x'', CInt 2020, CInt 2] = Some ''FRA''"
    by (simp_all add: py_eval row_iso3_def)
  have a: "spec_latest_row 2025 0 (Some 2) ''FRA''
      [[CStr ''FRA'', CStr ''x'', CInt 2020, CInt 1], [CStr ''FRA'', CStr ''x'', CInt 2020, CInt 2]]
      = Some [CStr ''FRA'', CStr ''x'', CInt 2020, CInt 1]"
    by (simp add: spec_latest_row_def ys iso)
  have b: "read_file [[CStr ''ISO3'', CStr ''Name'', CStr ''Year'', CStr ''Neonatal''],
                 [CStr ''FRA'', CStr ''x'', CInt 2020, CInt 1], [CStr ''FRA'', CStr ''x'', CInt 2020, CInt 2]]
        female_deaths_columns
     = Inr [(''FRA'', [(''neonateMortalityF'', JNum (Fin 2)), (''neonateMortalityF_year'', JStr ''2020'')])]"
    by (simp add: py_eval un_eval female_deaths_columns_def)
  from a b show ?thesis by blast
qed

section \<open>How a run ends and what it leaves on disk\<close>

text \<open>
  Claim C9, as the code has it. A run ends fatally when the store file is missing (exit
  status 1), when loading the store or reading a workbook raises, and when the final write
  fails; in the first three cases the disk is left as it was. The final write opens the
  store file for writing and serialises into it: when no write fails the file holds the
  whole new text, and when the write of piece \<open>k\<close> fails the file holds exactly the pieces
  before it, whatever it held before.
\<close>

theorem run_outcomes:
  "main_un env None = (Exit 1, None)
   \<and> (decode env text = None \<longrightarrow> main_un env (Some text) = (Uncaught, Some text))
   \<and> (decode env text = Some un_data \<and> merge_files un_data (sources env) 0 = None \<longrightarrow>
        main_un env (Some text) = (Uncaught, Some text))
   \<and> (decode env text = Some un_data \<and> merge_files un_data (sources env) 0 = Some (st, n) \<longrightarrow>
        main_un env (Some text) = save (write_fault env) (encode env st) (Some text))
   \<and> save None pieces disk = (Completed, Some (concat pieces))
   \<and> (k < length pieces \<longrightarrow> save (Some k) pieces disk = (Uncaught, Some (concat (take k pieces))))"
  by (simp add: main_un_def save_def)

text \<open>
  A missing store file is fatal without any write. A write that fails at its second piece
  leaves the first piece on disk: neither the old text nor the new one.
\<close>

theorem run_outcomes_counterexample:
  "main_un \<lparr>decode = (\<lambda>t. None), sources = [], encode = (\<lambda>s. []), write_fault = None\<rparr> None
     = (Exit 1, None)
   \<and> save (Some 1) [''{'', ''FRA:{}'', ''}''] (Some ''{DEU:{}}'') = (Uncaught, Some ''{'')
   \<and> ''{'' \<noteq> ''{DEU:{}}'' \<and> ''{'' \<noteq> concat [''{'', ''FRA:{}'', ''}'']"
  by (simp add: main_un_def save_def)

theorem run_outcomes_witness:
  "decode \<lparr>decode = (\<lambda>t. if t = ''{}'' then Some Map.empty else None),
           sources = [Some [(''FRA'', [(''gdp'', JNum (Fin 3))])]],
           encode = (\<lambda>s. [''{'', ''FRA:{gdp:3}'', ''}'']), write_fault = Some 2\<rparr> ''{}''
     = Some Map.empty
   \<and> (2::nat) < length [''{'', ''FRA:{gdp:3}'', ''}'']
   \<and> main_un \<lparr>decode = (\<lambda>t. if t = ''{}'' then Some Map.empty else None),
           sources = [Some [(''FRA'', [(''gdp'', JNum (Fin 3))])]],
           encode = (\<lambda>s. [''{'', ''FRA:{gdp:3}'', ''}'']), write_fault = Some 2\<rparr> (Some ''{}'')
     = (Uncaught, Some ''{FRA:{gdp:3}'')
   \<and> main_un \<lparr>decode = (\<lambda>t. None), sources = [], encode = (\<lambda>s. []), write_fault = None\<rparr>
        (Some ''not json'')
     = (Uncaught, Some ''not json'')"
proof -
  let ?env = "\<lparr>decode = (\<lambda>t. if t = ''{}'' then Some Map.empty else None),
           sources = [Some [(''FRA'', [(''gdp'', JNum (Fin 3))])]],
           encode = (\<lambda>s. [''{'', ''FRA:{gdp:3}'', ''}'']), write_fault = Some 2\<rparr>"
  let ?bad = "\<lparr>decode = (\<lambda>t. None), sources = [], encode = (\<lambda>s. []), write_fault = None\<rparr> :: run_env"
  have "merge_files Map.empty (sources ?env) 0
      = Some (merge_un Map.empty [(''FRA'', [(''gdp'', JNum (Fin 3))])] 0)"
    by (simp del: merge_un.simps split: prod.split)
  then obtain st n where m: "merge_files Map.empty (sources ?env) 0 = Some (st, n)"
    by (cases "merge_un Map.empty [(''FRA'', [(''gdp'', JNum (Fin 3))])] 0") simp
  have d: "decode ?env ''{}'' = Some Map.empty" by simp
  have l: "(2::nat) < length [''{'', ''FRA:{gdp:3}'', ''}'']" by simp
  have b: "decode ?bad ''not json'' = None" by simp
  from run_outcomes [of ?env "''{}''" Map.empty st n] d m
  have "main_un ?env (Some ''{}'') = save (write_fault ?env) (encode ?env st) (Some ''{}'')"
    by blast
  moreover from run_outcomes [of ?env "''{}''" Map.empty st n "[''{'', ''FRA:{gdp:3}'', ''}'']"
      "Some ''{}''" 2] l
  have "save (Some 2) [''{'', ''FRA:{gdp:3}'', ''}''] (Some ''{}'')
      = (Uncaught, Some (concat (take 2 [''{'', ''FRA:{gdp:3}'', ''}''])))" by blast
  ultimately have r: "main_un ?env (Some ''{}'') = (Uncaught, Some ''{FRA:{gdp:3}'')"
    by simp
  from run_outcomes [of ?bad "''not json''"] b
  have r2: "main_un ?bad (Some ''not json'') = (Uncaught, Some ''not json'')" by blast
  from d l r r2 show ?thesis by blast
qed

section \<open>Idempotence of the fill-only merge\<close>

lemma present_not_get_is_None:
  "st e = Some r \<Longrightarrow> present st e f = (\<not> get_is_None r f)"
  by (auto simp: present_def store_get_def get_is_None_def split: option.splits jval.splits)

lemma merge_fields_noop:
  "\<forall>(f, v) \<in> set items. \<not> get_is_None r f \<Longrightarrow> merge_fields r items n = (r, n)"
  by (induction items arbitrary: n) auto

lemma merge_fields_keeps_present:
  "\<not> get_is_None r f \<Longrightarrow> \<not> get_is_None (fst (merge_fields r items n)) f"
proof -
  assume "\<not> get_is_None r f"
  then obtain v where v: "r f = Some v" "v \<noteq> JNull"
    by (auto simp: get_is_None_def split: option.splits jval.splits)
  then have "fst (merge_fields r items n) f = Some v" by (rule merge_fields_keeps)
  with v(2) show ?thesis by (cases v) (auto simp: get_is_None_def)
qed

lemma merge_fields_fills:
  "\<forall>(f, v) \<in> set items. v \<noteq> JNull \<Longrightarrow>
   \<forall>(f, v) \<in> set items. \<not> get_is_None (fst (merge_fields r items n)) f"
proof (induction items arbitrary: r n)
  case Nil
  then show ?case by simp
next
  case (Cons a items)
  obtain g w where a: "a = (g, w)" by (cases a)
  from Cons.prems a have w: "w \<noteq> JNull" and rest: "\<forall>(f, v) \<in> set items. v \<noteq> JNull" by auto
  show ?case
  proof (cases "get_is_None r g")
    case True
    have eq: "merge_fields r (a # items) n = merge_fields (r(g \<mapsto> w)) items (Suc n)"
      using a True by simp
    have "\<not> get_is_None (r(g \<mapsto> w)) g" using w by (cases w) (auto simp: get_is_None_def)
    then have "\<not> get_is_None (fst (merge_fields (r(g \<mapsto> w)) items (Suc n))) g"
      by (rule merge_fields_keeps_present)
    moreover have "\<forall>(f, v) \<in> set items. \<not> get_is_None (fst (merge_fields (r(g \<mapsto> w)) items (Suc n))) f"
      using rest by (rule Cons.IH)
    ultimately show ?thesis using a eq by simp
  next
    case False
    have eq: "merge_fields r (a # items) n = merge_fields r items n"
      using a False by simp
    have "\<not> get_is_None (fst (merge_fields r items n)) g"
      using False by (rule merge_fields_keeps_present)
    moreover have "\<forall>(f, v) \<in> set items. \<not> get_is_None (fst (merge_fields r items n)) f"
      using rest by (rule Cons.IH)
    ultimately show ?thesis using a eq by simp
  qed
qed

lemma merge_un_step:
  "merge_un st ((e, items) # m) n =
     merge_un (st(e \<mapsto> fst (merge_fields (case st e of None \<Rightarrow> Map.empty | Some r0 \<Rightarrow> r0) items n))) m
       (snd (merge_fields (case st e of None \<Rightarrow> Map.empty | Some r0 \<Rightarrow> r0) items n))"
  by (simp add: Let_def split: prod.splits)

lemma merge_un_dom: "st e \<noteq> None \<Longrightarrow> fst (merge_un st m n) e \<noteq> None"
proof (induction m arbitrary: st n)
  case Nil
  then show ?case by simp
next
  case (Cons a m)
  obtain x items where a: "a = (x, items)" by (cases a)
  define r' where "r' = fst (merge_fields (case st x of None \<Rightarrow> Map.empty | Some r0 \<Rightarrow> r0) items n)"
  define n' where "n' = snd (merge_fields (case st x of None \<Rightarrow> Map.empty | Some r0 \<Rightarrow> r0) items n)"
  have "(st(x \<mapsto> r')) e \<noteq> None" using Cons.prems by simp
  then have "fst (merge_un (st(x \<mapsto> r')) m n') e \<noteq> None" by (rule Cons.IH)
  then show ?case unfolding a merge_un_step r'_def n'_def .
qed

lemma merge_un_present: "present st e f \<Longrightarrow> present (fst (merge_un st m n)) e f"
proof -
  assume "present st e f"
  then obtain v where v: "store_get st e f = Some v" "v \<noteq> JNull"
    by (auto simp: present_def split: option.splits)
  then have "store_get (fst (merge_un st m n)) e f = Some v" by (rule merge_un_keeps)
  with v(2) show ?thesis by (simp add: present_def)
qed

lemma merge_un_fills: "no_null m \<Longrightarrow> saturated (fst (merge_un st m n)) m"
proof (induction m arbitrary: st n)
  case Nil
  then show ?case by (simp add: saturated_def)
next
  case (Cons a m)
  obtain x items where a: "a = (x, items)" by (cases a)
  define r where "r = (case st x of None \<Rightarrow> Map.empty | Some r0 \<Rightarrow> r0)"
  define r' where "r' = fst (merge_fields r items n)"
  define n' where "n' = snd (merge_fields r items n)"
  define st1 where "st1 = st(x \<mapsto> r')"
  have eq: "merge_un st (a # m) n = merge_un st1 m n'"
    unfolding a merge_un_step st1_def r'_def n'_def r_def ..
  from Cons.prems a have nn: "\<forall>(f, v) \<in> set items. v \<noteq> JNull" and rest: "no_null m"
    by (auto simp: no_null_def)
  have sat_rest: "saturated (fst (merge_un st1 m n')) m" using rest by (rule Cons.IH)
  have "st1 x = Some r'" by (simp add: st1_def)
  then have dom: "fst (merge_un st1 m n') x \<noteq> None"
    using merge_un_dom [of st1 x m n'] by simp
  have "\<forall>(f, v) \<in> set items. \<not> get_is_None r' f"
    unfolding r'_def using nn by (rule merge_fields_fills)
  then have "\<forall>(f, v) \<in> set items. present st1 x f"
    using present_not_get_is_None [of st1 x r'] \<open>st1 x = Some r'\<close> by auto
  then have "\<forall>(f, v) \<in> set items. present (fst (merge_un st1 m n')) x f"
    using merge_un_present by blast
  with dom sat_rest have "saturated (fst (merge_un st1 m n')) (a # m)"
    by (simp add: saturated_def a)
  then show ?case by (simp only: eq)
qed

lemma merge_un_noop: "saturated st m \<Longrightarrow> merge_un st m k = (st, k)"
proof (induction m arbitrary: k)
  case Nil
  then show ?case by simp
next
  case (Cons a m)
  obtain x items where a: "a = (x, items)" by (cases a)
  from Cons.prems a obtain r where r: "st x = Some r"
    and pres: "\<forall>(f, v) \<in> set items. present st x f" and rest: "saturated st m"
    by (auto simp: saturated_def)
  from pres have "\<forall>(f, v) \<in> set items. \<not> get_is_None r f"
    using present_not_get_is_None [of st x r] r by auto
  then have mf: "merge_fields r items k = (r, k)" by (rule merge_fields_noop)
  have "st(x \<mapsto> r) = st" using r by (rule map_upd_triv)
  with mf r have "merge_un st (a # m) k = merge_un st m k"
    unfolding a merge_un_step by simp
  with Cons.IH [OF rest] show ?case by simp
qed

lemma set_update_subset: "set (AList.update k v al) \<subseteq> insert (k, v) (set al)"
  by (induction al) auto

lemma update_no_null:
  "JNull \<notin> snd ` set al \<Longrightarrow> v \<noteq> JNull \<Longrightarrow> JNull \<notin> snd ` set (AList.update k v al)"
  using set_update_subset [of k v al] by force

lemma write_fields_no_null:
  "JNull \<notin> snd ` set items \<Longrightarrow> write_fields year row fcs items = Inr items' \<Longrightarrow>
   JNull \<notin> snd ` set items'"
proof (induction fcs arbitrary: items)
  case Nil
  then show ?case by simp
next
  case (Cons a fcs)
  obtain g col where a: "a = (g, col)" by (cases a)
  have up: "JNull \<notin> snd ` set (AList.update (g @ ''_year'') (JStr year) (AList.update g (JNum x) items))"
    for x
    using Cons.prems(1) by (intro update_no_null) simp_all
  from Cons.prems(2) a have "write_fields year row ((g, col) # fcs) items = Inr items'" by simp
  from write_fields_step [OF this] show ?case
  proof
    assume "write_fields year row fcs items = Inr items'"
    from Cons.IH [OF Cons.prems(1) this] show ?thesis .
  next
    assume "\<exists>x. write_fields year row fcs
        (AList.update (g @ ''_year'') (JStr year) (AList.update g (JNum x) items)) = Inr items'"
    then obtain x where "write_fields year row fcs
        (AList.update (g @ ''_year'') (JStr year) (AList.update g (JNum x) items)) = Inr items'"
      by blast
    from Cons.IH [OF up this] show ?thesis .
  qed
qed

lemma no_null_alt:
  "no_null m \<longleftrightarrow> (\<forall>e items. (e, items) \<in> set m \<longrightarrow> JNull \<notin> snd ` set items)"
  unfolding no_null_def by force

lemma no_null_update:
  assumes "no_null result" "JNull \<notin> snd ` set items"
  shows "no_null (AList.update e items result)"
  unfolding no_null_alt
proof (intro allI impI)
  fix e' items'
  assume "(e', items') \<in> set (AList.update e items result)"
  with set_update_subset [of e items result]
  have "(e', items') = (e, items) \<or> (e', items') \<in> set result" by auto
  with assms show "JNull \<notin> snd ` set items'" unfolding no_null_alt by auto
qed

lemma no_null_lookup:
  assumes "no_null result"
  shows "JNull \<notin> snd ` set (case map_of result e of None \<Rightarrow> [] | Some items \<Rightarrow> items)"
proof (cases "map_of result e")
  case None
  then show ?thesis by simp
next
  case (Some items)
  then have "(e, items) \<in> set result" by (rule map_of_SomeD)
  with assms Some show ?thesis unfolding no_null_alt by auto
qed

lemma read_row_no_null:
  assumes "no_null (fst st)" "read_row ic yc fcs row st = Inr st'"
  shows "no_null (fst st')"
proof -
  obtain result best where st: "st = (result, best)" by (cases st)
  from assms(1) st have nn: "no_null result" by simp
  from assms(2) st have "read_row ic yc fcs row (result, best) = Inr st'" by simp
  from read_row_cases [OF this] show ?thesis
  proof
    assume "st' = (result, best)"
    with nn show ?thesis by simp
  next
    assume "\<exists>e year y items.
         write_fields year row fcs (case map_of result e of None \<Rightarrow> [] | Some items \<Rightarrow> items)
           = Inr items
         \<and> st' = (AList.update e items result, best(e \<mapsto> y))"
    then obtain e year y items where
      w: "write_fields year row fcs (case map_of result e of None \<Rightarrow> [] | Some items \<Rightarrow> items)
           = Inr items"
      and s: "st' = (AList.update e items result, best(e \<mapsto> y))" by blast
    have "JNull \<notin> snd ` set items"
      using no_null_lookup [OF nn] w by (rule write_fields_no_null)
    with nn have "no_null (AList.update e items result)" by (rule no_null_update)
    with s show ?thesis by simp
  qed
qed

lemma read_rows_no_null:
  "no_null (fst st) \<Longrightarrow> read_rows ic yc fcs rows st = Inr st' \<Longrightarrow> no_null (fst st')"
proof (induction rows arbitrary: st)
  case Nil
  then show ?case by simp
next
  case (Cons row rows)
  from Cons.prems(2) obtain st1 where r: "read_row ic yc fcs row st = Inr st1"
    and rs: "read_rows ic yc fcs rows st1 = Inr st'"
    unfolding read_rows_Cons_Inr by blast
  have "no_null (fst st1)" using Cons.prems(1) r by (rule read_row_no_null)
  from Cons.IH [OF this rs] show ?case .
qed

lemma read_file_no_null:
  assumes "read_file rows cm = Inr m"
  shows "no_null m"
  using read_file_cases [OF assms]
proof
  assume "m = []"
  then show ?thesis by (simp add: no_null_def)
next
  assume "\<exists>h ic st'. find_header_row rows = Some h
         \<and> iso3_col (map_columns (rows ! h) cm) = Some ic
         \<and> read_rows ic (year_col (map_columns (rows ! h) cm))
              (field_cols (map_columns (rows ! h) cm)) (drop (h + 1) rows) ([], Map.empty) = Inr st'
         \<and> m = fst st'"
  then obtain h ic st' where
    rr: "read_rows ic (year_col (map_columns (rows ! h) cm))
              (field_cols (map_columns (rows ! h) cm)) (drop (h + 1) rows) ([], Map.empty) = Inr st'"
    and m: "m = fst st'" by blast
  have e0: "no_null (fst (([], Map.empty) :: read_state))"
    by (simp add: no_null_def)
  from read_rows_no_null [OF e0 rr] m show ?thesis by simp
qed

text \<open>
  Claim C2. The fill-only merge is idempotent: for every store and every extracted map,
  merging the map a second time leaves the store produced by the first merge unchanged and
  leaves the counter where it was, so the number of fields added on replay is 0. An
  extracted map holds numbers and year strings and never \<^verbatim>\<open>None\<close>, as every map that
  \<^verbatim>\<open>read_file\<close> returns does.
\<close>

theorem fill_only_idempotent:
  "(no_null m \<longrightarrow> merge_un (fst (merge_un st m n)) m k = (fst (merge_un st m n), k))
   \<and> (read_file rows cm = Inr m' \<longrightarrow> no_null m')"
  using merge_un_noop [OF merge_un_fills] read_file_no_null by blast

theorem fill_only_idempotent_witness:
  "no_null [(''FRA'', [(''gdpGrowth'', JNum (Fin 2.5)), (''gdpGrowth_year'', JStr ''2023'')])]
   \<and> merge_un (fst (merge_un Map.empty [(''FRA'', [(''gdpGrowth'', JNum (Fin 2.5)), (''gdpGrowth_year'', JStr ''2023'')])] 0))
        [(''FRA'', [(''gdpGrowth'', JNum (Fin 2.5)), (''gdpGrowth_year'', JStr ''2023'')])] 0
      = (fst (merge_un Map.empty [(''FRA'', [(''gdpGrowth'', JNum (Fin 2.5)), (''gdpGrowth_year'', JStr ''2023'')])] 0), 0)
   \<and> snd (merge_un Map.empty [(''FRA'', [(''gdpGrowth'', JNum (Fin 2.5)), (''gdpGrowth_year'', JStr ''2023'')])] 0) = 2
   \<and> read_file [[CStr ''ISO3'', CStr ''Year'', CStr ''Neonatal''], [CStr ''FRA'', CInt 2020, CInt 7]]
        female_deaths_columns
      = Inr [(''FRA'', [(''neonateMortalityF'', JNum (Fin 7)), (''neonateMortalityF_year'', JStr ''2020'')])]
   \<and> no_null [(''FRA'', [(''neonateMortalityF'', JNum (Fin 7)), (''neonateMortalityF_year'', JStr ''2020'')])]"
proof -
  let ?m = "[(''FRA'', [(''gdpGrowth'', JNum (Fin 2.5)), (''gdpGrowth_year'', JStr ''2023'')])]"
  let ?rows = "[[CStr ''ISO3'', CStr ''Year'', CStr ''Neonatal''], [CStr ''FRA'', CInt 2020, CInt 7]]"
  let ?r = "[(''FRA'', [(''neonateMortalityF'', JNum (Fin 7)), (''neonateMortalityF_year'', JStr ''2020'')])]"
  have h: "no_null ?m"
    by (simp add: no_null_def)
  have c: "snd (merge_un Map.empty ?m 0) = 2"
    by (simp add: get_is_None_def)
  have r: "read_file ?rows female_deaths_columns = Inr ?r"
    by (simp add: py_eval un_eval female_deaths_columns_def)
  from fill_only_idempotent [of ?m Map.empty 0 0] h
  have i: "merge_un (fst (merge_un Map.empty ?m 0)) ?m 0 = (fst (merge_un Map.empty ?m 0), 0)"
    by blast
  from fill_only_idempotent [where rows = ?rows and cm = female_deaths_columns and m' = ?r] r
  have n: "no_null ?r" by blast
  from h c i r n show ?thesis by blast
qed

end
